(* ===== verification/Maos_Prelude.thy ===== *)
theory Maos_Prelude
  imports Main "HOL-Library.Product_Lexorder" "HOL-Library.Sublist"
begin

text \<open>
  The library shared by every component theory: the collections of simplification rules, the
  result type of a database query, the row operations SQL statements are written with, and
  the JSON values that travel through the program.
\<close>

named_theorems query_simps \<open>unfolding rules of the SQL statements\<close>
named_theorems handler_simps \<open>unfolding rules of the request handlers\<close>

subsection \<open>Results of a database call\<close>

text \<open>
  A call into \<^verbatim>\<open>dbaccess/dbsqlc\<close> returns a value, \<^verbatim>\<open>pgx.ErrNoRows\<close>, or any other error.
\<close>

datatype pgerr = ErrNoRows | DbError string

text \<open>
  Whether the k-th database call of a handler reaches the server: \<open>None\<close> when it does,
  \<open>Some e\<close> when it fails (connection lost, context expired) with message \<open>e\<close>.
\<close>

type_synonym faults = "nat \<Rightarrow> string option"

definition no_faults :: faults where
  "no_faults = (\<lambda>_. None)"

lemma no_faults_apply [simp]: "no_faults k = None"
  by (simp add: no_faults_def)

definition run_query :: "faults \<Rightarrow> nat \<Rightarrow> ('d \<Rightarrow> (pgerr + 'a) \<times> 'd) \<Rightarrow> 'd \<Rightarrow> (pgerr + 'a) \<times> 'd" where
  "run_query flt k q d = (case flt k of Some e \<Rightarrow> (Inl (DbError e), d) | None \<Rightarrow> q d)"

lemma run_query_ok [simp]: "flt k = None \<Longrightarrow> run_query flt k q d = q d"
  by (simp add: run_query_def)

lemma run_query_fault [simp]: "flt k = Some e \<Longrightarrow> run_query flt k q d = (Inl (DbError e), d)"
  by (simp add: run_query_def)

lemma run_query_keeps:
  assumes "run_query flt k q d = (r, d')" and "P d" and "\<And>r e. q d = (r, e) \<Longrightarrow> P e"
  shows "P d'"
  using assms by (auto simp: run_query_def split: option.splits)

text \<open>What a Go call may do beside returning: panic (nil dereference, closed channel, and so on).\<close>

datatype 'a outcome = Return 'a | Panic string

fun panics :: "'a outcome \<Rightarrow> bool" where
  "panics (Panic _) = True"
| "panics (Return _) = False"

definition nil_panic :: "'a outcome" where
  "nil_panic = Panic ''invalid memory address or nil pointer dereference''"

lemma nil_panic_panics [simp]: "panics nil_panic"
  by (simp add: nil_panic_def)

text \<open>
  The response of a request handler by HTTP class: 200/201/204 with a body, 400, 401, 404, 409
  and 500.
\<close>

datatype 'a reply =
  Success 'a | BadRequest string | Unauthorized | NotFound | Conflict | ServerError string

text \<open>The text of a database error.\<close>

fun err_text :: "pgerr \<Rightarrow> string" where
  "err_text ErrNoRows = ''no rows in result set''"
| "err_text (DbError e) = e"

fun traverse_outcome :: "('a \<Rightarrow> 'b outcome) \<Rightarrow> 'a list \<Rightarrow> 'b list outcome" where
  "traverse_outcome f [] = Return []"
| "traverse_outcome f (x # xs) =
     (case f x of
        Panic e \<Rightarrow> Panic e
      | Return y \<Rightarrow>
          (case traverse_outcome f xs of Panic e \<Rightarrow> Panic e | Return ys \<Rightarrow> Return (y # ys)))"

subsection \<open>Rows of a table\<close>

text \<open>\<^verbatim>\<open>UPDATE t SET ... WHERE p\<close> on a table kept as a list of rows.\<close>

definition update_where :: "('a \<Rightarrow> bool) \<Rightarrow> ('a \<Rightarrow> 'a) \<Rightarrow> 'a list \<Rightarrow> 'a list" where
  "update_where p f rows = map (\<lambda>r. if p r then f r else r) rows"

lemma update_where_simps [simp]:
  "update_where p f [] = []"
  "update_where p f (r # rs) = (if p r then f r else r) # update_where p f rs"
  by (simp_all add: update_where_def)

lemma length_update_where [simp]: "length (update_where p f rows) = length rows"
  by (simp add: update_where_def)

lemma map_update_where:
  "(\<And>r. key (f r) = key r) \<Longrightarrow> map key (update_where p f rows) = map key rows"
  by (induction rows) auto

lemma set_update_where:
  "set (update_where p f rows) = {r \<in> set rows. \<not> p r} \<union> f ` {r \<in> set rows. p r}"
  by (induction rows) auto

lemma set_update_where_one:
  "c \<in> set rows \<Longrightarrow> set (update_where (\<lambda>d. d = c) f rows) = insert (f c) (set rows - {c})"
  by (auto simp: set_update_where)

lemma in_update_whereE:
  assumes "x \<in> set (update_where p f rows)"
  obtains "x \<in> set rows" "\<not> p x" | r where "r \<in> set rows" "p r" "x = f r"
  using assms by (auto simp: set_update_where)

lemma update_where_none: "(\<And>r. r \<in> set rows \<Longrightarrow> \<not> p r) \<Longrightarrow> update_where p f rows = rows"
  by (induction rows) auto

lemma update_where_cong:
  "(\<And>r. r \<in> set rows \<Longrightarrow> p r = q r) \<Longrightarrow> update_where p f rows = update_where q f rows"
  by (induction rows) auto

lemma filter_update_where_same:
  "(\<And>r. p (f r) = p r) \<Longrightarrow> filter p (update_where p f rows) = map f (filter p rows)"
  by (induction rows) auto

text \<open>The row with a given key; tables have at most one.\<close>

lemma distinct_key_unique:
  "distinct (map key rows) \<Longrightarrow> a \<in> set rows \<Longrightarrow> b \<in> set rows \<Longrightarrow> key a = key b \<Longrightarrow> a = b"
  by (induction rows) (auto simp: rev_image_eqI)

lemma find_key_Some_iff:
  "distinct (map key rows) \<Longrightarrow> find (\<lambda>r. key r = k) rows = Some a \<longleftrightarrow> a \<in> set rows \<and> key a = k"
  by (induction rows) (auto simp: rev_image_eqI)

lemma filter_unique:
  "distinct (map key rows) \<Longrightarrow> i \<in> set rows \<Longrightarrow> filter (\<lambda>x. x = i) rows = [i]"
  by (induction rows) (auto simp: filter_empty_conv)

lemma filter_key_unique:
  assumes "distinct (map key rows)" and "i \<in> set rows"
  shows "filter (\<lambda>x. key x = key i) rows = [i]"
proof -
  have "filter (\<lambda>x. key x = key i) rows = filter (\<lambda>x. x = i) rows"
    using assms by (intro filter_cong) (auto dest: distinct_key_unique)
  with assms show ?thesis by (simp add: filter_unique)
qed

lemma filter_update_where_commute:
  "(\<And>r. q (f r) = q r) \<Longrightarrow> filter q (update_where p f rows) = update_where p f (filter q rows)"
  by (induction rows) auto

lemma filter_length_mono:
  "(\<And>r. r \<in> set rows \<Longrightarrow> p r \<Longrightarrow> q r) \<Longrightarrow> length (filter p rows) \<le> length (filter q rows)"
  by (induction rows) (auto simp: le_SucI)

lemma find_SomeD: "find p rows = Some a \<Longrightarrow> a \<in> set rows \<and> p a"
  by (induction rows) (auto split: if_splits)

lemma find_filter_Cons: "filter p rows = x # xs \<Longrightarrow> find p rows = Some x"
  by (induction rows) (auto split: if_splits)

lemma find_None_iff: "find p rows = None \<longleftrightarrow> (\<forall>r \<in> set rows. \<not> p r)"
  by (induction rows) auto

lemma find_update_where:
  assumes "\<And>r. key (f r) = key r"
  shows "find (\<lambda>r. key r = k) (update_where p f rows) =
    map_option (\<lambda>r. if p r then f r else r) (find (\<lambda>r. key r = k) rows)"
  by (induction rows) (auto simp: assms)

lemma filter_at_most_one_update:
  assumes "length (filter q rows) \<le> 1" and "\<And>r. r \<in> set rows \<Longrightarrow> p r \<Longrightarrow> \<not> q (f r)"
  shows "length (filter q (update_where p f rows)) \<le> 1"
proof -
  have "length (filter q (update_where p f rows)) \<le> length (filter q rows)"
    using assms(2) by (induction rows) auto
  with assms(1) show ?thesis by simp
qed

subsection \<open>JSON\<close>

text \<open>
  The values of \<^verbatim>\<open>jsonb\<close> columns and of decoded request bodies. Numbers are carried, never
  computed with, so integer literals stand for them. \<open>JUnencodable\<close> is a Go value that has no
  JSON encoding (a channel, a function, NaN): \<^verbatim>\<open>json.Marshal\<close> fails on it.
\<close>

datatype json =
  JNull | JBool bool | JNum int | JStr string | JArr "json list" | JObj "(string \<times> json) list"
| JUnencodable

fun encodable :: "json \<Rightarrow> bool" where
  "encodable (JArr xs) = list_all encodable xs"
| "encodable (JObj kvs) = list_all (\<lambda>kv. encodable (snd kv)) kvs"
| "encodable JUnencodable = False"
| "encodable _ = True"

text \<open>\<^verbatim>\<open>json.Marshal\<close>: the stored value, or an error.\<close>

definition marshal :: "json \<Rightarrow> json option" where
  "marshal v = (if encodable v then Some v else None)"

text \<open>
  Go maps \<^verbatim>\<open>map[string]string\<close> are association lists; the order of the list is the (arbitrary)
  order in which \<^verbatim>\<open>range\<close> visits the keys. Reading a missing key gives the empty string.
\<close>

type_synonym smap = "(string \<times> string) list"

definition get0 :: "smap \<Rightarrow> string \<Rightarrow> string" where
  "get0 m k = (case map_of m k of Some v \<Rightarrow> v | None \<Rightarrow> '''')"

fun json_as_string :: "json \<Rightarrow> string" where
  "json_as_string (JStr s) = s"
| "json_as_string _ = ''''"

fun string_or_null :: "json \<Rightarrow> bool" where
  "string_or_null (JStr _) = True"
| "string_or_null JNull = True"
| "string_or_null _ = False"

text \<open>
  \<^verbatim>\<open>json.Unmarshal\<close> into a \<^verbatim>\<open>map[string]string\<close>: the map left behind (\<open>None\<close> is the nil map)
  and whether an error is reported. A value of another type than string leaves the empty
  string under its key, and decoding goes on to the end before the error is returned.
\<close>

fun unmarshal_smap :: "json \<Rightarrow> smap option \<times> bool" where
  "unmarshal_smap JNull = (None, False)"
| "unmarshal_smap (JObj kvs) =
     (Some (map (\<lambda>kv. (fst kv, json_as_string (snd kv))) kvs),
      \<not> list_all (\<lambda>kv. string_or_null (snd kv)) kvs)"
| "unmarshal_smap _ = (None, True)"

definition nil_as_empty :: "smap option \<Rightarrow> smap" where
  "nil_as_empty m = (case m of None \<Rightarrow> [] | Some kvs \<Rightarrow> kvs)"

definition smap_json :: "smap \<Rightarrow> json" where
  "smap_json m = JObj (map (\<lambda>kv. (fst kv, JStr (snd kv))) m)"

lemma unmarshal_smap_json [simp]: "unmarshal_smap (smap_json m) = (Some m, False)"
  by (induction m) (auto simp: smap_json_def)

subsection \<open>Pointers with a default\<close>

text \<open>\<^verbatim>\<open>lo.FromPtrOr\<close>, \<^verbatim>\<open>lo.Coalesce\<close> on two pointers with a non-nil second one, and SQL's \<^verbatim>\<open>COALESCE\<close>.\<close>

definition from_ptr_or :: "'a option \<Rightarrow> 'a \<Rightarrow> 'a" where
  "from_ptr_or p d = (case p of None \<Rightarrow> d | Some v \<Rightarrow> v)"

lemma from_ptr_or_simps [simp]:
  "from_ptr_or None d = d" "from_ptr_or (Some v) d = v"
  by (simp_all add: from_ptr_or_def)

end
