(* ===== verification/Go_Text.thy ===== *)
theory Go_Text
  imports Maos_Prelude
begin

text \<open>
  What the program uses of Go's \<^verbatim>\<open>strconv\<close> and \<^verbatim>\<open>strings\<close> packages on byte strings: decimal
  formatting and parsing, \<^verbatim>\<open>Split\<close>, \<^verbatim>\<open>Cut\<close>, \<^verbatim>\<open>TrimPrefix\<close>, \<^verbatim>\<open>HasSuffix\<close>, \<^verbatim>\<open>TrimSpace\<close>, and unpadded
  URL-safe base64.
\<close>

subsection \<open>Decimal numbers\<close>

definition digit_char :: "nat \<Rightarrow> char" where
  "digit_char d = char_of (48 + d)"

definition digit_val :: "char \<Rightarrow> nat option" where
  "digit_val c = (let n = (of_char c :: nat) in if 48 \<le> n \<and> n \<le> 57 then Some (n - 48) else None)"

lemma digit_val_char [simp]: "d < 10 \<Longrightarrow> digit_val (digit_char d) = Some d"
  by (simp add: digit_val_def digit_char_def)

fun nat_digits :: "nat \<Rightarrow> string" where
  "nat_digits n = (if n < 10 then [digit_char n] else nat_digits (n div 10) @ [digit_char (n mod 10)])"

declare nat_digits.simps [simp del]

text \<open>\<^verbatim>\<open>strconv.FormatInt(i, 10)\<close>.\<close>

definition FormatInt :: "int \<Rightarrow> string" where
  "FormatInt i = (if i < 0 then CHR ''-'' # nat_digits (nat (- i)) else nat_digits (nat i))"

fun parse_digits :: "nat \<Rightarrow> string \<Rightarrow> nat option" where
  "parse_digits acc [] = Some acc"
| "parse_digits acc (c # cs) =
     (case digit_val c of None \<Rightarrow> None | Some d \<Rightarrow> parse_digits (10 * acc + d) cs)"

definition parse_uint :: "string \<Rightarrow> nat option" where
  "parse_uint s = (if s = [] then None else parse_digits 0 s)"

text \<open>
  \<^verbatim>\<open>strconv.ParseInt(s, 10, bits)\<close>: an optional sign, at least one digit, digits only, and a
  value that fits \<open>bits\<close> bits. \<open>None\<close> stands for the returned error.
\<close>

definition ParseInt :: "nat \<Rightarrow> string \<Rightarrow> int option" where
  "ParseInt bits s =
     (case s of
        [] \<Rightarrow> None
      | c # cs \<Rightarrow>
          (let neg = (c = CHR ''-'');
               body = (if c = CHR ''-'' \<or> c = CHR ''+'' then cs else s)
           in case parse_uint body of
                None \<Rightarrow> None
              | Some u \<Rightarrow>
                  if \<not> neg \<and> u \<ge> 2 ^ (bits - 1) then None
                  else if neg \<and> u > 2 ^ (bits - 1) then None
                  else Some (if neg then - int u else int u)))"

text \<open>\<^verbatim>\<open>strconv.Atoi\<close> on a 64-bit platform.\<close>

abbreviation Atoi :: "string \<Rightarrow> int option" where
  "Atoi \<equiv> ParseInt 64"

lemma nat_digits_nonempty [simp]: "nat_digits n \<noteq> []"
  by (subst nat_digits.simps) simp

lemma digit_char_digit: "d < 10 \<Longrightarrow> digit_val (digit_char d) \<noteq> None"
  by simp

lemma nat_digits_all_digits: "c \<in> set (nat_digits n) \<Longrightarrow> digit_val c \<noteq> None"
proof (induction n rule: nat_digits.induct)
  case (1 n)
  then show ?case
    by (cases "n < 10") (auto simp: nat_digits.simps [of n])
qed

lemma not_digit_signs [simp]:
  "digit_val CHR ''-'' = None" "digit_val CHR ''+'' = None" "digit_val CHR ''.'' = None"
  "digit_val CHR '','' = None"
  by (simp_all add: digit_val_def)

lemma parse_digits_append:
  "parse_digits acc (xs @ ys) =
     (case parse_digits acc xs of None \<Rightarrow> None | Some a \<Rightarrow> parse_digits a ys)"
  by (induction xs arbitrary: acc) (auto split: option.splits)

lemma parse_digits_nat_digits [simp]: "parse_digits 0 (nat_digits n) = Some n"
proof (induction n rule: nat_digits.induct)
  case (1 n)
  show ?case
  proof (cases "n < 10")
    case True
    then show ?thesis by (simp add: nat_digits.simps [of n])
  next
    case False
    with 1 show ?thesis
      by (simp add: nat_digits.simps [of n] parse_digits_append)
  qed
qed

lemma hd_nat_digits_not_sign:
  "hd (nat_digits n) \<noteq> CHR ''-''" "hd (nat_digits n) \<noteq> CHR ''+''"
  using nat_digits_all_digits [of "hd (nat_digits n)" n] by auto

text \<open>Formatting and parsing are inverse on the values of the width.\<close>

lemma FormatInt_small [simp]:
  "FormatInt 1 = ''1''" "FormatInt 2 = ''2''" "FormatInt 3 = ''3''" "FormatInt 7 = ''7''"
  by code_simp+

lemma ParseInt_FormatInt:
  assumes "0 < bits" and "- (2 ^ (bits - 1)) \<le> i" and "i < 2 ^ (bits - 1)"
  shows "ParseInt bits (FormatInt i) = Some i"
proof (cases "i < 0")
  case True
  then have "int (nat (- i)) \<le> 2 ^ (bits - 1)" using assms by simp
  then have "nat (- i) \<le> 2 ^ (bits - 1)"
    by (metis nat_int nat_mono nat_power_eq nat_numeral zero_le_numeral)
  with True show ?thesis
    by (simp add: FormatInt_def ParseInt_def parse_uint_def)
next
  case False
  then have "int (nat i) < 2 ^ (bits - 1)" using assms by simp
  then have small: "nat i < 2 ^ (bits - 1)"
    by (metis of_nat_less_iff of_nat_numeral of_nat_power)
  obtain c cs where cs: "nat_digits (nat i) = c # cs"
    by (cases "nat_digits (nat i)") auto
  then have "c \<noteq> CHR ''-''" "c \<noteq> CHR ''+''"
    using hd_nat_digits_not_sign [of "nat i"] by simp_all
  with False small cs parse_digits_nat_digits [of "nat i"] show ?thesis
    by (simp add: FormatInt_def ParseInt_def parse_uint_def)
qed

lemma ParseInt_range:
  assumes "ParseInt bits s = Some i"
  shows "- (2 ^ (bits - 1)) \<le> i \<and> i < 2 ^ (bits - 1)"
proof -
  have "u \<le> 2 ^ (bits - 1) \<Longrightarrow> - (2 ^ (bits - 1)) \<le> - int u" for u :: nat
    by (metis neg_le_iff_le of_nat_le_iff of_nat_numeral of_nat_power)
  moreover have "u < 2 ^ (bits - 1) \<Longrightarrow> int u < 2 ^ (bits - 1)" for u :: nat
    by (metis of_nat_less_iff of_nat_numeral of_nat_power)
  moreover have "- int u < 2 ^ (bits - 1)" for u :: nat
    by (smt (verit) of_nat_0_le_iff zero_less_power)
  moreover have "- (2 ^ (bits - 1)) \<le> int u" for u :: nat
    by (smt (verit) of_nat_0_le_iff zero_less_power)
  ultimately show ?thesis
    using assms
    by (auto simp: ParseInt_def Let_def not_le not_less split: list.splits option.splits if_splits)
qed

lemma nat_digits_inj: "nat_digits a = nat_digits b \<Longrightarrow> a = b"
  by (metis option.inject parse_digits_nat_digits)

lemma nat_digits_no_minus: "nat_digits a \<noteq> CHR ''-'' # s"
  using hd_nat_digits_not_sign(1) [of a] by (cases "nat_digits a") auto

lemma FormatInt_inj:
  assumes eq: "FormatInt i = FormatInt j"
  shows "i = j"
proof (cases "i < 0"; cases "j < 0")
  assume "i < 0" "j < 0"
  with eq have "nat (- i) = nat (- j)"
    by (intro nat_digits_inj) (simp add: FormatInt_def)
  with \<open>i < 0\<close> \<open>j < 0\<close> show ?thesis by simp
next
  assume "\<not> i < 0" "\<not> j < 0"
  with eq have "nat i = nat j"
    by (intro nat_digits_inj) (simp add: FormatInt_def)
  with \<open>\<not> i < 0\<close> \<open>\<not> j < 0\<close> show ?thesis by simp
next
  assume "i < 0" "\<not> j < 0"
  with eq have "nat_digits (nat j) = CHR ''-'' # nat_digits (nat (- i))"
    by (simp add: FormatInt_def)
  then show ?thesis by (simp add: nat_digits_no_minus)
next
  assume "\<not> i < 0" "j < 0"
  with eq have "nat_digits (nat i) = CHR ''-'' # nat_digits (nat (- j))"
    by (simp add: FormatInt_def)
  then show ?thesis by (simp add: nat_digits_no_minus)
qed

lemma FormatInt_chars: "c \<in> set (FormatInt i) \<Longrightarrow> c = CHR ''-'' \<or> digit_val c \<noteq> None"
  using nat_digits_all_digits [of c] by (auto simp: FormatInt_def split: if_splits)

lemma FormatInt_nonempty [simp]: "FormatInt i \<noteq> []"
  by (simp add: FormatInt_def)

subsection \<open>Splitting and trimming\<close>

text \<open>\<^verbatim>\<open>strings.Split(s, sep)\<close> for a separator of one byte; the empty string gives one empty part.\<close>

fun Split :: "char \<Rightarrow> string \<Rightarrow> string list" where
  "Split sep [] = [[]]"
| "Split sep (c # cs) =
     (if c = sep then [] # Split sep cs
      else case Split sep cs of [] \<Rightarrow> [[c]] | p # ps \<Rightarrow> (c # p) # ps)"

fun join :: "char \<Rightarrow> string list \<Rightarrow> string" where
  "join sep [] = []"
| "join sep [p] = p"
| "join sep (p # q # ps) = p @ sep # join sep (q # ps)"

lemma Split_nonempty [simp]: "Split sep s \<noteq> []"
  by (induction s) (auto split: list.splits)

lemma Split_no_sep: "sep \<notin> set s \<Longrightarrow> Split sep s = [s]"
  by (induction s) auto

lemma Split_append_sep: "sep \<notin> set p \<Longrightarrow> Split sep (p @ sep # s) = p # Split sep s"
  by (induction p) auto

lemma Split_join:
  "ps \<noteq> [] \<Longrightarrow> (\<And>p. p \<in> set ps \<Longrightarrow> sep \<notin> set p) \<Longrightarrow> Split sep (join sep ps) = ps"
  by (induction sep ps rule: join.induct) (auto simp: Split_no_sep Split_append_sep)

text \<open>\<^verbatim>\<open>strings.Cut(s, sep)\<close>, first part only.\<close>

definition Cut_before :: "char \<Rightarrow> string \<Rightarrow> string" where
  "Cut_before sep s = takeWhile (\<lambda>c. c \<noteq> sep) s"

definition HasPrefix :: "string \<Rightarrow> string \<Rightarrow> bool" where
  "HasPrefix s p = prefix p s"

definition HasSuffix :: "string \<Rightarrow> string \<Rightarrow> bool" where
  "HasSuffix s p = suffix p s"

definition TrimPrefix :: "string \<Rightarrow> string \<Rightarrow> string" where
  "TrimPrefix s p = (if prefix p s then drop (length p) s else s)"

lemma TrimPrefix_append [simp]: "TrimPrefix (p @ s) p = s"
  by (simp add: TrimPrefix_def)

text \<open>
  \<^verbatim>\<open>strings.TrimSpace\<close> on UTF-8: the number of bytes of the white space character at the head
  of a string (0 when there is none), and the same at its end, read backwards.
\<close>

fun space_head :: "nat list \<Rightarrow> nat" where
  "space_head (a # bs) =
     (if a \<in> {9, 10, 11, 12, 13, 32} then 1
      else case bs of
        b # cs \<Rightarrow>
          if a = 194 \<and> b \<in> {133, 160} then 2
          else (case cs of
             c # _ \<Rightarrow>
               if (a = 225 \<and> b = 154 \<and> c = 128)
                 \<or> (a = 226 \<and> b = 128 \<and> (128 \<le> c \<and> c \<le> 138 \<or> c \<in> {168, 169, 175}))
                 \<or> (a = 226 \<and> b = 129 \<and> c = 159)
                 \<or> (a = 227 \<and> b = 128 \<and> c = 128)
               then 3 else 0
           | [] \<Rightarrow> 0)
      | [] \<Rightarrow> 0)"
| "space_head [] = 0"

fun space_last :: "nat list \<Rightarrow> nat" where
  "space_last (c # bs) =
     (if c \<in> {9, 10, 11, 12, 13, 32} then 1
      else case bs of
        b # as \<Rightarrow>
          if b = 194 \<and> c \<in> {133, 160} then 2
          else (case as of a # _ \<Rightarrow> if space_head [a, b, c] = 3 then 3 else 0 | [] \<Rightarrow> 0)
      | [] \<Rightarrow> 0)"
| "space_last [] = 0"

function trim_by :: "(nat list \<Rightarrow> nat) \<Rightarrow> string \<Rightarrow> string" where
  "trim_by f s = (let k = f (map of_char s) in if k = 0 \<or> s = [] then s else trim_by f (drop k s))"
  by pat_completeness auto
termination
  by (relation "measure (\<lambda>(f, s). length s)") auto

declare trim_by.simps [simp del]

definition TrimSpace :: "string \<Rightarrow> string" where
  "TrimSpace s = rev (trim_by space_last (rev (trim_by space_head s)))"

subsection \<open>Unpadded URL-safe base64\<close>

definition b64_char :: "nat \<Rightarrow> char" where
  "b64_char n =
     (if n < 26 then char_of (65 + n)
      else if n < 52 then char_of (97 + (n - 26))
      else if n < 62 then char_of (48 + (n - 52))
      else if n = 62 then CHR ''-'' else CHR ''_'')"

text \<open>\<^verbatim>\<open>base64.RawURLEncoding.EncodeToString\<close> on bytes given as numbers below 256.\<close>

fun raw_url_base64 :: "nat list \<Rightarrow> string" where
  "raw_url_base64 [] = []"
| "raw_url_base64 [a] = [b64_char (a div 4), b64_char (a mod 4 * 16)]"
| "raw_url_base64 [a, b] =
     [b64_char (a div 4), b64_char (a mod 4 * 16 + b div 16), b64_char (b mod 16 * 4)]"
| "raw_url_base64 (a # b # c # rest) =
     b64_char (a div 4) # b64_char (a mod 4 * 16 + b div 16) # b64_char (b mod 16 * 4 + c div 64)
       # b64_char (c mod 64) # raw_url_base64 rest"

lemma length_raw_url_base64:
  "length (raw_url_base64 bs) = (4 * length bs + 2) div 3"
  by (induction bs rule: raw_url_base64.induct) auto

end
