(* ===== verification/Util_Lib.thy ===== *)
theory Util_Lib
  imports Go_Text
begin

text \<open>
  The package \<^verbatim>\<open>util\<close>: clamping, actor version strings (\<^verbatim>\<open>version.go\<close>) and the command line
  tokenizer (\<^verbatim>\<open>tokenizer.go\<close>) that splits the launch and migration commands of a deployment.
  Shown here: the clamp stays within its bounds, version strings round trip, and quoting then
  tokenizing a list of words gives the words back.
\<close>

subsection \<open>Clamp\<close>

definition Clamp :: "'a::linorder \<Rightarrow> 'a \<Rightarrow> 'a \<Rightarrow> 'a" where
  "Clamp v lo hi = (if v < lo then lo else if v > hi then hi else v)"

lemma Clamp_bounds: "lo \<le> hi \<Longrightarrow> lo \<le> Clamp v lo hi \<and> Clamp v lo hi \<le> hi"
  by (auto simp: Clamp_def)

lemma Clamp_id: "lo \<le> v \<Longrightarrow> v \<le> hi \<Longrightarrow> Clamp v lo hi = v"
  by (auto simp: Clamp_def)

subsection \<open>Actor versions\<close>

text \<open>
  \<^verbatim>\<open>SerializeActorVersion\<close> writes the separators while it walks the slice; \<open>None\<close> is the nil
  pointer. A nil and an empty slice are both \<open>[]\<close>.
\<close>

fun write_version :: "nat \<Rightarrow> int list \<Rightarrow> string" where
  "write_version i [] = []"
| "write_version i (v # vs) = (if i > 0 then ''.'' else []) @ FormatInt v @ write_version (Suc i) vs"

definition SerializeActorVersion :: "int list \<Rightarrow> string option" where
  "SerializeActorVersion version = (if version = [] then None else Some (write_version 0 version))"

fun parse_parts :: "string list \<Rightarrow> int list option" where
  "parse_parts [] = Some []"
| "parse_parts (p # ps) =
     (case ParseInt 32 p of
        None \<Rightarrow> None
      | Some n \<Rightarrow> (case parse_parts ps of None \<Rightarrow> None | Some ns \<Rightarrow> Some (n # ns)))"

definition DeserializeActorVersion :: "string option \<Rightarrow> int list option" where
  "DeserializeActorVersion version =
     (case version of
        None \<Rightarrow> None
      | Some s \<Rightarrow>
          (let parts = Split CHR ''.'' s
           in if length parts < 3 \<or> length parts > 4 then None else parse_parts parts))"

definition int32_range :: "int \<Rightarrow> bool" where
  "int32_range v \<longleftrightarrow> - (2 ^ 31) \<le> v \<and> v < 2 ^ 31"

lemma write_version_Suc: "vs \<noteq> [] \<Longrightarrow>
  write_version (Suc i) vs = CHR ''.'' # join CHR ''.'' (map FormatInt vs)"
proof (induction vs arbitrary: i)
  case Nil
  then show ?case by simp
next
  case (Cons v vs)
  then show ?case by (cases vs) simp_all
qed

lemma write_version_join: "write_version 0 vs = join CHR ''.'' (map FormatInt vs)"
proof (cases vs)
  case Nil
  then show ?thesis by simp
next
  case (Cons v ws)
  with write_version_Suc [of ws 0] show ?thesis by (cases ws) simp_all
qed

lemma dot_not_in_FormatInt: "CHR ''.'' \<notin> set (FormatInt v)"
  using FormatInt_chars [of "CHR ''.''" v] by auto

lemma Split_write_version:
  "vs \<noteq> [] \<Longrightarrow> Split CHR ''.'' (write_version 0 vs) = map FormatInt vs"
  by (subst write_version_join, rule Split_join) (auto simp: dot_not_in_FormatInt)

lemma parse_parts_FormatInt: "list_all int32_range vs \<Longrightarrow> parse_parts (map FormatInt vs) = Some vs"
  by (induction vs) (auto simp: int32_range_def ParseInt_FormatInt)

lemma parse_parts_range: "parse_parts ps = Some vs \<Longrightarrow> length vs = length ps \<and> list_all int32_range vs"
proof (induction ps arbitrary: vs)
  case Nil
  then show ?case by simp
next
  case (Cons p ps)
  then show ?case
    using ParseInt_range [of 32 p]
    by (auto simp: int32_range_def split: option.splits)
qed

subsection \<open>Command tokenizer\<close>

datatype token_error = UnclosedQuotes

text \<open>
  One iteration per character, with the loop's variables \<open>command\<close>, \<open>current\<close>, \<open>inQuotes\<close> and
  \<open>escapeNext\<close>. The delimiters are ASCII, so reading bytes instead of runes splits a valid UTF-8
  string at the same places.
\<close>

fun tokenize_loop ::
    "string \<Rightarrow> string list \<Rightarrow> string \<Rightarrow> bool \<Rightarrow> bool \<Rightarrow> string list \<times> string \<times> bool" where
  "tokenize_loop [] command current inQuotes escapeNext = (command, current, inQuotes)"
| "tokenize_loop (r # rs) command current inQuotes escapeNext =
     (if escapeNext then tokenize_loop rs command (current @ [r]) inQuotes False
      else if r = CHR 0x5C then tokenize_loop rs command current inQuotes True
      else if r = CHR 0x22 then tokenize_loop rs command current (\<not> inQuotes) False
      else if r = CHR '' '' then
        (if \<not> inQuotes then
           (if current \<noteq> [] then tokenize_loop rs (command @ [current]) [] inQuotes False
            else tokenize_loop rs command current inQuotes False)
         else tokenize_loop rs command (current @ [r]) inQuotes False)
      else tokenize_loop rs command (current @ [r]) inQuotes False)"

definition TokenizeCommand :: "string \<Rightarrow> token_error + string list" where
  "TokenizeCommand commandStr =
     (case tokenize_loop commandStr [] [] False False of
        (command, current, inQuotes) \<Rightarrow>
          if inQuotes then Inl UnclosedQuotes
          else Inr (if current \<noteq> [] then command @ [current] else command))"

text \<open>The quoting a caller uses for an arbitrary word.\<close>

fun escape_word :: "string \<Rightarrow> string" where
  "escape_word [] = []"
| "escape_word (c # cs) =
     (if c = CHR 0x5C \<or> c = CHR 0x22 then CHR 0x5C # c # escape_word cs else c # escape_word cs)"

definition quote_word :: "string \<Rightarrow> string" where
  "quote_word w = CHR 0x22 # escape_word w @ [CHR 0x22]"

lemma tokenize_escaped:
  "tokenize_loop (escape_word w @ CHR 0x22 # rest) command current True False =
   tokenize_loop rest command (current @ w) False False"
  by (induction w arbitrary: current) auto

lemma tokenize_quoted:
  "tokenize_loop (quote_word w @ rest) command current False False =
   tokenize_loop rest command (current @ w) False False"
  by (simp add: quote_word_def tokenize_escaped)

lemma tokenize_quoted_words:
  assumes "ws \<noteq> []" and "\<forall>w \<in> set ws. w \<noteq> []"
  shows "tokenize_loop (join CHR '' '' (map quote_word ws)) command [] False False =
    (command @ butlast ws, last ws, False)"
  using assms
proof (induction ws arbitrary: command)
  case Nil
  then show ?case by simp
next
  case (Cons w ws)
  show ?case
  proof (cases ws)
    case Nil
    then show ?thesis
      using tokenize_quoted [of w "[]" command "[]"] by simp
  next
    case (Cons v vs)
    have "tokenize_loop (join CHR '' '' (map quote_word (w # ws))) command [] False False =
        tokenize_loop (CHR '' '' # join CHR '' '' (map quote_word ws)) command w False False"
      using Cons tokenize_quoted [of w _ command "[]"] by simp
    also have "\<dots> = tokenize_loop (join CHR '' '' (map quote_word ws)) (command @ [w]) [] False False"
      using Cons.prems by simp
    finally show ?thesis
      using Cons.IH [of "command @ [w]"] Cons.prems Cons by simp
  qed
qed

lemma tokenize_loop_step:
  obtains cmd2 cur2 q2 e2 where
    "tokenize_loop (r # rs) command current q e = tokenize_loop rs cmd2 cur2 q2 e2"
    "cmd2 = command \<or> current \<noteq> [] \<and> cmd2 = command @ [current]"
  by (cases e; cases "r = CHR 0x5C"; cases "r = CHR 0x22"; cases "r = CHR '' ''"; cases q;
      cases "current = []") simp_all

lemma tokenize_loop_tokens_nonempty:
  "\<forall>w \<in> set command. w \<noteq> [] \<Longrightarrow>
   \<forall>w \<in> set (fst (tokenize_loop s command current q e)). w \<noteq> []"
proof (induction s arbitrary: command current q e)
  case Nil
  then show ?case by simp
next
  case (Cons r rs)
  obtain cmd2 cur2 q2 e2 where
    step: "tokenize_loop (r # rs) command current q e = tokenize_loop rs cmd2 cur2 q2 e2"
    and cmd2: "cmd2 = command \<or> current \<noteq> [] \<and> cmd2 = command @ [current]"
    by (rule tokenize_loop_step)
  have "\<forall>w \<in> set cmd2. w \<noteq> []" using cmd2 Cons.prems by auto
  then show ?case unfolding step by (rule Cons.IH)
qed

subsection \<open>Properties\<close>

text \<open>A version of three or four int32 parts survives being written and read back.\<close>

lemma version_roundtrip:
  assumes "3 \<le> length v" and "length v \<le> 4" and "list_all int32_range v"
  shows "DeserializeActorVersion (SerializeActorVersion v) = Some v"
proof -
  have "v \<noteq> []" using assms(1) by auto
  then show ?thesis
    using assms
    by (simp add: SerializeActorVersion_def DeserializeActorVersion_def Split_write_version
        parse_parts_FormatInt)
qed

text \<open>C38. Any list of non-empty words, quoted and escaped and separated by spaces, is split back into
  exactly those words: spaces, quotes and backslashes inside a word are kept.\<close>

theorem tokenize_quoted_roundtrip:
  assumes "\<forall>w \<in> set ws. w \<noteq> []"
  shows "TokenizeCommand (join CHR '' '' (map quote_word ws)) = Inr ws"
proof (cases "ws = []")
  case True
  then show ?thesis by (simp add: TokenizeCommand_def)
next
  case False
  then have "last ws \<noteq> []" using assms by simp
  then show ?thesis
    using tokenize_quoted_words [OF False assms, of "[]"] False by (simp add: TokenizeCommand_def)
qed

theorem tokenize_quoted_roundtrip_witness:
  "TokenizeCommand (join CHR '' '' (map quote_word [''migrate'', [CHR 0x22, CHR '' '', CHR 0x5C]])) =
     Inr [''migrate'', [CHR 0x22, CHR '' '', CHR 0x5C]]"
  by (rule tokenize_quoted_roundtrip) simp

text \<open>Every word the tokenizer returns is non-empty, so that a non-empty result names a program to
  run.\<close>

lemma tokens_nonempty:
  assumes "TokenizeCommand s = Inr ws"
  shows "list_all (\<lambda>w. w \<noteq> []) ws"
proof -
  obtain command current q where run: "tokenize_loop s [] [] False False = (command, current, q)"
    by (cases "tokenize_loop s [] [] False False")
  have "\<forall>w \<in> set command. w \<noteq> []"
    using tokenize_loop_tokens_nonempty [of "[]" s "[]" False False] run by simp
  with assms run show ?thesis
    by (auto simp: TokenizeCommand_def list_all_iff split: if_splits)
qed

end
