(* ===== verification/Db_Model.thy ===== *)
theory Db_Model
  imports Util_Lib
begin

text \<open>
  The tables of the database (\<^verbatim>\<open>dbaccess/dbsqlc/models.go\<close>, \<^verbatim>\<open>migrate/migration/*.sql\<close>) as
  records, and the whole database as one record of tables. A table is the list of its rows in
  insertion order; nullable columns are options; \<^verbatim>\<open>jsonb\<close> columns hold \<open>json\<close> values. The id
  sequences are kept as the next value to hand out. Times are the Unix seconds the code stores.
\<close>

subsection \<open>Enumerations\<close>

datatype ActorRole =
  ActorRoleAgent | ActorRoleService | ActorRolePortal | ActorRoleUser | ActorRoleOther

datatype DeploymentStatus =
  DeploymentStatusDraft | DeploymentStatusReviewing | DeploymentStatusApproved
| DeploymentStatusDeploying | DeploymentStatusDeployed | DeploymentStatusFailed
| DeploymentStatusRejected | DeploymentStatusRetired | DeploymentStatusCancelled

datatype InvocationState =
  InvocationStateAvailable | InvocationStateCancelled | InvocationStateCompleted
| InvocationStateDiscarded | InvocationStateRunning

subsection \<open>Rows\<close>

record actor =
  a_id :: int
  a_name :: string
  a_queue_id :: int
  a_created_at :: int
  a_metadata :: json
  a_updated_at :: "int option"
  a_enabled :: bool
  a_deployable :: bool
  a_configurable :: bool
  a_role :: ActorRole
  a_migratable :: bool
  a_permissions :: "string list"
  a_mcp_enabled :: bool

record api_token =
  t_id :: string
  t_actor_id :: int
  t_expire_at :: int
  t_created_by :: string
  t_created_at :: int
  t_permissions :: "string list"

record config =
  c_id :: int
  c_actor_id :: int
  c_config_suite_id :: "int option"
  c_content :: json
  c_min_actor_version :: "int list option"
  c_created_by :: string
  c_created_at :: int
  c_updated_by :: "string option"
  c_updated_at :: "int option"

record config_suite =
  s_id :: int
  s_active :: bool
  s_created_by :: string
  s_created_at :: int
  s_updated_by :: "string option"
  s_updated_at :: "int option"
  s_deployed_at :: "int option"

record deployment =
  d_id :: int
  d_name :: string
  d_status :: DeploymentStatus
  d_reviewers :: "string list"
  d_config_suite_id :: "int option"
  d_notes :: "json option"
  d_created_by :: string
  d_created_at :: int
  d_approved_by :: "string option"
  d_approved_at :: "int option"
  d_finished_by :: "string option"
  d_finished_at :: "int option"
  d_migration_logs :: "json option"
  d_last_error :: "string option"
  d_deploying_at :: "int option"
  d_deployed_at :: "int option"

record invocation =
  i_id :: int
  i_state :: InvocationState
  i_queue_id :: int
  i_attempted_at :: "int option"
  i_created_at :: int
  i_finalized_at :: "int option"
  i_priority :: int
  i_payload :: json
  i_errors :: "json option"
  i_result :: "json option"
  i_metadata :: json
  i_tags :: "string list"
  i_attempted_by :: "int list option"

record reference_suite =
  rs_id :: int
  rs_name :: string
  rs_config_suites :: json
  rs_created_at :: int
  rs_updated_at :: "int option"

record queue_row =
  q_id :: int
  q_name :: string
  q_created_at :: int
  q_metadata :: json
  q_paused_at :: "int option"
  q_updated_at :: "int option"

subsection \<open>The database\<close>

text \<open>
  \<open>published\<close> is the log of \<^verbatim>\<open>pg_notify\<close> calls, as pairs of channel and payload.
\<close>

record db =
  queues :: "queue_row list"
  actors :: "actor list"
  api_tokens :: "api_token list"
  configs :: "config list"
  config_suites :: "config_suite list"
  deployments :: "deployment list"
  invocations :: "invocation list"
  setting :: "(string \<times> json) list option"
  reference_suites :: "reference_suite list"
  next_queue :: int
  next_actor :: int
  next_config :: int
  next_suite :: int
  next_deployment :: int
  next_invocation :: int
  next_reference_suite :: int
  published :: "(string \<times> string) list"

definition empty_db :: db where
  "empty_db = \<lparr>queues = [], actors = [], api_tokens = [], configs = [], config_suites = [],
     deployments = [], invocations = [], setting = None, reference_suites = [],
     next_queue = 1, next_actor = 1,
     next_config = 1, next_suite = 1, next_deployment = 1, next_invocation = 1,
     next_reference_suite = 1, published = []\<rparr>"

text \<open>A \<^verbatim>\<open>:one\<close> statement returns the first row, or \<^verbatim>\<open>pgx.ErrNoRows\<close>.\<close>

definition one_row :: "'a list \<Rightarrow> pgerr + 'a" where
  "one_row rows = (case rows of [] \<Rightarrow> Inl ErrNoRows | r # _ \<Rightarrow> Inr r)"

lemma one_row_simps [simp]:
  "one_row [] = Inl ErrNoRows" "one_row (r # rs) = Inr r"
  by (simp_all add: one_row_def)

text \<open>\<^verbatim>\<open>char_length\<close> of UTF-8 text: the bytes that are not continuation bytes.\<close>

definition char_length :: "string \<Rightarrow> nat" where
  "char_length s = length (filter (\<lambda>c. \<not> (128 \<le> (of_char c :: nat) \<and> (of_char c :: nat) < 192)) s)"

text \<open>
  \<^verbatim>\<open>PgNotifyOne\<close>: the channel is the topic prefixed by the current schema.
\<close>

definition PgNotifyOne :: "string \<Rightarrow> string \<Rightarrow> string \<Rightarrow> db \<Rightarrow> (pgerr + unit) \<times> db" where
  "PgNotifyOne schema topic payload d =
     (Inr (), d\<lparr>published := published d @ [(schema @ ''.'' @ topic, payload)]\<rparr>)"

text \<open>A small database for the concrete instances: one actor with its queue and one token.\<close>

definition sample_actor :: actor where
  "sample_actor = \<lparr>a_id = 1, a_name = ''bot'', a_queue_id = 3, a_created_at = 10,
     a_metadata = JObj [], a_updated_at = None, a_enabled = True, a_deployable = True, a_configurable = True,
     a_role = ActorRoleAgent, a_migratable = False, a_permissions = [''read:invocation''],
     a_mcp_enabled = False\<rparr>"

definition sample_db :: db where
  "sample_db = empty_db\<lparr>actors := [sample_actor], next_actor := 2,
     queues := [\<lparr>q_id = 3, q_name = ''bot'', q_created_at = 10, q_metadata = JObj [],
       q_paused_at = None, q_updated_at = None\<rparr>],
     next_queue := 4,
     api_tokens := [\<lparr>t_id = ''tok'', t_actor_id = 1, t_expire_at = 1000, t_created_by = ''ops'',
       t_created_at = 10, t_permissions = [''read:invocation'']\<rparr>]\<rparr>"

end
