(* ===== verification/Invocation_Store.thy ===== *)
theory Invocation_Store
  imports Db_Model
begin

text \<open>
  The statements of \<^verbatim>\<open>dbaccess/dbsqlc/invocation.sql.go\<close> over the table \<^verbatim>\<open>invocations\<close>, the
  table's constraints as an invariant that every statement keeps, and the life of one
  invocation: available, running, then completed or discarded, never back.
\<close>

subsection \<open>Statements\<close>

definition InvocationFindById :: "int \<Rightarrow> db \<Rightarrow> (pgerr + invocation) \<times> db" where
  "InvocationFindById iid d = (one_row (filter (\<lambda>i. i_id i = iid) (invocations d)), d)"

text \<open>The constraints \<^verbatim>\<open>finalized_or_finalized_at_null\<close> and \<^verbatim>\<open>priority_in_range\<close> of the table.\<close>

definition final_state :: "InvocationState \<Rightarrow> bool" where
  "final_state s \<longleftrightarrow>
     s \<in> {InvocationStateCancelled, InvocationStateCompleted, InvocationStateDiscarded}"

definition check_invocation :: "invocation \<Rightarrow> bool" where
  "check_invocation i \<longleftrightarrow>
     (i_finalized_at i = None \<and> \<not> final_state (i_state i)
      \<or> i_finalized_at i \<noteq> None \<and> final_state (i_state i))
     \<and> 1 \<le> i_priority i \<and> i_priority i \<le> 8"

record invocation_insert_params =
  p_state :: InvocationState
  p_created_at :: int
  p_finalized_at :: "int option"
  p_priority :: int
  p_payload :: json
  p_metadata :: "json option"
  p_tags :: "string list option"
  p_actor_name :: string

text \<open>
  One row per actor of that name (the index \<^verbatim>\<open>actors_name\<close> makes it at most one). \<^verbatim>\<open>CreatedAt\<close> is
  an \<^verbatim>\<open>int64\<close>, never SQL's NULL, so the statement's COALESCE always takes the parameter.
\<close>

definition new_invocation :: "invocation_insert_params \<Rightarrow> int \<Rightarrow> int \<Rightarrow> invocation" where
  "new_invocation p iid qid =
     \<lparr>i_id = iid, i_state = p_state p, i_queue_id = qid, i_attempted_at = None,
      i_created_at = p_created_at p, i_finalized_at = p_finalized_at p, i_priority = p_priority p,
      i_payload = p_payload p, i_errors = None, i_result = None,
      i_metadata = from_ptr_or (p_metadata p) (JObj []), i_tags = from_ptr_or (p_tags p) [],
      i_attempted_by = None\<rparr>"

definition InvocationInsert :: "invocation_insert_params \<Rightarrow> db \<Rightarrow> (pgerr + int \<times> int) \<times> db" where
  "InvocationInsert p d =
     (case find (\<lambda>a. a_name a = p_actor_name p) (actors d) of
        None \<Rightarrow> (Inl ErrNoRows, d)
      | Some a \<Rightarrow>
          (let row = new_invocation p (next_invocation d) (a_queue_id a)
           in if \<not> check_invocation row then (Inl (DbError ''check constraint''), d)
              else (Inr (i_id row, i_queue_id row),
                    d\<lparr>invocations := invocations d @ [row], next_invocation := next_invocation d + 1\<rparr>)))"

text \<open>
  The rows the common table expression \<^verbatim>\<open>locked_invocations\<close> selects: available rows of the queue
  by priority and then id, at most \<open>mx\<close> of them, leaving out those another transaction holds
  locked (\<^verbatim>\<open>FOR UPDATE SKIP LOCKED\<close>).
\<close>

definition available_in :: "int set \<Rightarrow> int \<Rightarrow> db \<Rightarrow> invocation list" where
  "available_in locked qid d =
     sort_key (\<lambda>i. (i_priority i, i_id i))
       (filter (\<lambda>i. i_state i = InvocationStateAvailable \<and> i_queue_id i = qid \<and> i_id i \<notin> locked)
          (invocations d))"

definition claim_row :: "int \<Rightarrow> int \<Rightarrow> invocation \<Rightarrow> invocation" where
  "claim_row now who i =
     i\<lparr>i_state := InvocationStateRunning, i_attempted_at := Some now,
       i_attempted_by := Some ((case i_attempted_by i of None \<Rightarrow> [] | Some xs \<Rightarrow> xs) @ [who])\<rparr>"

definition InvocationGetAvailable ::
    "int set \<Rightarrow> int \<Rightarrow> int \<Rightarrow> int \<Rightarrow> int \<Rightarrow> db \<Rightarrow> (pgerr + invocation list) \<times> db" where
  "InvocationGetAvailable locked now attemptedBy queueId mx d =
     (if mx < 0 then (Inl (DbError ''LIMIT must not be negative''), d)
      else let ids = map i_id (take (nat mx) (available_in locked queueId d));
               rows = update_where (\<lambda>i. i_id i \<in> set ids) (claim_row now attemptedBy) (invocations d)
           in (Inr (filter (\<lambda>i. i_id i \<in> set ids) rows), d\<lparr>invocations := rows\<rparr>))"

text \<open>
  The guard of both finalizing statements: the row is running and the caller is the last actor
  that attempted it. A NULL or empty \<^verbatim>\<open>attempted_by\<close> makes SQL's condition not true.
\<close>

definition finalizable :: "int \<Rightarrow> int \<Rightarrow> invocation \<Rightarrow> bool" where
  "finalizable iid who i \<longleftrightarrow>
     i_id i = iid \<and> i_state i = InvocationStateRunning \<and>
     (case i_attempted_by i of None \<Rightarrow> False | Some xs \<Rightarrow> xs \<noteq> [] \<and> last xs = who)"

definition complete_row :: "int \<Rightarrow> json \<Rightarrow> invocation \<Rightarrow> invocation" where
  "complete_row fin res i =
     i\<lparr>i_finalized_at := Some fin, i_result := Some res, i_state := InvocationStateCompleted\<rparr>"

definition fail_row :: "int \<Rightarrow> json \<Rightarrow> invocation \<Rightarrow> invocation" where
  "fail_row fin errs i =
     i\<lparr>i_finalized_at := Some fin, i_errors := Some errs, i_state := InvocationStateDiscarded\<rparr>"

text \<open>The columns both statements return.\<close>

type_synonym finalized = "int \<times> InvocationState \<times> int option"

definition finalized_of :: "invocation \<Rightarrow> finalized" where
  "finalized_of i = (i_id i, i_state i, i_finalized_at i)"

definition InvocationSetCompleteIfRunning ::
    "int \<Rightarrow> int \<Rightarrow> int \<Rightarrow> json \<Rightarrow> db \<Rightarrow> (pgerr + finalized) \<times> db" where
  "InvocationSetCompleteIfRunning iid finalizedAt finalizer res d =
     (let p = finalizable iid finalizer; f = complete_row finalizedAt res
      in (one_row (map (\<lambda>i. finalized_of (f i)) (filter p (invocations d))),
          d\<lparr>invocations := update_where p f (invocations d)\<rparr>))"

definition InvocationSetFailureIfRunning ::
    "int \<Rightarrow> int \<Rightarrow> int \<Rightarrow> json \<Rightarrow> db \<Rightarrow> (pgerr + finalized) \<times> db" where
  "InvocationSetFailureIfRunning iid finalizedAt finalizer errs d =
     (let p = finalizable iid finalizer; f = fail_row finalizedAt errs
      in (one_row (map (\<lambda>i. finalized_of (f i)) (filter p (invocations d))),
          d\<lparr>invocations := update_where p f (invocations d)\<rparr>))"

lemmas invocation_statements [query_simps] =
  InvocationFindById_def InvocationInsert_def InvocationGetAvailable_def
  InvocationSetCompleteIfRunning_def InvocationSetFailureIfRunning_def

subsection \<open>The table's invariant\<close>

text \<open>
  What holds of every row: the table's constraints, and the link between the state and the
  columns the statements write. An available invocation was never attempted; any other one was
  attempted exactly once; a result belongs to a completed invocation and errors to a discarded one.
\<close>

definition invocation_ok :: "invocation \<Rightarrow> bool" where
  "invocation_ok i \<longleftrightarrow>
     check_invocation i
     \<and> (i_state i = InvocationStateAvailable \<longleftrightarrow> i_attempted_by i = None)
     \<and> (i_state i \<noteq> InvocationStateAvailable \<longrightarrow>
          (\<exists>who. i_attempted_by i = Some [who]) \<and> i_attempted_at i \<noteq> None)
     \<and> (i_result i \<noteq> None \<longleftrightarrow> i_state i = InvocationStateCompleted)
     \<and> (i_errors i \<noteq> None \<longleftrightarrow> i_state i = InvocationStateDiscarded)
     \<and> i_state i \<noteq> InvocationStateCancelled"

definition invocations_inv :: "db \<Rightarrow> bool" where
  "invocations_inv d \<longleftrightarrow>
     distinct (map i_id (invocations d))
     \<and> (\<forall>i \<in> set (invocations d). i_id i < next_invocation d \<and> invocation_ok i)"

lemma invocations_invD:
  "invocations_inv d \<Longrightarrow> i \<in> set (invocations d) \<Longrightarrow> invocation_ok i"
  "invocations_inv d \<Longrightarrow> i \<in> set (invocations d) \<Longrightarrow> i_id i < next_invocation d"
  "invocations_inv d \<Longrightarrow> distinct (map i_id (invocations d))"
  by (auto simp: invocations_inv_def)

lemma row_ids [simp]:
  "i_id (claim_row now who i) = i_id i"
  "i_id (complete_row fin res i) = i_id i"
  "i_id (fail_row fin errs i) = i_id i"
  by (simp_all add: claim_row_def complete_row_def fail_row_def)

lemma invocations_inv_update:
  assumes inv: "invocations_inv d"
    and ids: "\<And>i. i_id (f i) = i_id i"
    and ok: "\<And>i. i \<in> set (invocations d) \<Longrightarrow> p i \<Longrightarrow> invocation_ok (f i)"
  shows "invocations_inv (d\<lparr>invocations := update_where p f (invocations d)\<rparr>)"
  using inv ids ok
  by (auto simp: invocations_inv_def map_update_where set_update_where)

lemma claim_row_ok:
  "invocation_ok i \<Longrightarrow> i_state i = InvocationStateAvailable \<Longrightarrow> invocation_ok (claim_row now who i)"
  by (auto simp: invocation_ok_def check_invocation_def final_state_def claim_row_def)

lemma complete_row_ok:
  "invocation_ok i \<Longrightarrow> finalizable iid who i \<Longrightarrow> invocation_ok (complete_row fin res i)"
  by (auto simp: invocation_ok_def check_invocation_def final_state_def complete_row_def
      finalizable_def)

lemma fail_row_ok:
  "invocation_ok i \<Longrightarrow> finalizable iid who i \<Longrightarrow> invocation_ok (fail_row fin errs i)"
  by (auto simp: invocation_ok_def check_invocation_def final_state_def fail_row_def
      finalizable_def)

lemma set_available_in:
  "i \<in> set (available_in locked qid d) \<longleftrightarrow>
     i \<in> set (invocations d) \<and> i_state i = InvocationStateAvailable \<and> i_queue_id i = qid
     \<and> i_id i \<notin> locked"
  by (auto simp: available_in_def)

lemma claimed_is_available:
  assumes "invocations_inv d" and "i \<in> set (invocations d)"
    and "i_id i \<in> i_id ` set (take n (available_in locked qid d))"
  shows "i \<in> set (available_in locked qid d)"
proof -
  obtain j where j: "j \<in> set (available_in locked qid d)" "i_id j = i_id i"
    using assms(3) by (auto dest: in_set_takeD)
  then have "j \<in> set (invocations d)" by (simp add: set_available_in)
  with assms j have "j = i"
    by (metis distinct_key_unique invocations_inv_def)
  with j show ?thesis by simp
qed

lemma invocations_inv_append:
  assumes "invocations_inv d" and "i_id row = next_invocation d" and "invocation_ok row"
  shows "invocations_inv
    (d\<lparr>invocations := invocations d @ [row], next_invocation := next_invocation d + 1\<rparr>)"
  using assms by (fastforce simp: invocations_inv_def)

lemma new_invocation_ok:
  "p_state p = InvocationStateAvailable \<Longrightarrow> check_invocation (new_invocation p iid qid) \<Longrightarrow>
   invocation_ok (new_invocation p iid qid)"
  by (simp add: invocation_ok_def new_invocation_def)

lemma new_invocation_id [simp]: "i_id (new_invocation p iid qid) = iid"
  by (simp add: new_invocation_def)

lemma InvocationInsert_inv:
  assumes "invocations_inv d" and "InvocationInsert p d = (r, d')"
    and "p_state p = InvocationStateAvailable"
  shows "invocations_inv d'"
  using assms
  by (auto simp: InvocationInsert_def Let_def new_invocation_ok
      intro: invocations_inv_append split: option.splits if_splits)

lemma InvocationGetAvailable_inv:
  assumes inv: "invocations_inv d" and q: "InvocationGetAvailable locked now who qid mx d = (r, d')"
  shows "invocations_inv d'"
proof (cases "mx < 0")
  case True
  with q inv show ?thesis by (simp add: InvocationGetAvailable_def)
next
  case False
  let ?sel = "take (nat mx) (available_in locked qid d)"
  have "invocations_inv (d\<lparr>invocations :=
      update_where (\<lambda>i. i_id i \<in> i_id ` set ?sel) (claim_row now who) (invocations d)\<rparr>)"
  proof (rule invocations_inv_update [OF inv])
    fix i
    assume "i \<in> set (invocations d)" "i_id i \<in> i_id ` set ?sel"
    then have "i \<in> set (available_in locked qid d)"
      using inv by (blast intro: claimed_is_available)
    then show "invocation_ok (claim_row now who i)"
      using inv by (auto simp: set_available_in invocations_inv_def intro: claim_row_ok)
  qed simp
  with q False show ?thesis by (auto simp: InvocationGetAvailable_def Let_def)
qed

lemma InvocationSetCompleteIfRunning_inv:
  "invocations_inv d \<Longrightarrow> InvocationSetCompleteIfRunning iid fin who res d = (r, d') \<Longrightarrow>
   invocations_inv d'"
  by (auto simp: InvocationSetCompleteIfRunning_def Let_def
      intro!: invocations_inv_update intro: complete_row_ok invocations_invD)

lemma InvocationSetFailureIfRunning_inv:
  "invocations_inv d \<Longrightarrow> InvocationSetFailureIfRunning iid fin who errs d = (r, d') \<Longrightarrow>
   invocations_inv d'"
  by (auto simp: InvocationSetFailureIfRunning_def Let_def
      intro!: invocations_inv_update intro: fail_row_ok invocations_invD)

subsection \<open>Steps of the table\<close>

text \<open>
  Every way the program changes the table, and any change of another table (\<open>other\<close>), as a step
  relation. The program only ever inserts invocations in the state available.
\<close>

inductive inv_step :: "db \<Rightarrow> db \<Rightarrow> bool" where
  insert: "p_state p = InvocationStateAvailable \<Longrightarrow> InvocationInsert p d = (r, d') \<Longrightarrow> inv_step d d'"
| claim: "InvocationGetAvailable locked now who qid mx d = (r', d') \<Longrightarrow> inv_step d d'"
| complete: "InvocationSetCompleteIfRunning iid fin who res d = (r'', d') \<Longrightarrow> inv_step d d'"
| failure: "InvocationSetFailureIfRunning iid fin who errs d = (r'', d') \<Longrightarrow> inv_step d d'"
| other: "invocations d' = invocations d \<Longrightarrow> next_invocation d' = next_invocation d \<Longrightarrow> inv_step d d'"

lemma inv_step_snd:
  "p_state p = InvocationStateAvailable \<Longrightarrow> inv_step d (snd (InvocationInsert p d))"
  "inv_step d (snd (InvocationGetAvailable locked now who qid mx d))"
  "inv_step d (snd (InvocationSetCompleteIfRunning iid fin who res d))"
  "inv_step d (snd (InvocationSetFailureIfRunning iid fin who res d))"
  by (erule inv_step.insert, rule prod.collapse [symmetric])
    (rule inv_step.intros(2-4), rule prod.collapse [symmetric])+

lemma inv_step_inv: "inv_step d d' \<Longrightarrow> invocations_inv d \<Longrightarrow> invocations_inv d'"
proof (induction rule: inv_step.induct)
  case (insert p d r d')
  then show ?case by (blast intro: InvocationInsert_inv)
next
  case (claim locked now who qid mx d r' d')
  then show ?case by (blast intro: InvocationGetAvailable_inv)
next
  case (complete iid fin who res d r'' d')
  then show ?case by (blast intro: InvocationSetCompleteIfRunning_inv)
next
  case (failure iid fin who errs d r'' d')
  then show ?case by (blast intro: InvocationSetFailureIfRunning_inv)
next
  case (other d' d)
  then show ?case by (simp add: invocations_inv_def)
qed

lemma inv_steps_inv: "inv_step\<^sup>*\<^sup>* d d' \<Longrightarrow> invocations_inv d \<Longrightarrow> invocations_inv d'"
  by (induction rule: rtranclp_induct) (auto intro: inv_step_inv)

text \<open>How far an invocation has come: 0 available, 1 running, 2 finalized.\<close>

definition state_rank :: "InvocationState \<Rightarrow> nat" where
  "state_rank s =
     (if s = InvocationStateAvailable then 0 else if s = InvocationStateRunning then 1 else 2)"

text \<open>What a row may become: the same row, or a row further on with the same request data.\<close>

definition row_later :: "invocation \<Rightarrow> invocation \<Rightarrow> bool" where
  "row_later i j \<longleftrightarrow>
     j = i \<or>
     state_rank (i_state i) < state_rank (i_state j) \<and> i_id j = i_id i \<and> i_queue_id j = i_queue_id i
     \<and> i_priority j = i_priority i \<and> i_payload j = i_payload i \<and> i_metadata j = i_metadata i
     \<and> i_created_at j = i_created_at i"

lemma row_later_refl [simp]: "row_later i i"
  by (simp add: row_later_def)

lemma row_later_self: "i \<in> set rows \<Longrightarrow> \<exists>j \<in> set rows. row_later i j"
  using row_later_refl by blast

lemma row_later_trans: "row_later i j \<Longrightarrow> row_later j k \<Longrightarrow> row_later i k"
  by (auto simp: row_later_def)

lemma claim_row_later: "i_state i = InvocationStateAvailable \<Longrightarrow> row_later i (claim_row now who i)"
  by (simp add: row_later_def claim_row_def state_rank_def)

lemma complete_row_later: "finalizable iid who i \<Longrightarrow> row_later i (complete_row fin res i)"
  by (simp add: row_later_def complete_row_def state_rank_def finalizable_def)

lemma fail_row_later: "finalizable iid who i \<Longrightarrow> row_later i (fail_row fin errs i)"
  by (simp add: row_later_def fail_row_def state_rank_def finalizable_def)

lemma update_row_later:
  assumes "i \<in> set rows" and "p i \<Longrightarrow> row_later i (f i)"
  shows "\<exists>j \<in> set (update_where p f rows). row_later i j"
proof (cases "p i")
  case True
  with assms have "f i \<in> set (update_where p f rows)" by (auto simp: set_update_where)
  with True assms show ?thesis by blast
next
  case False
  with assms have "i \<in> set (update_where p f rows)" by (auto simp: set_update_where)
  then show ?thesis by (rule row_later_self)
qed

lemma inv_step_row_later:
  "inv_step d d' \<Longrightarrow> invocations_inv d \<Longrightarrow> i \<in> set (invocations d) \<Longrightarrow>
   \<exists>j \<in> set (invocations d'). row_later i j"
proof (induction rule: inv_step.induct)
  case (insert p d r d')
  then show ?case
    by (auto simp: InvocationInsert_def Let_def split: option.splits if_splits intro: bexI [of _ i])
next
  case (claim locked now who qid mx d r' d')
  show ?case
  proof (cases "mx < 0")
    case True
    with claim show ?thesis by (simp add: InvocationGetAvailable_def row_later_self)
  next
    case False
    have "row_later i (claim_row now who i)"
      if "i_id i \<in> i_id ` set (take (nat mx) (available_in locked qid d))"
      using claimed_is_available [OF claim.prems that]
      by (simp add: claim_row_later set_available_in)
    with claim False show ?thesis
      by (auto simp: InvocationGetAvailable_def Let_def intro!: update_row_later)
  qed
next
  case (complete iid fin who res d r'' d')
  then show ?case
    by (auto simp: InvocationSetCompleteIfRunning_def Let_def
        intro!: update_row_later complete_row_later)
next
  case (failure iid fin who errs d r'' d')
  then show ?case
    by (auto simp: InvocationSetFailureIfRunning_def Let_def intro!: update_row_later fail_row_later)
next
  case (other d' d)
  then show ?case by (simp add: row_later_self)
qed

lemma inv_steps_row_later:
  assumes "inv_step\<^sup>*\<^sup>* d d'" and "invocations_inv d" and "i \<in> set (invocations d)"
  shows "\<exists>j \<in> set (invocations d'). row_later i j"
  using assms
proof (induction rule: rtranclp_induct)
  case base
  then show ?case by (intro row_later_self)
next
  case (step d1 d2)
  then obtain j where j: "j \<in> set (invocations d1)" "row_later i j" by blast
  have "invocations_inv d1" using step.hyps(1) step.prems(1) by (rule inv_steps_inv)
  with step.hyps(2) j obtain k where "k \<in> set (invocations d2)" "row_later j k"
    using inv_step_row_later by blast
  with j show ?case by (blast intro: row_later_trans)
qed

subsection \<open>What claiming and finalizing do\<close>

definition claimed_set :: "int set \<Rightarrow> int \<Rightarrow> int \<Rightarrow> db \<Rightarrow> invocation set" where
  "claimed_set locked qid mx d = set (take (nat mx) (available_in locked qid d))"

lemma claimed_set_subset:
  "claimed_set locked qid mx d \<subseteq> set (available_in locked qid d)"
  "claimed_set locked qid mx d \<subseteq> set (invocations d)"
  by (auto simp: claimed_set_def set_available_in dest: in_set_takeD)

lemma claimed_set_ids:
  assumes "invocations_inv d" and i: "i \<in> set (invocations d)"
  shows "i_id i \<in> i_id ` claimed_set locked qid mx d \<longleftrightarrow> i \<in> claimed_set locked qid mx d"
proof
  assume "i_id i \<in> i_id ` claimed_set locked qid mx d"
  then obtain j where j: "j \<in> claimed_set locked qid mx d" "i_id j = i_id i" by auto
  moreover have "j \<in> set (invocations d)" using j claimed_set_subset(2) by blast
  ultimately have "j = i" using assms by (metis distinct_key_unique invocations_inv_def)
  with j show "i \<in> claimed_set locked qid mx d" by simp
qed simp

lemma InvocationGetAvailable_claims:
  assumes inv: "invocations_inv d" and mx: "0 \<le> mx"
  shows "InvocationGetAvailable locked now who qid mx d =
    (Inr (map (claim_row now who) (filter (\<lambda>i. i \<in> claimed_set locked qid mx d) (invocations d))),
     d\<lparr>invocations :=
       update_where (\<lambda>i. i \<in> claimed_set locked qid mx d) (claim_row now who) (invocations d)\<rparr>)"
proof -
  let ?byid = "\<lambda>i. i_id i \<in> i_id ` claimed_set locked qid mx d"
  have eq: "update_where ?byid (claim_row now who) (invocations d) =
      update_where (\<lambda>i. i \<in> claimed_set locked qid mx d) (claim_row now who) (invocations d)"
    by (rule update_where_cong) (rule claimed_set_ids [OF inv])
  have "filter ?byid (update_where ?byid (claim_row now who) (invocations d)) =
      map (claim_row now who) (filter ?byid (invocations d))"
    by (rule filter_update_where_same) simp
  also have "filter ?byid (invocations d) =
      filter (\<lambda>i. i \<in> claimed_set locked qid mx d) (invocations d)"
    by (rule filter_cong) (simp_all add: claimed_set_ids [OF inv])
  finally show ?thesis
    using mx eq by (simp add: InvocationGetAvailable_def Let_def claimed_set_def)
qed

text \<open>
  The first row of \<open>available_in\<close> is below every other one in the order of the queue, so a claim
  of one row takes the oldest invocation of the most urgent priority.
\<close>

lemma available_in_hd_least:
  assumes "available_in locked qid d = i # rest" and "j \<in> set (available_in locked qid d)"
  shows "(i_priority i, i_id i) \<le> (i_priority j, i_id j)"
proof -
  have "sorted (map (\<lambda>i. (i_priority i, i_id i)) (available_in locked qid d))"
    by (simp add: available_in_def)
  with assms show ?thesis by (auto simp: sorted_simps)
qed

lemma available_in_Cons_iff:
  "available_in locked qid d = [] \<longleftrightarrow>
     \<not> (\<exists>i \<in> set (invocations d). i_state i = InvocationStateAvailable \<and> i_queue_id i = qid
          \<and> i_id i \<notin> locked)"
proof -
  have "available_in locked qid d = [] \<longleftrightarrow> (\<forall>i. i \<notin> set (available_in locked qid d))"
    by (cases "available_in locked qid d") auto
  then show ?thesis unfolding set_available_in by blast
qed

lemma one_finalizable:
  assumes "invocations_inv d" and "i \<in> set (invocations d)" and "finalizable iid who i"
  shows "filter (finalizable iid who) (invocations d) = [i]"
proof -
  have same: "j = i" if "j \<in> set (invocations d)" "finalizable iid who j" for j
  proof (rule distinct_key_unique)
    show "distinct (map i_id (invocations d))" using assms(1) by (rule invocations_invD)
    show "i_id j = i_id i" using that(2) assms(3) by (simp add: finalizable_def)
  qed (use that assms in auto)
  have "filter (finalizable iid who) (invocations d) = filter (\<lambda>x. x = i) (invocations d)"
    using same assms(3) by (intro filter_cong) auto
  also have "\<dots> = [i]"
    using assms by (auto simp: invocations_inv_def intro: filter_unique)
  finally show ?thesis .
qed

lemma claim_first:
  assumes "invocations_inv d"
  shows "case available_in locked qid d of
      [] \<Rightarrow> InvocationGetAvailable locked now who qid 1 d = (Inr [], d)
    | i # rest \<Rightarrow>
        InvocationGetAvailable locked now who qid 1 d =
          (Inr [claim_row now who i],
           d\<lparr>invocations := update_where (\<lambda>j. j = i) (claim_row now who) (invocations d)\<rparr>) \<and>
        list_all (\<lambda>j. (i_priority i, i_id i) \<le> (i_priority j, i_id j)) (available_in locked qid d)"
proof (cases "available_in locked qid d")
  case Nil
  then show ?thesis
    by (simp add: InvocationGetAvailable_claims [OF assms] claimed_set_def update_where_none)
next
  case (Cons i rest)
  then have "i \<in> set (available_in locked qid d)" by simp
  then have "i \<in> set (invocations d)" by (simp add: set_available_in)
  then have "filter (\<lambda>x. x = i) (invocations d) = [i]"
    using assms by (auto simp: invocations_inv_def intro: filter_unique)
  moreover have "list_all (\<lambda>j. (i_priority i, i_id i) \<le> (i_priority j, i_id j))
      (available_in locked qid d)"
    using available_in_hd_least [OF Cons] by (simp add: list_all_iff)
  ultimately show ?thesis
    using Cons by (simp add: InvocationGetAvailable_claims [OF assms] claimed_set_def)
qed

lemma complete_effect:
  assumes "invocations_inv d"
  shows "case find (finalizable iid who) (invocations d) of
      None \<Rightarrow> InvocationSetCompleteIfRunning iid fin who res d = (Inl ErrNoRows, d)
    | Some i \<Rightarrow> InvocationSetCompleteIfRunning iid fin who res d =
        (Inr (iid, InvocationStateCompleted, Some fin),
         d\<lparr>invocations := update_where (\<lambda>j. j = i) (complete_row fin res) (invocations d)\<rparr>)"
proof (cases "find (finalizable iid who) (invocations d)")
  case None
  then have none: "\<And>r. r \<in> set (invocations d) \<Longrightarrow> \<not> finalizable iid who r"
    by (simp add: find_None_iff)
  then have "filter (finalizable iid who) (invocations d) = []" by (simp add: filter_empty_conv)
  with None none show ?thesis
    by (simp add: InvocationSetCompleteIfRunning_def update_where_none)
next
  case (Some i)
  then have i: "i \<in> set (invocations d)" "finalizable iid who i" by (auto dest: find_SomeD)
  then have only: "filter (finalizable iid who) (invocations d) = [i]"
    using assms by (blast intro: one_finalizable)
  then have "update_where (finalizable iid who) f (invocations d) =
      update_where (\<lambda>j. j = i) f (invocations d)" for f
    by (intro update_where_cong) (auto simp: filter_eq_Cons_iff dest: one_finalizable [OF assms])
  with Some i only show ?thesis
    by (simp add: InvocationSetCompleteIfRunning_def finalized_of_def complete_row_def
        finalizable_def)
qed

lemma failure_effect:
  assumes "invocations_inv d"
  shows "case find (finalizable iid who) (invocations d) of
      None \<Rightarrow> InvocationSetFailureIfRunning iid fin who errs d = (Inl ErrNoRows, d)
    | Some i \<Rightarrow> InvocationSetFailureIfRunning iid fin who errs d =
        (Inr (iid, InvocationStateDiscarded, Some fin),
         d\<lparr>invocations := update_where (\<lambda>j. j = i) (fail_row fin errs) (invocations d)\<rparr>)"
proof (cases "find (finalizable iid who) (invocations d)")
  case None
  then have none: "\<And>r. r \<in> set (invocations d) \<Longrightarrow> \<not> finalizable iid who r"
    by (simp add: find_None_iff)
  then have "filter (finalizable iid who) (invocations d) = []" by (simp add: filter_empty_conv)
  with None none show ?thesis
    by (simp add: InvocationSetFailureIfRunning_def update_where_none)
next
  case (Some i)
  then have i: "i \<in> set (invocations d)" "finalizable iid who i" by (auto dest: find_SomeD)
  then have only: "filter (finalizable iid who) (invocations d) = [i]"
    using assms by (blast intro: one_finalizable)
  then have "update_where (finalizable iid who) f (invocations d) =
      update_where (\<lambda>j. j = i) f (invocations d)" for f
    by (intro update_where_cong) (auto simp: filter_eq_Cons_iff dest: one_finalizable [OF assms])
  with Some i only show ?thesis
    by (simp add: InvocationSetFailureIfRunning_def finalized_of_def fail_row_def
        finalizable_def)
qed

lemma find_by_id:
  assumes "invocations_inv d" and "i \<in> set (invocations d)"
  shows "InvocationFindById (i_id i) d = (Inr i, d)"
proof -
  have "filter (\<lambda>j. i_id j = i_id i) (invocations d) = [i]"
    using assms by (auto simp: invocations_inv_def intro: filter_key_unique)
  then show ?thesis by (simp add: InvocationFindById_def)
qed

subsection \<open>The contract of a work queue\<close>

text \<open>
  What a client of a queue of jobs relies on: jobs only ever advance, a claim hands out jobs that
  nobody had claimed, and leaves them claimed. It follows that no job is handed out twice.
\<close>

locale work_queue =
  fixes good :: "'s \<Rightarrow> bool" and qstep :: "'s \<Rightarrow> 's \<Rightarrow> bool"
    and claim :: "'w \<Rightarrow> 's \<Rightarrow> 'k list \<times> 's" and progress :: "'s \<Rightarrow> 'k \<Rightarrow> nat"
  assumes good_step: "good s \<Longrightarrow> qstep s s' \<Longrightarrow> good s'"
    and progress_step: "good s \<Longrightarrow> qstep s s' \<Longrightarrow> progress s k \<le> progress s' k"
    and claim_step: "claim w s = (ks, s') \<Longrightarrow> qstep s s'"
    and claim_new: "good s \<Longrightarrow> claim w s = (ks, s') \<Longrightarrow> k \<in> set ks \<Longrightarrow> progress s k \<le> 1"
    and claim_taken: "good s \<Longrightarrow> claim w s = (ks, s') \<Longrightarrow> k \<in> set ks \<Longrightarrow> 2 \<le> progress s' k"
begin

lemma steps_mono:
  "qstep\<^sup>*\<^sup>* s s' \<Longrightarrow> good s \<Longrightarrow> good s' \<and> progress s k \<le> progress s' k"
  by (induction rule: rtranclp_induct) (auto intro: good_step le_trans progress_step)

lemma exclusive:
  assumes "good s" and "claim w s = (ks, s1)" and "qstep\<^sup>*\<^sup>* s1 s2" and "claim v s2 = (ls, s3)"
  shows "set ks \<inter> set ls = {}"
proof -
  have good1: "good s1" using assms claim_step good_step by blast
  have later: "progress s1 k \<le> progress s2 k" "good s2" for k
    using steps_mono [OF assms(3) good1] by auto
  have "k \<notin> set ls" if "k \<in> set ks" for k
  proof
    assume "k \<in> set ls"
    then have "progress s2 k \<le> 1" using assms(4) later(2) claim_new by blast
    moreover have "2 \<le> progress s1 k" using assms(1,2) that by (rule claim_taken)
    ultimately show False using later(1) [of k] by simp
  qed
  then show ?thesis by auto
qed

end

definition invocation_progress :: "db \<Rightarrow> int \<Rightarrow> nat" where
  "invocation_progress d k =
     (case find (\<lambda>i. i_id i = k) (invocations d) of
        None \<Rightarrow> 0 | Some i \<Rightarrow> Suc (state_rank (i_state i)))"

fun claim_ids :: "int set \<times> int \<times> int \<times> int \<times> int \<Rightarrow> db \<Rightarrow> int list \<times> db" where
  "claim_ids (locked, now, who, qid, mx) d =
     (case InvocationGetAvailable locked now who qid mx d of
        (Inl _, d') \<Rightarrow> ([], d') | (Inr rows, d') \<Rightarrow> (map i_id rows, d'))"

lemma invocation_progress_in:
  "invocations_inv d \<Longrightarrow> i \<in> set (invocations d) \<Longrightarrow>
   invocation_progress d (i_id i) = Suc (state_rank (i_state i))"
  by (simp add: invocation_progress_def invocations_inv_def find_key_Some_iff [THEN iffD2])

lemma invocation_progress_step:
  assumes "invocations_inv d" and "inv_step d d'"
  shows "invocation_progress d k \<le> invocation_progress d' k"
proof (cases "find (\<lambda>i. i_id i = k) (invocations d)")
  case None
  then show ?thesis by (simp add: invocation_progress_def)
next
  case (Some i)
  then have i: "i \<in> set (invocations d)" "i_id i = k" by (auto dest: find_SomeD)
  then obtain j where j: "j \<in> set (invocations d')" "row_later i j"
    using assms inv_step_row_later by blast
  then have "i_id j = k" "state_rank (i_state i) \<le> state_rank (i_state j)"
    using i by (auto simp: row_later_def)
  then show ?thesis
    using i j assms invocation_progress_in inv_step_inv by (metis Suc_le_mono)
qed

lemma claim_ids_cases:
  assumes "invocations_inv d" and "claim_ids (locked, now, who, qid, mx) d = (ks, d')"
    and "k \<in> set ks"
  obtains i where "i \<in> set (available_in locked qid d)" "i_id i = k"
    and "claim_row now who i \<in> set (invocations d')"
proof (cases "mx < 0")
  case True
  with assms show ?thesis by (simp add: InvocationGetAvailable_def)
next
  case False
  then have "0 \<le> mx" by simp
  from assms(2,3) obtain i where "i \<in> claimed_set locked qid mx d" "i_id i = k"
      "i \<in> set (invocations d)"
      "invocations d' = update_where (\<lambda>i. i \<in> claimed_set locked qid mx d) (claim_row now who)
        (invocations d)"
    by (auto simp: InvocationGetAvailable_claims [OF assms(1) \<open>0 \<le> mx\<close>])
  then show ?thesis
    using claimed_set_subset(1) [of locked qid mx d]
    by (intro that [of i]) (auto simp: set_update_where)
qed

lemma claim_ids_step: "claim_ids w d = (ks, d') \<Longrightarrow> inv_step d d'"
  by (cases w) (auto split: prod.splits sum.splits intro: inv_step.claim)

interpretation wq: work_queue invocations_inv inv_step claim_ids invocation_progress
proof
  show "invocations_inv s \<Longrightarrow> inv_step s s' \<Longrightarrow> invocations_inv s'" for s s'
    by (rule inv_step_inv)
  show "invocations_inv s \<Longrightarrow> inv_step s s' \<Longrightarrow> invocation_progress s k \<le> invocation_progress s' k"
    for s s' k
    by (rule invocation_progress_step)
  show "claim_ids w s = (ks, s') \<Longrightarrow> inv_step s s'" for w s ks s'
    by (rule claim_ids_step)
next
  fix s w ks s' and k :: int
  assume good: "invocations_inv s" and c: "claim_ids w s = (ks, s')" and k: "k \<in> set ks"
  obtain locked now who qid mx where w: "w = (locked, now, who, qid, mx)" by (cases w)
  obtain i where i: "i \<in> set (available_in locked qid s)" "i_id i = k"
      "claim_row now who i \<in> set (invocations s')"
    using good c k unfolding w by (rule claim_ids_cases)
  show "invocation_progress s k \<le> 1"
    using i good invocation_progress_in [of s i] by (auto simp: set_available_in state_rank_def)
  have "invocations_inv s'" using good claim_ids_step [OF c] by (rule inv_step_inv [rotated])
  then show "2 \<le> invocation_progress s' k"
    using i invocation_progress_in [of s' "claim_row now who i"]
    by (simp add: claim_row_def state_rank_def)
qed

subsection \<open>Properties\<close>

text \<open>A database with two waiting invocations, for the concrete instances.\<close>

definition sample_insert :: invocation_insert_params where
  "sample_insert = \<lparr>p_state = InvocationStateAvailable, p_created_at = 0, p_finalized_at = None,
     p_priority = 1, p_payload = JObj [], p_metadata = None, p_tags = None, p_actor_name = ''bot''\<rparr>"

definition two_waiting :: db where
  "two_waiting = snd (InvocationInsert sample_insert (snd (InvocationInsert sample_insert sample_db)))"

lemma two_waiting_rows:
  "two_waiting = sample_db\<lparr>invocations := [new_invocation sample_insert 1 3, new_invocation sample_insert 2 3],
     next_invocation := 3\<rparr>"
  by (simp add: two_waiting_def InvocationInsert_def sample_db_def empty_db_def sample_actor_def
      sample_insert_def new_invocation_def check_invocation_def final_state_def Let_def)

lemma two_waiting_inv: "invocations_inv two_waiting"
  by (simp add: two_waiting_rows invocations_inv_def sample_db_def empty_db_def sample_insert_def
      new_invocation_def invocation_ok_def check_invocation_def final_state_def)

lemma two_waiting_claim:
  "InvocationGetAvailable {} 50 7 3 1 two_waiting =
     (Inr [claim_row 50 7 (new_invocation sample_insert 1 3)],
      two_waiting\<lparr>invocations :=
        [claim_row 50 7 (new_invocation sample_insert 1 3), new_invocation sample_insert 2 3]\<rparr>)"
  by (simp add: InvocationGetAvailable_def available_in_def two_waiting_rows Let_def
      sample_insert_def new_invocation_def)

text \<open>C4. No invocation is ever handed out twice: two claims by any actors on any queues, with any
  statements of the program in between, return disjoint sets of invocation ids.\<close>

theorem claims_exclusive:
  assumes "invocations_inv d"
    and "InvocationGetAvailable l1 t1 who1 q1 m1 d = (Inr xs, d1)"
    and "inv_step\<^sup>*\<^sup>* d1 d2"
    and "InvocationGetAvailable l2 t2 who2 q2 m2 d2 = (Inr ys, d3)"
  shows "set (map i_id xs) \<inter> set (map i_id ys) = {}"
proof (rule wq.exclusive [OF assms(1) _ assms(3)])
  show "claim_ids (l1, t1, who1, q1, m1) d = (map i_id xs, d1)" using assms(2) by simp
  show "claim_ids (l2, t2, who2, q2, m2) d2 = (map i_id ys, d3)" using assms(4) by simp
qed

theorem claims_exclusive_witness:
  "\<exists>xs d1 ys d3. InvocationGetAvailable {} 50 7 3 1 two_waiting = (Inr xs, d1) \<and> map i_id xs = [1] \<and>
     InvocationGetAvailable {} 51 8 3 5 d1 = (Inr ys, d3) \<and> map i_id ys = [2] \<and>
     set (map i_id xs) \<inter> set (map i_id ys) = {}"
proof -
  let ?one = "claim_row 50 7 (new_invocation sample_insert 1 3)"
  let ?two = "new_invocation sample_insert 2 3"
  let ?d1 = "two_waiting\<lparr>invocations := [?one, ?two]\<rparr>"
  have second: "InvocationGetAvailable {} 51 8 3 5 ?d1 =
      (Inr [claim_row 51 8 ?two], ?d1\<lparr>invocations := [?one, claim_row 51 8 ?two]\<rparr>)"
    by (simp add: InvocationGetAvailable_def available_in_def two_waiting_rows Let_def
        sample_insert_def new_invocation_def claim_row_def)
  have "set (map i_id [?one]) \<inter> set (map i_id [claim_row 51 8 ?two]) = {}"
    by (rule claims_exclusive [OF two_waiting_inv two_waiting_claim rtranclp.rtrancl_refl second])
  with second show ?thesis by (auto simp: two_waiting_claim)
qed

text \<open>C17. From an empty table, whatever statements run, ids are unique and every invocation keeps to
  its life cycle: only a running or finalized one was attempted, exactly once; finalized states
  and only they have a finalization time; results belong to completed ones, errors to discarded.\<close>

theorem invocation_life_cycle:
  assumes "invocations d0 = []" and "inv_step\<^sup>*\<^sup>* d0 d"
  shows "distinct (map i_id (invocations d)) \<and> list_all invocation_ok (invocations d)"
proof -
  have "invocations_inv d0" using assms(1) by (simp add: invocations_inv_def)
  with assms(2) have "invocations_inv d" by (rule inv_steps_inv)
  then show ?thesis by (auto simp: invocations_inv_def list_all_iff)
qed

theorem invocation_life_cycle_witness:
  "distinct (map i_id (invocations two_waiting)) \<and> list_all invocation_ok (invocations two_waiting)"
proof (rule invocation_life_cycle)
  show "invocations sample_db = []" by (simp add: sample_db_def empty_db_def)
  have insert: "inv_step d (snd (InvocationInsert sample_insert d))" for d
    by (rule inv_step_snd(1)) (simp add: sample_insert_def)
  show "inv_step\<^sup>*\<^sup>* sample_db two_waiting"
    unfolding two_waiting_def
    by (rule rtranclp.rtrancl_into_rtrancl, rule r_into_rtranclp) (rule insert)+
qed

text \<open>C19. A finalized invocation never changes again: its state, result, errors and times are the
  same whatever statements run later.\<close>

theorem finalized_is_forever:
  assumes "invocations_inv d" and "inv_step\<^sup>*\<^sup>* d d'"
    and "i \<in> set (invocations d)" and "final_state (i_state i)"
  shows "i \<in> set (invocations d')"
proof -
  obtain j where j: "j \<in> set (invocations d')" "row_later i j"
    using inv_steps_row_later [OF assms(2,1,3)] by blast
  have "state_rank (i_state i) = 2" "state_rank (i_state j) \<le> 2"
    using assms(4) by (auto simp: state_rank_def final_state_def)
  with j show ?thesis by (auto simp: row_later_def)
qed

theorem finalized_is_forever_witness:
  "complete_row 60 JNull (claim_row 50 7 (new_invocation sample_insert 1 3)) \<in>
     set (invocations (snd (InvocationGetAvailable {} 70 8 3 1
       (snd (InvocationSetCompleteIfRunning 1 60 7 JNull
         (snd (InvocationGetAvailable {} 50 7 3 1 two_waiting)))))))"
proof -
  define d1 where "d1 = snd (InvocationGetAvailable {} 50 7 3 1 two_waiting)"
  define d2 where "d2 = snd (InvocationSetCompleteIfRunning 1 60 7 JNull d1)"
  have "invocations_inv d1"
    unfolding d1_def by (rule InvocationGetAvailable_inv [OF two_waiting_inv prod.collapse [symmetric]])
  then have inv2: "invocations_inv d2"
    unfolding d2_def by (rule InvocationSetCompleteIfRunning_inv [OF _ prod.collapse [symmetric]])
  have here: "complete_row 60 JNull (claim_row 50 7 (new_invocation sample_insert 1 3)) \<in>
      set (invocations d2)"
    by (simp add: d2_def d1_def two_waiting_claim InvocationSetCompleteIfRunning_def Let_def
        finalizable_def claim_row_def new_invocation_def sample_insert_def)
  have steps: "inv_step\<^sup>*\<^sup>* d2 (snd (InvocationGetAvailable {} 70 8 3 1 d2))"
    using inv_step_snd(2) by (rule r_into_rtranclp)
  have "final_state (i_state (complete_row 60 JNull i))" for i
    by (simp add: final_state_def complete_row_def)
  then have "complete_row 60 JNull (claim_row 50 7 (new_invocation sample_insert 1 3)) \<in>
      set (invocations (snd (InvocationGetAvailable {} 70 8 3 1 d2)))"
    by (rule finalized_is_forever [OF inv2 steps here])
  then show ?thesis by (simp add: d2_def d1_def)
qed

text \<open>Claiming one invocation takes the first available, unlocked one of the queue by priority
  and then id, marks exactly that row as running for the caller, and leaves every other row as it
  is; when none is available it returns nothing and changes nothing.\<close>

lemma claim_takes_the_first:
  assumes "invocations_inv d"
  shows "case available_in locked qid d of
      [] \<Rightarrow> InvocationGetAvailable locked now who qid 1 d = (Inr [], d)
    | i # rest \<Rightarrow>
        InvocationGetAvailable locked now who qid 1 d =
          (Inr [claim_row now who i],
           d\<lparr>invocations := update_where (\<lambda>j. j = i) (claim_row now who) (invocations d)\<rparr>) \<and>
        list_all (\<lambda>j. (i_priority i, i_id i) \<le> (i_priority j, i_id j)) (available_in locked qid d)"
  using assms by (rule claim_first)



end
