(* ===== verification/Dispatcher.thy ===== *)
theory Dispatcher
  imports Maos_Prelude
begin

text \<open>
  \<^verbatim>\<open>invocation/dispatcher.go\<close>: buffered channels by id. A channel is a handle into a heap of
  channels, so that a goroutine that loaded a channel keeps it when \<^verbatim>\<open>Close\<close> deletes its id. The
  operations are split at the points where other goroutines can run: \<^verbatim>\<open>getCh\<close> and the select
  of \<^verbatim>\<open>Dispatch\<close>, the steps of \<^verbatim>\<open>Close\<close>. A Go select picks any of its ready cases; the choice is
  an argument.
\<close>

record 'a chan =
  buf :: "'a list"
  chan_closed :: bool

record 'a dispatcher =
  channels :: "(string \<times> nat) list"
  heap :: "'a chan list"
  closed :: bool

definition NewDispatcher :: "'a dispatcher" where
  "NewDispatcher = \<lparr>channels = [], heap = [], closed = False\<rparr>"

definition IsClosed :: "'a dispatcher \<Rightarrow> bool" where
  "IsClosed d = closed d"

definition dispatcher_size :: "'a dispatcher \<Rightarrow> nat" where
  "dispatcher_size d = length (channels d)"

definition closed_err :: string where
  "closed_err = ''dispatcher is closed''"

definition chan_cap :: nat where
  "chan_cap = 32"

definition new_chan :: "'a chan" where
  "new_chan = \<lparr>buf = [], chan_closed = False\<rparr>"

definition getCh :: "string \<Rightarrow> 'a dispatcher \<Rightarrow> string + nat option" where
  "getCh ident d = (if closed d then Inl closed_err else Inr (map_of (channels d) ident))"

definition getOrCreateCh :: "string \<Rightarrow> 'a dispatcher \<Rightarrow> (string + nat) \<times> 'a dispatcher" where
  "getOrCreateCh ident d =
     (if closed d then (Inl closed_err, d)
      else case map_of (channels d) ident of
        Some h \<Rightarrow> (Inr h, d)
      | None \<Rightarrow>
          (Inr (length (heap d)),
           d\<lparr>channels := (ident, length (heap d)) # channels d, heap := heap d @ [new_chan]\<rparr>))"

definition Listen :: "string \<Rightarrow> 'a dispatcher \<Rightarrow> string option \<times> 'a dispatcher" where
  "Listen ident d =
     (case getOrCreateCh ident d of (Inl e, d') \<Rightarrow> (Some e, d') | (Inr _, d') \<Rightarrow> (None, d'))"

subsection \<open>Waiting\<close>

datatype wait_case = GotPayload | TimedOut | DispatcherClosed

text \<open>The cases of the select of \<^verbatim>\<open>WaitFor\<close> that are ready; with none ready it blocks.\<close>

definition wait_ready :: "nat \<Rightarrow> bool \<Rightarrow> 'a dispatcher \<Rightarrow> wait_case list" where
  "wait_ready h timed_out d =
     (if buf (heap d ! h) \<noteq> [] \<or> chan_closed (heap d ! h) then [GotPayload] else []) @
     (if timed_out then [TimedOut] else []) @
     (if closed d then [DispatcherClosed] else [])"

text \<open>Receiving on a closed channel drains its buffer first and then reports that it is closed.\<close>

fun wait_take :: "wait_case \<Rightarrow> nat \<Rightarrow> 'a dispatcher \<Rightarrow> (string + 'a option) \<times> 'a dispatcher" where
  "wait_take GotPayload h d =
     (case buf (heap d ! h) of
        [] \<Rightarrow> (Inl closed_err, d)
      | x # xs \<Rightarrow> (Inr (Some x), d\<lparr>heap := (heap d)[h := (heap d ! h)\<lparr>buf := xs\<rparr>]\<rparr>))"
| "wait_take TimedOut h d = (Inr None, d)"
| "wait_take DispatcherClosed h d = (Inl closed_err, d)"

text \<open>One look of the waiting goroutine at its select: \<open>None\<close> while it blocks.\<close>

definition wait_select ::
    "nat \<Rightarrow> nat \<Rightarrow> bool \<Rightarrow> 'a dispatcher \<Rightarrow> (string + 'a option) option \<times> 'a dispatcher" where
  "wait_select pick h timed_out d =
     (let ready = wait_ready h timed_out d
      in if ready = [] then (None, d)
         else case wait_take (ready ! (pick mod length ready)) h d of (r, d') \<Rightarrow> (Some r, d'))"

text \<open>
  The blocked goroutine looks again whenever something happened: the list gives, look by look,
  what other goroutines did first, whether the timer has fired, and the choice of the select.
\<close>

fun wait_looks ::
    "nat \<Rightarrow> (('a dispatcher \<Rightarrow> 'a dispatcher) \<times> bool \<times> nat) list \<Rightarrow> 'a dispatcher \<Rightarrow>
     (string + 'a option) option \<times> 'a dispatcher" where
  "wait_looks h [] d = (None, d)"
| "wait_looks h ((others, timed_out, pick) # looks) d =
     (case wait_select pick h timed_out (others d) of
        (None, d') \<Rightarrow> wait_looks h looks d'
      | (Some r, d') \<Rightarrow> (Some r, d'))"

definition WaitFor_blocking ::
    "string \<Rightarrow> (('a dispatcher \<Rightarrow> 'a dispatcher) \<times> bool \<times> nat) list \<Rightarrow> 'a dispatcher \<Rightarrow>
     (string + 'a option) option \<times> 'a dispatcher" where
  "WaitFor_blocking ident looks d =
     (case getOrCreateCh ident d of
        (Inl e, d') \<Rightarrow> (Some (Inl e), d')
      | (Inr h, d') \<Rightarrow> wait_looks h looks d')"

text \<open>\<^verbatim>\<open>WaitFor\<close> when its first look already finds a ready case.\<close>

definition WaitFor ::
    "nat \<Rightarrow> string \<Rightarrow> bool \<Rightarrow> 'a dispatcher \<Rightarrow> (string + 'a option) option \<times> 'a dispatcher" where
  "WaitFor pick ident timed_out d =
     (case getOrCreateCh ident d of
        (Inl e, d') \<Rightarrow> (Some (Inl e), d')
      | (Inr h, d') \<Rightarrow> wait_select pick h timed_out d')"

subsection \<open>Dispatching\<close>

datatype send_case = SendPayload | SendClosed

definition send_ready :: "nat \<Rightarrow> 'a dispatcher \<Rightarrow> send_case list" where
  "send_ready h d =
     (if length (buf (heap d ! h)) < chan_cap \<or> chan_closed (heap d ! h) then [SendPayload] else []) @
     (if closed d then [SendClosed] else [])"

text \<open>The non-blocking select of \<^verbatim>\<open>Dispatch\<close> on a channel it has loaded.\<close>

definition dispatch_send ::
    "nat \<Rightarrow> nat \<Rightarrow> 'a \<Rightarrow> 'a dispatcher \<Rightarrow> string option outcome \<times> 'a dispatcher" where
  "dispatch_send pick h payload d =
     (let ready = send_ready h d
      in if ready = [] then (Return None, d)
         else case ready ! (pick mod length ready) of
           SendClosed \<Rightarrow> (Return (Some closed_err), d)
         | SendPayload \<Rightarrow>
             if chan_closed (heap d ! h) then (Panic ''send on closed channel'', d)
             else (Return None,
                   d\<lparr>heap := (heap d)[h := (heap d ! h)\<lparr>buf := buf (heap d ! h) @ [payload]\<rparr>]\<rparr>))"

definition Dispatch ::
    "nat \<Rightarrow> string \<Rightarrow> 'a \<Rightarrow> 'a dispatcher \<Rightarrow> string option outcome \<times> 'a dispatcher" where
  "Dispatch pick ident payload d =
     (case getCh ident d of
        Inl e \<Rightarrow> (Return (Some e), d)
      | Inr None \<Rightarrow> (Return None, d)
      | Inr (Some h) \<Rightarrow> dispatch_send pick h payload d)"

subsection \<open>Closing\<close>

definition close_chan :: "nat \<Rightarrow> 'a dispatcher \<Rightarrow> unit outcome \<times> 'a dispatcher" where
  "close_chan h d =
     (if chan_closed (heap d ! h) then (Panic ''close of closed channel'', d)
      else (Return (), d\<lparr>heap := (heap d)[h := (heap d ! h)\<lparr>chan_closed := True\<rparr>]\<rparr>))"

fun close_all :: "(string \<times> nat) list \<Rightarrow> 'a dispatcher \<Rightarrow> unit outcome \<times> 'a dispatcher" where
  "close_all [] d = (Return (), d)"
| "close_all ((ident, h) # rest) d =
     (case close_chan h d of
        (Panic e, d') \<Rightarrow> (Panic e, d')
      | (Return _, d') \<Rightarrow>
          close_all rest (d'\<lparr>channels := filter (\<lambda>kh. fst kh \<noteq> ident) (channels d')\<rparr>))"

definition Close :: "'a dispatcher \<Rightarrow> unit outcome \<times> 'a dispatcher" where
  "Close d = (if closed d then (Return (), d) else close_all (channels d) (d\<lparr>closed := True\<rparr>))"

lemmas dispatcher_ops =
  getCh_def getOrCreateCh_def Listen_def WaitFor_def wait_select_def wait_ready_def send_ready_def
  dispatch_send_def Dispatch_def close_chan_def Close_def

fun_cases close_allE: "close_all chs d = r"

subsection \<open>The invariant\<close>

definition disp_inv :: "'a dispatcher \<Rightarrow> bool" where
  "disp_inv d \<longleftrightarrow>
     distinct (map fst (channels d)) \<and> distinct (map snd (channels d)) \<and>
     (\<forall>h \<in> snd ` set (channels d). h < length (heap d)) \<and>
     (\<forall>c \<in> set (heap d). length (buf c) \<le> chan_cap \<and> (chan_closed c \<longrightarrow> closed d))"

lemma disp_invD:
  assumes "disp_inv d"
  shows "distinct (map fst (channels d))" and "distinct (map snd (channels d))"
    and "map_of (channels d) ident = Some h \<Longrightarrow> h < length (heap d)"
    and "h < length (heap d) \<Longrightarrow> length (buf (heap d ! h)) \<le> chan_cap"
    and "h < length (heap d) \<Longrightarrow> \<not> closed d \<Longrightarrow> \<not> chan_closed (heap d ! h)"
  using assms by (auto simp: disp_inv_def dest: map_of_SomeD)

lemma disp_inv_heap_update:
  assumes "disp_inv d" and "length (buf c) \<le> chan_cap" and "chan_closed c \<longrightarrow> closed d"
  shows "disp_inv (d\<lparr>heap := (heap d)[h := c]\<rparr>)"
  using assms by (auto simp: disp_inv_def dest: subsetD [OF set_update_subset_insert])

lemma NewDispatcher_inv: "disp_inv NewDispatcher"
  by (simp add: disp_inv_def NewDispatcher_def)

lemma getOrCreateCh_inv:
  assumes "disp_inv d" and "getOrCreateCh ident d = (r, d')"
  shows "disp_inv d'"
proof -
  have "(ident, length (heap d)) \<notin> set (channels d)" "length (heap d) \<notin> snd ` set (channels d)"
    using assms(1) by (auto simp: disp_inv_def)
  moreover have "\<And>a b. (a, b) \<in> set (channels d) \<Longrightarrow> b < Suc (length (heap d))"
    using assms(1) by (fastforce simp: disp_inv_def)
  ultimately show ?thesis
    using assms
    by (auto simp: getOrCreateCh_def disp_inv_def new_chan_def chan_cap_def map_of_eq_None_iff
        split: if_splits option.splits)
qed

lemma getOrCreateCh_handle:
  assumes "disp_inv d" and "getOrCreateCh ident d = (Inr h, d')"
  shows "h < length (heap d')" and "map_of (channels d') ident = Some h" and "closed d' = closed d"
  using assms disp_invD(3) [OF assms(1)]
  by (auto simp: getOrCreateCh_def split: if_splits option.splits)

lemma Listen_inv: "disp_inv d \<Longrightarrow> Listen ident d = (r, d') \<Longrightarrow> disp_inv d'"
  by (auto simp: Listen_def intro: getOrCreateCh_inv split: prod.splits sum.splits)

lemma wait_take_inv:
  assumes "disp_inv d" and "h < length (heap d)" and "wait_take c h d = (r, d')"
  shows "disp_inv d'"
proof -
  have "length xs \<le> chan_cap" if "buf (heap d ! h) = x # xs" for x xs
    using disp_invD(4) [OF assms(1,2)] that by simp
  moreover have "chan_closed (heap d ! h) \<longrightarrow> closed d" using disp_invD(5) [OF assms(1,2)] by blast
  ultimately show ?thesis
    using assms by (cases c) (auto split: list.splits intro!: disp_inv_heap_update)
qed

lemma wait_select_inv:
  "disp_inv d \<Longrightarrow> h < length (heap d) \<Longrightarrow> wait_select pick h timed_out d = (r, d') \<Longrightarrow> disp_inv d'"
  by (auto simp: wait_select_def Let_def intro: wait_take_inv split: if_splits prod.splits)

lemma dispatch_send_inv:
  assumes "disp_inv d" and "h < length (heap d)" and "dispatch_send pick h x d = (r, d')"
  shows "disp_inv d'"
proof -
  let ?c = "send_ready h d ! (pick mod length (send_ready h d))"
  have "disp_inv (d\<lparr>heap := (heap d)[h := (heap d ! h)\<lparr>buf := buf (heap d ! h) @ [x]\<rparr>]\<rparr>)"
    if "\<not> chan_closed (heap d ! h)" "length (buf (heap d ! h)) < chan_cap"
    using assms(1) that by (intro disp_inv_heap_update) auto
  moreover have "SendPayload \<in> set (send_ready h d) \<Longrightarrow> \<not> chan_closed (heap d ! h) \<Longrightarrow>
      length (buf (heap d ! h)) < chan_cap"
    by (auto simp: send_ready_def split: if_splits)
  moreover have "?c \<in> set (send_ready h d)" if "send_ready h d \<noteq> []"
    using that by (intro nth_mem) simp
  ultimately show ?thesis
    using assms by (cases ?c) (auto simp: dispatch_send_def Let_def split: if_splits)
qed

text \<open>Closing all channels of the map: every one is closed once, and the map is emptied.\<close>

lemma close_all_returns:
  assumes "distinct (map snd chs)" and "\<forall>h \<in> snd ` set chs. h < length (heap d)"
    and "\<forall>h \<in> snd ` set chs. \<not> chan_closed (heap d ! h)"
  shows "\<exists>d'. close_all chs d = (Return (), d') \<and> closed d' = closed d \<and>
    channels d' = filter (\<lambda>kh. fst kh \<notin> fst ` set chs) (channels d) \<and>
    length (heap d') = length (heap d) \<and>
    (\<forall>h < length (heap d). buf (heap d' ! h) = buf (heap d ! h) \<and>
       chan_closed (heap d' ! h) = (chan_closed (heap d ! h) \<or> h \<in> snd ` set chs))"
  using assms
proof (induction chs arbitrary: d)
  case Nil
  then show ?case by simp
next
  case (Cons kh rest)
  obtain k h where kh: "kh = (k, h)" by (cases kh)
  let ?d1 = "d\<lparr>heap := (heap d)[h := (heap d ! h)\<lparr>chan_closed := True\<rparr>],
    channels := filter (\<lambda>kh. fst kh \<noteq> k) (channels d)\<rparr>"
  have first: "close_all (kh # rest) d = close_all rest ?d1"
    using Cons.prems kh by (simp add: close_chan_def)
  have "\<exists>d'. close_all rest ?d1 = (Return (), d') \<and> closed d' = closed ?d1 \<and>
      channels d' = filter (\<lambda>kh. fst kh \<notin> fst ` set rest) (channels ?d1) \<and>
      length (heap d') = length (heap ?d1) \<and>
      (\<forall>g < length (heap ?d1). buf (heap d' ! g) = buf (heap ?d1 ! g) \<and>
         chan_closed (heap d' ! g) = (chan_closed (heap ?d1 ! g) \<or> g \<in> snd ` set rest))"
    using Cons.prems kh by (intro Cons.IH) (auto simp: nth_list_update)
  then show ?case
    unfolding first using kh Cons.prems(2)
    by (auto simp: nth_list_update filter_filter conj_commute intro: filter_cong)
qed

lemma Close_returns:
  assumes "disp_inv d" and "\<not> closed d"
  shows "\<exists>d'. Close d = (Return (), d') \<and> closed d' \<and> channels d' = [] \<and>
    length (heap d') = length (heap d) \<and>
    (\<forall>h < length (heap d). buf (heap d' ! h) = buf (heap d ! h) \<and>
       chan_closed (heap d' ! h) = (h \<in> snd ` set (channels d)))"
proof -
  have "\<exists>d'. close_all (channels d) (d\<lparr>closed := True\<rparr>) = (Return (), d') \<and>
      closed d' = closed (d\<lparr>closed := True\<rparr>) \<and>
      channels d' = filter (\<lambda>kh. fst kh \<notin> fst ` set (channels d)) (channels (d\<lparr>closed := True\<rparr>)) \<and>
      length (heap d') = length (heap (d\<lparr>closed := True\<rparr>)) \<and>
      (\<forall>h < length (heap (d\<lparr>closed := True\<rparr>)).
         buf (heap d' ! h) = buf (heap (d\<lparr>closed := True\<rparr>) ! h) \<and>
         chan_closed (heap d' ! h) =
           (chan_closed (heap (d\<lparr>closed := True\<rparr>) ! h) \<or> h \<in> snd ` set (channels d)))"
    using assms disp_invD(5) [OF assms(1)]
    by (intro close_all_returns) (auto simp: disp_inv_def)
  then show ?thesis
    using assms disp_invD(5) [OF assms(1)]
    by (auto simp: Close_def filter_empty_conv)
qed

subsection \<open>No wake-up is lost\<close>

text \<open>
  The contract between the dispatcher and a goroutine that polls a queue: once it listens, a
  notification stays pending until somebody takes it, and then waiting does not block.
\<close>

locale wakeups =
  fixes good :: "'s \<Rightarrow> bool" and listening :: "'s \<Rightarrow> 'i \<Rightarrow> bool" and pending :: "'s \<Rightarrow> 'i \<Rightarrow> bool"
    and notify :: "'i \<Rightarrow> 's \<Rightarrow> 's" and away :: "'i \<Rightarrow> 's \<Rightarrow> 's \<Rightarrow> bool"
    and ready :: "'i \<Rightarrow> 's \<Rightarrow> bool"
  assumes notify_pending: "good s \<Longrightarrow> listening s i \<Longrightarrow>
      good (notify i s) \<and> listening (notify i s) i \<and> pending (notify i s) i"
    and away_keeps: "good s \<Longrightarrow> listening s i \<Longrightarrow> pending s i \<Longrightarrow> away i s s' \<Longrightarrow>
      good s' \<and> listening s' i \<and> pending s' i"
    and pending_ready: "good s \<Longrightarrow> listening s i \<Longrightarrow> pending s i \<Longrightarrow> ready i s"
begin

lemma no_lost_wakeup:
  assumes "good s" and "listening s i" and "(away i)\<^sup>*\<^sup>* (notify i s) s'"
  shows "ready i s'"
proof -
  from assms(3) have "good s' \<and> listening s' i \<and> pending s' i"
  proof (induction rule: rtranclp_induct)
    case base
    then show ?case using assms(1,2) by (rule notify_pending)
  next
    case (step t u)
    then show ?case using away_keeps by blast
  qed
  then show ?thesis using pending_ready by blast
qed

end

text \<open>A goroutine that waits until its timer has fired does not wait for ever.\<close>

lemma wait_looks_timer:
  "\<exists>(others, timed_out, pick) \<in> set looks. timed_out \<Longrightarrow> fst (wait_looks h looks d) \<noteq> None"
proof (induction h looks d rule: wait_looks.induct)
  case (2 h others timed_out pick looks d)
  have "fst (wait_select pick h True d) \<noteq> None" for d :: "'a dispatcher"
    by (simp add: wait_select_def wait_ready_def Let_def split: prod.split)
  with 2 show ?case by (cases timed_out) (auto split: prod.splits option.splits, metis fst_conv option.distinct(1))
qed simp

lemma WaitFor_blocking_timer:
  assumes "\<exists>(others, timed_out, pick) \<in> set looks. timed_out"
  shows "fst (WaitFor_blocking ident looks d) \<noteq> None"
proof -
  obtain x d' where "getOrCreateCh ident d = (x, d')" by fastforce
  then show ?thesis
    using wait_looks_timer [OF assms] by (cases x) (simp_all add: WaitFor_blocking_def)
qed

definition disp_open :: "'a dispatcher \<Rightarrow> bool" where
  "disp_open d \<longleftrightarrow> disp_inv d \<and> \<not> closed d"

definition disp_listening :: "'a dispatcher \<Rightarrow> string \<Rightarrow> bool" where
  "disp_listening d ident \<longleftrightarrow> map_of (channels d) ident \<noteq> None"

definition disp_pending :: "'a dispatcher \<Rightarrow> string \<Rightarrow> bool" where
  "disp_pending d ident \<longleftrightarrow>
     (case map_of (channels d) ident of None \<Rightarrow> False | Some h \<Rightarrow> buf (heap d ! h) \<noteq> [])"

text \<open>
  What other goroutines may do meanwhile: listen, dispatch to any id, and receive from any
  channel but the one of \<open>ident\<close>.
\<close>

inductive away_from :: "string \<Rightarrow> 'a dispatcher \<Rightarrow> 'a dispatcher \<Rightarrow> bool" where
  listens: "Listen other d = (r, d') \<Longrightarrow> away_from ident d d'"
| sends: "h < length (heap d) \<Longrightarrow> dispatch_send pick h x d = (s, d') \<Longrightarrow> away_from ident d d'"
| receives: "h < length (heap d) \<Longrightarrow> map_of (channels d) ident \<noteq> Some h \<Longrightarrow>
    wait_select pick h timed_out d = (w, d') \<Longrightarrow> away_from ident d d'"

inductive_cases away_fromE: "away_from ident d d'"

lemma ready_choice:
  "xs \<noteq> [] \<Longrightarrow> xs ! (pick mod length xs) \<in> set xs"
  by (intro nth_mem) simp

lemma send_result:
  assumes "\<not> closed d" and "\<not> chan_closed (heap d ! h)"
  shows "dispatch_send pick h x d =
    (Return None, if length (buf (heap d ! h)) < chan_cap
       then d\<lparr>heap := (heap d)[h := (heap d ! h)\<lparr>buf := buf (heap d ! h) @ [x]\<rparr>]\<rparr> else d)"
  using assms by (simp add: dispatch_send_def send_ready_def Let_def)

lemma Dispatch_result:
  assumes "disp_open d"
  shows "Dispatch pick ident x d =
    (Return None,
     case map_of (channels d) ident of
       None \<Rightarrow> d
     | Some h \<Rightarrow>
         if length (buf (heap d ! h)) < chan_cap
         then d\<lparr>heap := (heap d)[h := (heap d ! h)\<lparr>buf := buf (heap d ! h) @ [x]\<rparr>]\<rparr> else d)"
  using assms disp_invD(3,5) [of d]
  by (auto simp: Dispatch_def getCh_def disp_open_def send_result split: option.split)

lemma disp_pending_iff:
  "disp_pending d ident \<longleftrightarrow> (\<exists>h. map_of (channels d) ident = Some h \<and> buf (heap d ! h) \<noteq> [])"
  by (auto simp: disp_pending_def split: option.splits)

lemma Dispatch_open:
  assumes "disp_open d"
  shows "disp_open (snd (Dispatch pick ident x d))"
proof (cases "map_of (channels d) ident")
  case None
  with assms show ?thesis by (simp add: Dispatch_result)
next
  case (Some h)
  then have h: "h < length (heap d)" using assms disp_invD(3) by (auto simp: disp_open_def)
  have "disp_inv (snd (dispatch_send pick h x d))"
    using assms h by (auto simp: disp_open_def intro: dispatch_send_inv [OF _ _ prod.collapse [symmetric]])
  then show ?thesis
    using assms Some by (auto simp: Dispatch_def getCh_def disp_open_def dispatch_send_def Let_def
        split: send_case.splits)
qed

lemma Dispatch_pending:
  assumes "disp_open d" and "disp_listening d ident"
  shows "disp_listening (snd (Dispatch pick ident x d)) ident"
    and "disp_pending (snd (Dispatch pick ident x d)) ident"
proof -
  obtain h where h: "map_of (channels d) ident = Some h"
    using assms(2) by (auto simp: disp_listening_def)
  have len: "h < length (heap d)" using assms(1) h disp_invD(3) by (auto simp: disp_open_def)
  show "disp_listening (snd (Dispatch pick ident x d)) ident"
    using h by (simp add: Dispatch_result [OF assms(1)] disp_listening_def)
  show "disp_pending (snd (Dispatch pick ident x d)) ident"
    using h len by (auto simp: Dispatch_result [OF assms(1)] disp_pending_iff chan_cap_def)
qed

lemma away_from_keeps:
  assumes "away_from ident d d'" and "disp_open d" and "disp_listening d ident"
    and "disp_pending d ident"
  shows "disp_open d' \<and> disp_listening d' ident \<and> disp_pending d' ident"
  using assms
proof (induction rule: away_from.induct)
  case (listens other d r d' ident)
  then have "disp_inv d'" by (auto simp: disp_open_def intro: Listen_inv)
  with listens show ?case
    using disp_invD(3) [of d ident]
    by (auto simp: Listen_def getOrCreateCh_def disp_open_def disp_listening_def disp_pending_iff
        nth_append split: if_splits option.splits)
next
  case (sends h d pick x s d' ident)
  then have "disp_inv d'" by (auto simp: disp_open_def intro: dispatch_send_inv)
  with sends show ?case
    using disp_invD(5) [of d h]
    by (auto simp: send_result disp_open_def disp_listening_def disp_pending_iff nth_list_update
        split: if_splits)
next
  case (receives h d ident pick timed_out w d')
  then have "disp_inv d'" by (auto simp: disp_open_def intro: wait_select_inv)
  have "wait_take c h d = (r, e) \<Longrightarrow> channels e = channels d \<and> closed e = closed d \<and>
      (\<forall>g. g \<noteq> h \<longrightarrow> heap e ! g = heap d ! g)" for c r e
    by (cases c) (auto split: list.splits)
  then have "channels d' = channels d \<and> closed d' = closed d \<and> (\<forall>g. g \<noteq> h \<longrightarrow> heap d' ! g = heap d ! g)"
    using receives.hyps(3) by (auto simp: wait_select_def Let_def split: if_splits prod.splits)
  with receives \<open>disp_inv d'\<close> show ?case
    by (auto simp: disp_open_def disp_listening_def disp_pending_iff)
qed

definition wait_gets :: "nat \<Rightarrow> string \<Rightarrow> 'a dispatcher \<Rightarrow> bool" where
  "wait_gets pick ident d \<longleftrightarrow>
     (case fst (WaitFor pick ident False d) of Some (Inr (Some _)) \<Rightarrow> True | _ \<Rightarrow> False)"

lemma pending_wait_gets:
  "disp_open d \<Longrightarrow> disp_pending d ident \<Longrightarrow> wait_gets pick ident d"
  by (auto simp: wait_gets_def disp_pending_iff disp_open_def WaitFor_def getOrCreateCh_def
      wait_select_def wait_ready_def neq_Nil_conv)

interpretation dw: wakeups disp_open disp_listening disp_pending
  "\<lambda>ident d. snd (Dispatch pick ident x d)" away_from "wait_gets pick'"
  for pick pick' and x :: 'a
proof
  show "disp_open s \<Longrightarrow> disp_listening s i \<Longrightarrow>
      disp_open (snd (Dispatch pick i x s)) \<and> disp_listening (snd (Dispatch pick i x s)) i \<and>
      disp_pending (snd (Dispatch pick i x s)) i" for s i
    by (blast intro: Dispatch_open Dispatch_pending)
  show "disp_open s \<Longrightarrow> disp_listening s i \<Longrightarrow> disp_pending s i \<Longrightarrow> away_from i s s' \<Longrightarrow>
      disp_open s' \<and> disp_listening s' i \<and> disp_pending s' i" for s s' :: "'a dispatcher" and i
    by (rule away_from_keeps)
  show "disp_open s \<Longrightarrow> disp_listening s i \<Longrightarrow> disp_pending s i \<Longrightarrow> wait_gets pick' i s"
    for s :: "'a dispatcher" and i
    by (rule pending_wait_gets)
qed

subsection \<open>Channels are queues\<close>

text \<open>
  A run on the channel \<open>h\<close>: what it accepted, what was taken out of it. Other channels may be
  used in between, and the dispatcher may be closed.
\<close>

inductive chan_run :: "nat \<Rightarrow> 'a dispatcher \<Rightarrow> 'a list \<Rightarrow> 'a list \<Rightarrow> 'a dispatcher \<Rightarrow> bool"
  for h d0 where
  start: "chan_run h d0 [] [] d0"
| accept: "chan_run h d0 sent got d \<Longrightarrow> length (buf (heap d ! h)) < chan_cap \<Longrightarrow>
    dispatch_send pick h x d = (Return None, d') \<Longrightarrow> chan_run h d0 (sent @ [x]) got d'"
| drop: "chan_run h d0 sent got d \<Longrightarrow> \<not> length (buf (heap d ! h)) < chan_cap \<Longrightarrow>
    dispatch_send pick h x d = (Return None, d') \<Longrightarrow> chan_run h d0 sent got d'"
| refuse: "chan_run h d0 sent got d \<Longrightarrow>
    dispatch_send pick h x d = (Return (Some e), d') \<Longrightarrow> chan_run h d0 sent got d'"
| take: "chan_run h d0 sent got d \<Longrightarrow> wait_select pick h timed_out d = (Some (Inr (Some x)), d') \<Longrightarrow>
    chan_run h d0 sent (got @ [x]) d'"
| idle: "chan_run h d0 sent got d \<Longrightarrow> wait_select pick h timed_out d = (w, d') \<Longrightarrow>
    \<not> (\<exists>x. w = Some (Inr (Some x))) \<Longrightarrow> chan_run h d0 sent got d'"
| elsewhere: "chan_run h d0 sent got d \<Longrightarrow> buf (heap d' ! h) = buf (heap d ! h) \<Longrightarrow>
    length (heap d) \<le> length (heap d') \<Longrightarrow> chan_run h d0 sent got d'"

lemma send_accepts:
  assumes "dispatch_send pick h x d = (Return None, d')" and "h < length (heap d)"
  shows "length (heap d') = length (heap d) \<and> buf (heap d' ! h) =
    (if length (buf (heap d ! h)) < chan_cap then buf (heap d ! h) @ [x] else buf (heap d ! h))"
  using assms
  by (auto simp: dispatch_send_def Let_def send_ready_def split: if_splits send_case.splits)

lemma send_refuses: "dispatch_send pick h x d = (Return (Some e), d') \<Longrightarrow> d' = d"
  by (auto simp: dispatch_send_def Let_def split: if_splits send_case.splits)

lemma select_takes:
  assumes "wait_select pick h timed_out d = (Some (Inr (Some x)), d')" and "h < length (heap d)"
  shows "length (heap d') = length (heap d) \<and> buf (heap d ! h) = x # buf (heap d' ! h)"
proof -
  have "wait_take c h d = (Inr (Some x), d') \<Longrightarrow>
      length (heap d') = length (heap d) \<and> buf (heap d ! h) = x # buf (heap d' ! h)" for c
    using assms(2) by (cases c) (auto split: list.splits)
  with assms show ?thesis by (auto simp: wait_select_def Let_def split: if_splits prod.splits)
qed

lemma select_idle:
  assumes "wait_select pick h timed_out d = (w, d')" and "\<not> (\<exists>x. w = Some (Inr (Some x)))"
  shows "d' = d"
proof -
  have "wait_take c h d = (r, e) \<Longrightarrow> \<not> (\<exists>x. r = Inr (Some x)) \<Longrightarrow> e = d" for c r e
    by (cases c) (auto split: list.splits)
  with assms show ?thesis by (auto simp: wait_select_def Let_def split: if_splits prod.splits)
qed

lemma chan_run_fifo:
  assumes "chan_run h d0 sent got d" and "h < length (heap d0)"
  shows "h < length (heap d) \<and> buf (heap d0 ! h) @ sent = got @ buf (heap d ! h)"
  using assms
proof (induction rule: chan_run.induct)
  case start
  then show ?case by simp
next
  case (accept sent got d pick x d')
  then show ?case using send_accepts [of pick h x d d'] by (metis append_assoc)
next
  case (drop sent got d pick x d')
  then show ?case using send_accepts [of pick h x d d'] by simp
next
  case (refuse sent got d pick x e d')
  then show ?case using send_refuses by fastforce
next
  case (take sent got d pick timed_out x d')
  then show ?case using select_takes [of pick h timed_out d x d'] by simp
next
  case (idle sent got d pick timed_out w d')
  then show ?case using select_idle by fastforce
next
  case (elsewhere sent got d d')
  then show ?case by simp
qed

subsection \<open>Properties\<close>

text \<open>C32. No wake-up is lost: after a successful Listen on an id, a Dispatch to it leaves a payload
  that stays there whatever other goroutines do short of receiving from that channel or closing
  the dispatcher; a later WaitFor returns a payload at once, without its timeout having to fire.\<close>

theorem dispatch_wakes_listener:
  assumes "disp_inv d" and "\<not> closed d" and "Listen ident d = (e, d1)"
    and "(away_from ident)\<^sup>*\<^sup>* (snd (Dispatch pick ident x d1)) d2"
  shows "\<exists>y. fst (WaitFor pick' ident False d2) = Some (Inr (Some y))"
proof -
  have "disp_open d1" "disp_listening d1 ident"
    using assms(1-3) Listen_inv [OF assms(1,3)]
    by (auto simp: disp_open_def disp_listening_def Listen_def getOrCreateCh_def split: option.splits)
  then have "wait_gets pick' ident d2" using assms(4) by (rule dw.no_lost_wakeup)
  then show ?thesis by (auto simp: wait_gets_def split: option.splits sum.splits)
qed

theorem dispatch_wakes_listener_witness:
  "\<exists>y. fst (WaitFor 0 ''7'' False
      (snd (Listen ''8'' (snd (Dispatch 0 ''7'' (42::nat) (snd (Listen ''7'' NewDispatcher))))))) =
     Some (Inr (Some y))"
proof (rule dispatch_wakes_listener)
  show "disp_inv (NewDispatcher :: nat dispatcher)" by (rule NewDispatcher_inv)
  show "\<not> closed (NewDispatcher :: nat dispatcher)" by (simp add: NewDispatcher_def)
  show "Listen ''7'' NewDispatcher = (None, snd (Listen ''7'' (NewDispatcher :: nat dispatcher)))"
    by (simp add: Listen_def getOrCreateCh_def NewDispatcher_def)
  show "(away_from ''7'')\<^sup>*\<^sup>* (snd (Dispatch 0 ''7'' 42 (snd (Listen ''7'' NewDispatcher))))
      (snd (Listen ''8'' (snd (Dispatch 0 ''7'' (42::nat) (snd (Listen ''7'' NewDispatcher))))))"
    by (rule r_into_rtranclp, rule away_from.listens, rule prod.collapse [symmetric])
qed

text \<open>C33. A channel is a first-in first-out queue: over any run, what was received followed by what is
  still buffered is what was buffered followed by the payloads accepted, in order; only a full
  buffer of 32 drops a payload.\<close>

theorem dispatcher_fifo:
  assumes "chan_run h d0 sent got d" and "h < length (heap d0)"
  shows "got @ buf (heap d ! h) = buf (heap d0 ! h) @ sent"
  using chan_run_fifo [OF assms] by simp

theorem dispatcher_fifo_witness:
  "let d0 = snd (Listen ''7'' NewDispatcher); d1 = snd (dispatch_send 0 0 (5::nat) d0);
       d2 = snd (dispatch_send 0 0 6 d1); d3 = snd (wait_select 0 0 False d2)
   in [5] @ buf (heap d3 ! 0) = [5, 6] \<and> [5] @ buf (heap d3 ! 0) = buf (heap d0 ! 0) @ [5, 6]"
proof -
  define d0 where "d0 = snd (Listen ''7'' (NewDispatcher :: nat dispatcher))"
  define d1 where "d1 = snd (dispatch_send 0 0 (5::nat) d0)"
  define d2 where "d2 = snd (dispatch_send 0 0 6 d1)"
  define d3 where "d3 = snd (wait_select 0 0 False d2)"
  note run_defs = d0_def d1_def d2_def d3_def Listen_def getOrCreateCh_def NewDispatcher_def
    dispatch_send_def send_ready_def new_chan_def chan_cap_def wait_select_def wait_ready_def Let_def
  have "chan_run 0 d0 [] [] d0" by (rule chan_run.start)
  then have "chan_run 0 d0 ([] @ [5]) [] d1"
    by (rule chan_run.accept [where pick = 0]) (simp_all add: run_defs)
  then have "chan_run 0 d0 (([] @ [5]) @ [6]) [] d2"
    by (rule chan_run.accept [where pick = 0]) (simp_all add: run_defs)
  then have "chan_run 0 d0 (([] @ [5]) @ [6]) ([] @ [5]) d3"
    by (rule chan_run.take [where pick = 0 and timed_out = False]) (simp add: run_defs)
  then have "([] @ [5]) @ buf (heap d3 ! 0) = buf (heap d0 ! 0) @ (([] @ [5]) @ [6])"
    by (rule dispatcher_fifo) (simp add: run_defs)
  moreover have "buf (heap d0 ! 0) = []" by (simp add: run_defs)
  ultimately have "[5] @ buf (heap d3 ! 0) = [5, 6] \<and>
      [5] @ buf (heap d3 ! 0) = buf (heap d0 ! 0) @ [5, 6]"
    by simp
  then show ?thesis unfolding Let_def d3_def d2_def d1_def d0_def .
qed

text \<open>Closing an open dispatcher never panics, empties its map and keeps the buffered payloads; from
  then on Listen, WaitFor and Dispatch report that it is closed without panicking, and closing
  again does nothing.\<close>

lemma close_is_final:
  assumes "disp_inv d" and "\<not> closed d"
  shows "\<exists>d'. Close d = (Return (), d') \<and> channels d' = [] \<and> map buf (heap d') = map buf (heap d) \<and>
    Close d' = (Return (), d') \<and> Listen ident d' = (Some closed_err, d') \<and>
    WaitFor pick ident timed_out d' = (Some (Inl closed_err), d') \<and>
    Dispatch pick ident x d' = (Return (Some closed_err), d')"
proof -
  obtain d' where d': "Close d = (Return (), d')" "closed d'" "channels d' = []"
      "length (heap d') = length (heap d)"
      "\<forall>h < length (heap d). buf (heap d' ! h) = buf (heap d ! h)"
    using Close_returns [OF assms] by blast
  have "map buf (heap d') = map buf (heap d)"
    using d'(4,5) by (simp add: list_eq_iff_nth_eq)
  with d' show ?thesis
    by (auto simp: Close_def Listen_def WaitFor_def Dispatch_def getCh_def getOrCreateCh_def)
qed

text \<open>The one unprotected interleaving: a Dispatch that loaded its channel just before a complete
  Close then sends on a closed channel; for one of the two choices its select has, it panics.\<close>

lemma dispatch_racing_close_panics:
  assumes "disp_inv d" and "getCh ident d = Inr (Some h)"
  shows "\<exists>d' pick. Close d = (Return (), d') \<and>
    dispatch_send pick h x d' = (Panic ''send on closed channel'', d')"
proof -
  have open_d: "\<not> closed d" and h: "map_of (channels d) ident = Some h"
    using assms(2) by (auto simp: getCh_def split: if_splits)
  have len: "h < length (heap d)" using assms(1) h by (rule disp_invD)
  have "h \<in> snd ` set (channels d)" using map_of_SomeD [OF h] by force
  then obtain d' where "Close d = (Return (), d')" "closed d'" "chan_closed (heap d' ! h)"
    using Close_returns [OF assms(1) open_d] len by blast
  then show ?thesis
    by (intro exI [of _ d'] exI [of _ 0]) (simp add: dispatch_send_def send_ready_def Let_def)
qed

end
