(* ===== verification/Invocation_Manager.thy ===== *)
theory Invocation_Manager
  imports Invocation_Store Dispatcher "HOL-Library.AList"
begin

text \<open>
  The request operations of \<^verbatim>\<open>invocation/manager.go\<close>: submitting an invocation, asking for it,
  executing one and waiting, fetching the next one of a queue, and returning its outcome. A
  handler is given the faults of its database calls by number, the clock readings and the random
  bytes it draws; what other goroutines do while it waits is a list of events or rounds.
\<close>

definition invokeTopic :: string where
  "invokeTopic = ''maos_invoke''"

definition responseTopic :: string where
  "responseTopic = ''maos_response''"

definition defaultWaitSec :: int where
  "defaultWaitSec = 10"

definition finalizedStatuses :: "InvocationState list" where
  "finalizedStatuses =
     [InvocationStateCancelled, InvocationStateCompleted, InvocationStateDiscarded]"

subsection \<open>Helpers\<close>

text \<open>
  A decoded \<^verbatim>\<open>map[string]interface{}\<close> is \<open>JObj\<close>, the nil map \<open>JNull\<close>. \<open>parse_json\<close> is the pointer
  \<^verbatim>\<open>parseJson\<close> returns and whether it reports an error.
\<close>

fun parse_json :: "json option \<Rightarrow> json option \<times> bool" where
  "parse_json None = (None, False)"
| "parse_json (Some (JObj kvs)) = (Some (JObj kvs), False)"
| "parse_json (Some JNull) = (Some JNull, False)"
| "parse_json (Some _) = (Some JNull, True)"

definition trace_bytes :: nat where
  "trace_bytes = 32 * 3 div 4 + 1"

text \<open>\<open>random\<close> is what \<^verbatim>\<open>rand.Read\<close> fills the buffer with, \<open>None\<close> when it fails.\<close>

definition generateTraceId :: "nat list option \<Rightarrow> string outcome" where
  "generateTraceId random =
     (case random of
        None \<Rightarrow> Panic ''failed to generate random bytes''
      | Some bs \<Rightarrow> Return (raw_url_base64 (take trace_bytes bs)))"

record create_request =
  r_actor :: string
  r_meta :: "(string \<times> json) list"
  r_payload :: json

definition ensure_trace_id ::
    "nat list option \<Rightarrow> (string \<times> json) list \<Rightarrow> (string \<times> json) list outcome" where
  "ensure_trace_id random meta =
     (if map_of meta ''trace_id'' \<in> {None, Some JNull} then
        (case generateTraceId random of
           Panic e \<Rightarrow> Panic e
         | Return t \<Rightarrow> Return (AList.update ''trace_id'' (JStr t) meta))
      else Return meta)"

definition insert_params :: "string \<Rightarrow> json \<Rightarrow> json \<Rightarrow> invocation_insert_params" where
  "insert_params actor_name metadata payload =
     \<lparr>p_state = InvocationStateAvailable, p_created_at = 0, p_finalized_at = None, p_priority = 1,
      p_payload = payload, p_metadata = Some metadata, p_tags = None, p_actor_name = actor_name\<rparr>"

text \<open>The response types; \<open>NoAnswer\<close> stands for the handler returning a nil response and an error.\<close>

record invocation_view =
  v_id :: string
  v_attempted_at :: "int option"
  v_finalized_at :: "int option"
  v_meta :: json
  v_state :: InvocationState
  v_result :: "json option"
  v_errors :: "json option"

datatype create_async_response =
  Async201 string | Async400 string | Async500 string | AsyncError pgerr

datatype get_by_id_response =
  Get200 invocation_view | Get202 invocation_view | Get404 | Get500 string

datatype create_sync_response =
  Sync201 invocation_view | Sync400 string | Sync500 string | SyncError pgerr

datatype finalize_response = Finalize200 | Finalize404 | Finalize500 string

datatype get_next_response =
  Next200 string json json | Next404 | Next500 string

subsection \<open>Submitting\<close>

definition InsertInvocation ::
    "faults \<Rightarrow> nat list option \<Rightarrow> string \<Rightarrow> create_request \<Rightarrow> db \<Rightarrow>
     create_async_response outcome \<times> db" where
  "InsertInvocation flt random schema req d =
     (if r_meta req = [] then (Return (Async400 ''Meta is required''), d)
      else case ensure_trace_id random (r_meta req) of
        Panic e \<Rightarrow> (Panic e, d)
      | Return meta \<Rightarrow>
          (case marshal (JObj meta) of
             None \<Rightarrow> (Return (Async500 ''Failed to marshal metadata''), d)
           | Some metadata \<Rightarrow>
               (case marshal (r_payload req) of
                  None \<Rightarrow> (Return (Async500 ''Failed to marshal payload''), d)
                | Some payload \<Rightarrow>
                    (case run_query flt 0
                        (InvocationInsert (insert_params (r_actor req) metadata payload)) d of
                       (Inl ErrNoRows, d1) \<Rightarrow> (Return (Async400 ''actor not found''), d1)
                     | (Inl e, d1) \<Rightarrow> (Return (AsyncError e), d1)
                     | (Inr (iid, qid), d1) \<Rightarrow>
                         (let d2 = snd (run_query flt 1
                             (PgNotifyOne schema invokeTopic (FormatInt qid)) d1)
                          in (Return (Async201 (FormatInt iid)), d2))))))"

subsection \<open>Reading an invocation\<close>

definition view_of :: "string \<Rightarrow> invocation \<Rightarrow> invocation_view" where
  "view_of ident i =
     \<lparr>v_id = ident, v_attempted_at = i_attempted_at i, v_finalized_at = i_finalized_at i,
      v_meta = the (fst (parse_json (Some (i_metadata i)))), v_state = i_state i,
      v_result = fst (parse_json (i_result i)), v_errors = fst (parse_json (i_errors i))\<rparr>"

text \<open>The closure \<^verbatim>\<open>getInvocation\<close> of \<^verbatim>\<open>GetInvocationById\<close>.\<close>

definition get_invocation :: "faults \<Rightarrow> string \<Rightarrow> int \<Rightarrow> db \<Rightarrow> get_by_id_response" where
  "get_invocation flt ident iid d =
     (case fst (run_query flt 0 (InvocationFindById iid) d) of
        Inl ErrNoRows \<Rightarrow> Get404
      | Inl _ \<Rightarrow> Get500 ''Failed to find invocation''
      | Inr i \<Rightarrow>
          if snd (parse_json (i_result i)) \<or> snd (parse_json (i_errors i))
          then Get500 ''Failed to parse result or errors''
          else if snd (parse_json (Some (i_metadata i))) then Get500 ''Failed to parse metadata''
          else if i_state i \<in> set finalizedStatuses then Get200 (view_of ident i)
          else Get202 (view_of ident i))"

text \<open>
  Waiting for a response. \<open>response_notify\<close> is the callback the notifier runs, a select that
  never blocks over the closed \<^verbatim>\<open>responseDone\<close> and the channel of 64 payloads; the waiter polls
  its own select. An event is a notification, or the waiter getting to run with the database as
  it is at that moment, its timer fired or not.
\<close>

definition response_cap :: nat where
  "response_cap = 64"

record resp_wait =
  rw_buf :: "string list"
  rw_done :: bool

definition response_notify :: "nat \<Rightarrow> string \<Rightarrow> resp_wait \<Rightarrow> resp_wait" where
  "response_notify pick payload rw =
     (let ready = (if rw_done rw then [False] else []) @
                  (if length (rw_buf rw) < response_cap then [True] else [])
      in if ready = [] \<or> \<not> ready ! (pick mod length ready) then rw
         else rw\<lparr>rw_buf := rw_buf rw @ [payload]\<rparr>)"

datatype wait_event = Notified nat string | Polled nat bool db

fun wait_response :: "string \<Rightarrow> resp_wait \<Rightarrow> wait_event list \<Rightarrow> db option" where
  "wait_response ident rw [] = None"
| "wait_response ident rw (Notified pick p # es) =
     wait_response ident (response_notify pick p rw) es"
| "wait_response ident rw (Polled pick timed_out d # es) =
     (let ready = (if timed_out then [True] else []) @ (if rw_buf rw \<noteq> [] then [False] else [])
      in if ready = [] then wait_response ident rw es
         else if ready ! (pick mod length ready) then Some d
         else if hd (rw_buf rw) = ident then Some d
         else wait_response ident (rw\<lparr>rw_buf := tl (rw_buf rw)\<rparr>) es)"

definition wait_seconds :: "int option \<Rightarrow> int \<Rightarrow> int" where
  "wait_seconds w lo = Clamp (from_ptr_or w defaultWaitSec) lo 60"

text \<open>
  \<open>listen_ok\<close> says whether subscribing to the response topic succeeded: its error is ignored, and
  the deferred \<^verbatim>\<open>Unlisten\<close> then runs on a nil subscription. \<open>None\<close> while the handler waits.
\<close>

definition GetInvocationById ::
    "faults \<Rightarrow> bool \<Rightarrow> string \<Rightarrow> int option \<Rightarrow> wait_event list \<Rightarrow> db \<Rightarrow>
     get_by_id_response outcome option" where
  "GetInvocationById flt listen_ok ident w es d =
     (case ParseInt 64 ident of
        None \<Rightarrow> Some (Return Get404)
      | Some iid \<Rightarrow>
          (case w of
             None \<Rightarrow> Some (Return (get_invocation flt ident iid d))
           | Some _ \<Rightarrow>
               (case wait_response ident \<lparr>rw_buf = [], rw_done = False\<rparr> es of
                  None \<Rightarrow> None
                | Some d' \<Rightarrow>
                    Some (if listen_ok then Return (get_invocation flt ident iid d') else nil_panic))))"

text \<open>
  The closure \<^verbatim>\<open>returnInvication\<close> of \<^verbatim>\<open>ExecuteInvocationSync\<close>. The error of the query is not looked
  at: the row is then the zero value, whose metadata is nil, and \<^verbatim>\<open>*meta\<close> dereferences nil.
\<close>

definition return_invocation :: "faults \<Rightarrow> int \<Rightarrow> db \<Rightarrow> create_sync_response outcome" where
  "return_invocation flt iid d =
     (case fst (run_query flt 2 (InvocationFindById iid) d) of
        Inl _ \<Rightarrow> nil_panic
      | Inr i \<Rightarrow>
          if snd (parse_json (i_result i)) \<or> snd (parse_json (i_errors i))
          then Return (Sync500 ''Failed to parse result or errors'')
          else if snd (parse_json (Some (i_metadata i))) then Return (Sync500 ''Failed to parse metadata'')
          else Return (Sync201 (view_of (FormatInt iid) i)))"

text \<open>
  \<open>later\<close> gives, for the database right after the insertion, the events while the handler waits.
  The second component is the database after the handler's own statements.
\<close>

definition ExecuteInvocationSync ::
    "faults \<Rightarrow> nat list option \<Rightarrow> string \<Rightarrow> bool \<Rightarrow> create_request \<Rightarrow> (db \<Rightarrow> wait_event list) \<Rightarrow> db \<Rightarrow>
     create_sync_response outcome option \<times> db" where
  "ExecuteInvocationSync flt random schema listen_ok req later d =
     (if r_meta req = [] then (Some (Return (Sync400 ''Meta is required'')), d)
      else case ensure_trace_id random (r_meta req) of
        Panic e \<Rightarrow> (Some (Panic e), d)
      | Return meta \<Rightarrow>
          (case marshal (JObj meta) of
             None \<Rightarrow> (Some (Return (Sync500 ''Failed to marshal metadata'')), d)
           | Some metadata \<Rightarrow>
               (case marshal (r_payload req) of
                  None \<Rightarrow> (Some (Return (Sync500 ''Failed to marshal payload'')), d)
                | Some payload \<Rightarrow>
                    (let guard = (\<lambda>r. if listen_ok then r else nil_panic) in
                     case run_query flt 0
                        (InvocationInsert (insert_params (r_actor req) metadata payload)) d of
                       (Inl ErrNoRows, d1) \<Rightarrow> (Some (guard (Return (Sync400 ''actor not found''))), d1)
                     | (Inl e, d1) \<Rightarrow> (Some (guard (Return (SyncError e))), d1)
                     | (Inr (iid, qid), d1) \<Rightarrow>
                         (let d2 = snd (run_query flt 1
                             (PgNotifyOne schema invokeTopic (FormatInt qid)) d1)
                          in (map_option (\<lambda>d3. guard (return_invocation flt iid d3))
                                (wait_response (FormatInt iid) \<lparr>rw_buf = [], rw_done = False\<rparr> (later d2)),
                              d2))))))"

subsection \<open>Returning an outcome\<close>

definition ReturnInvocationResponse ::
    "faults \<Rightarrow> int \<Rightarrow> string \<Rightarrow> int \<Rightarrow> string \<Rightarrow> json \<Rightarrow> db \<Rightarrow> finalize_response \<times> db" where
  "ReturnInvocationResponse flt now schema caller invokeId res d =
     (case ParseInt 64 invokeId of
        None \<Rightarrow> (Finalize404, d)
      | Some iid \<Rightarrow>
          (case marshal res of
             None \<Rightarrow> (Finalize500 ''Failed to marshal result'', d)
           | Some r \<Rightarrow>
               (case run_query flt 0 (InvocationSetCompleteIfRunning iid now caller r) d of
                  (Inl ErrNoRows, d1) \<Rightarrow> (Finalize404, d1)
                | (Inl _, d1) \<Rightarrow> (Finalize500 ''Failed to set invocation compelte'', d1)
                | (Inr _, d1) \<Rightarrow>
                    (Finalize200, snd (run_query flt 1 (PgNotifyOne schema responseTopic invokeId) d1)))))"

definition ReturnInvocationError ::
    "faults \<Rightarrow> int \<Rightarrow> string \<Rightarrow> int \<Rightarrow> string \<Rightarrow> json \<Rightarrow> db \<Rightarrow> finalize_response \<times> db" where
  "ReturnInvocationError flt now schema caller invokeId errs d =
     (case ParseInt 64 invokeId of
        None \<Rightarrow> (Finalize404, d)
      | Some iid \<Rightarrow>
          (case marshal errs of
             None \<Rightarrow> (Finalize500 ''Failed to marshal result'', d)
           | Some e \<Rightarrow>
               (case run_query flt 0 (InvocationSetFailureIfRunning iid now caller e) d of
                  (Inl ErrNoRows, d1) \<Rightarrow> (Finalize404, d1)
                | (Inl _, d1) \<Rightarrow> (Finalize500 ''Failed to set invocation failure'', d1)
                | (Inr _, d1) \<Rightarrow>
                    (Finalize200, snd (run_query flt 1 (PgNotifyOne schema responseTopic invokeId) d1)))))"

subsection \<open>Fetching the next invocation\<close>

fun unmarshal_map :: "json \<Rightarrow> json option" where
  "unmarshal_map (JObj kvs) = Some (JObj kvs)"
| "unmarshal_map JNull = Some JNull"
| "unmarshal_map _ = None"

definition createGetNextResponse :: "invocation \<Rightarrow> get_next_response" where
  "createGetNextResponse i =
     (case unmarshal_map (i_metadata i) of
        None \<Rightarrow> Next500 ''Failed to unmarshal metadata''
      | Some metadata \<Rightarrow>
          (case unmarshal_map (i_payload i) of
             None \<Rightarrow> Next500 ''Failed to unmarshal payload''
           | Some payload \<Rightarrow> Next200 (FormatInt (i_id i)) metadata payload))"

text \<open>
  One round of the loop: what the other clients do to the database before it, whether its query
  reaches the server, the rows other transactions hold locked, the clock for the statement and
  for \<^verbatim>\<open>time.Now\<close>, and the looks of its \<^verbatim>\<open>WaitFor\<close>.
\<close>

type_synonym signals = "unit dispatcher"

record poll_round =
  ro_others :: "db \<Rightarrow> db"
  ro_fault :: "string option"
  ro_locked :: "int set"
  ro_now :: int
  ro_clock :: int
  ro_looks :: "((signals \<Rightarrow> signals) \<times> bool \<times> nat) list"

fun error_text :: "pgerr \<Rightarrow> string" where
  "error_text ErrNoRows = ''no rows in result set''"
| "error_text (DbError e) = e"

fun get_next_loop ::
    "int \<Rightarrow> int \<Rightarrow> int \<Rightarrow> int \<Rightarrow> poll_round list \<Rightarrow> db \<times> signals \<Rightarrow>
     get_next_response option \<times> db \<times> signals" where
  "get_next_loop startTime waitSec caller qid [] s = (None, s)"
| "get_next_loop startTime waitSec caller qid (r # rs) (d, q) =
     (case run_query (\<lambda>_. ro_fault r) 0
         (InvocationGetAvailable (ro_locked r) (ro_now r) caller qid 1) (ro_others r d) of
        (Inl e, d1) \<Rightarrow> (Some (Next500 (''Cannot get next invocation: '' @ error_text e)), d1, q)
      | (Inr (i # _), d1) \<Rightarrow> (Some (createGetNextResponse i), d1, q)
      | (Inr [], d1) \<Rightarrow>
          if waitSec - (ro_clock r - startTime) \<le> 0 then (Some Next404, d1, q)
          else (case WaitFor_blocking (FormatInt qid) (ro_looks r) q of
             (None, q1) \<Rightarrow> (None, d1, q1)
           | (Some (Inl e), q1) \<Rightarrow> (Some (Next500 ''Cannot wait for next invocation:''), d1, q1)
           | (Some (Inr _), q1) \<Rightarrow> get_next_loop startTime waitSec caller qid rs (d1, q1)))"

definition GetNextInvocation ::
    "int \<Rightarrow> int \<Rightarrow> int \<Rightarrow> int option \<Rightarrow> poll_round list \<Rightarrow> db \<times> signals \<Rightarrow>
     get_next_response option \<times> db \<times> signals" where
  "GetNextInvocation startTime caller qid w rounds s =
     get_next_loop startTime (wait_seconds w 1) caller qid rounds
       (fst s, snd (Listen (FormatInt qid) (snd s)))"

text \<open>\<^verbatim>\<open>handleInvokeNotify\<close>, the callback of the invoke topic; \<^verbatim>\<open>Dispatch\<close>'s result is dropped.\<close>

definition handleInvokeNotify :: "nat \<Rightarrow> string \<Rightarrow> signals \<Rightarrow> unit outcome \<times> signals" where
  "handleInvokeNotify pick payload q =
     (case Dispatch pick payload () q of
        (Panic e, q') \<Rightarrow> (Panic e, q') | (Return _, q') \<Rightarrow> (Return (), q'))"

lemmas manager_defs [handler_simps] =
  InsertInvocation_def get_invocation_def GetInvocationById_def return_invocation_def
  ExecuteInvocationSync_def ReturnInvocationResponse_def ReturnInvocationError_def
  createGetNextResponse_def GetNextInvocation_def

subsection \<open>Every handler changes the table by its statements\<close>

lemma run_query_other:
  assumes "run_query flt k q d = (r, d')" and "q d = (r0, d0)" and "inv_step\<^sup>*\<^sup>* d d0"
  shows "inv_step\<^sup>*\<^sup>* d d'"
  using assms by (cases "flt k") auto

lemma notify_step: "inv_step\<^sup>*\<^sup>* d (snd (run_query flt k (PgNotifyOne schema topic payload) d))"
proof -
  have "inv_step d (snd (PgNotifyOne schema topic payload d))"
    by (rule inv_step.other) (simp_all add: PgNotifyOne_def)
  then show ?thesis by (cases "flt k") auto
qed

lemma insert_query_step:
  assumes "run_query flt k (InvocationInsert p) d = (r, d')" and "p_state p = InvocationStateAvailable"
  shows "inv_step\<^sup>*\<^sup>* d d'"
  using assms inv_step.insert by (cases "flt k") auto

lemma insert_params_state [simp]: "p_state (insert_params a m p) = InvocationStateAvailable"
  by (simp add: insert_params_def)

lemma then_notify_step:
  "inv_step\<^sup>*\<^sup>* d d1 \<Longrightarrow>
   inv_step\<^sup>*\<^sup>* d (snd (run_query flt k (PgNotifyOne schema topic payload) d1))"
  by (rule rtranclp_trans [OF _ notify_step])

lemma InsertInvocation_steps:
  "inv_step\<^sup>*\<^sup>* d (snd (InsertInvocation flt random schema req d))"
  by (auto simp: InsertInvocation_def Let_def split: outcome.split option.split prod.split
      sum.split pgerr.split intro: insert_query_step intro!: then_notify_step)

lemma ExecuteInvocationSync_steps:
  "inv_step\<^sup>*\<^sup>* d (snd (ExecuteInvocationSync flt random schema listen_ok req later d))"
  by (auto simp: ExecuteInvocationSync_def Let_def split: outcome.split option.split prod.split
      sum.split pgerr.split intro: insert_query_step intro!: then_notify_step)

lemma ReturnInvocationResponse_steps:
  "inv_step\<^sup>*\<^sup>* d (snd (ReturnInvocationResponse flt now schema caller invokeId res d))"
proof -
  have "run_query flt 0 (InvocationSetCompleteIfRunning iid now caller r) d = (x, d1) \<Longrightarrow>
      inv_step\<^sup>*\<^sup>* d d1" for iid r x d1
    using inv_step.complete by (cases "flt 0") auto
  then show ?thesis
    by (auto simp: ReturnInvocationResponse_def split: option.split prod.split sum.split pgerr.split
        intro!: then_notify_step)
qed

lemma ReturnInvocationError_steps:
  "inv_step\<^sup>*\<^sup>* d (snd (ReturnInvocationError flt now schema caller invokeId errs d))"
proof -
  have "run_query flt 0 (InvocationSetFailureIfRunning iid now caller r) d = (x, d1) \<Longrightarrow>
      inv_step\<^sup>*\<^sup>* d d1" for iid r x d1
    using inv_step.failure by (cases "flt 0") auto
  then show ?thesis
    by (auto simp: ReturnInvocationError_def split: option.split prod.split sum.split pgerr.split
        intro!: then_notify_step)
qed

definition rounds_ok :: "poll_round list \<Rightarrow> bool" where
  "rounds_ok rounds \<longleftrightarrow> (\<forall>r \<in> set rounds. \<forall>d. inv_step\<^sup>*\<^sup>* d (ro_others r d))"

text \<open>
  What a fetch does: some rounds that find nothing, then at most one claim.
\<close>

lemma get_next_loop_claims:
  assumes "rounds_ok rounds"
    and "get_next_loop startTime waitSec caller qid rounds (d, q) = (r, d', q')"
  shows "(\<exists>d0 locked now i rest. inv_step\<^sup>*\<^sup>* d d0 \<and> r = Some (createGetNextResponse i) \<and>
      InvocationGetAvailable locked now caller qid 1 d0 = (Inr (i # rest), d')) \<or>
    inv_step\<^sup>*\<^sup>* d d' \<and> (r = None \<or> r = Some Next404 \<or> (\<exists>e. r = Some (Next500 e)))"
  using assms
proof (induction rounds arbitrary: d q)
  case Nil
  then show ?case by auto
next
  case (Cons ro rounds)
  obtain x d1 where x: "run_query (\<lambda>_. ro_fault ro) 0
      (InvocationGetAvailable (ro_locked ro) (ro_now ro) caller qid 1) (ro_others ro d) = (x, d1)"
    by fastforce
  have before: "inv_step\<^sup>*\<^sup>* d (ro_others ro d)" using Cons.prems(1) by (simp add: rounds_ok_def)
  have step: "inv_step\<^sup>*\<^sup>* d d1"
    using x before inv_step.claim
    by (cases "ro_fault ro") (auto intro: rtranclp.rtrancl_into_rtrancl)
  show ?case
  proof (cases x)
    case (Inl e)
    then have "r = Some (Next500 (''Cannot get next invocation: '' @ error_text e))" "d' = d1"
      using Cons.prems(2) x by (simp_all only: get_next_loop.simps prod.case sum.case prod.inject)
    then show ?thesis using step by blast
  next
    case (Inr rows)
    show ?thesis
    proof (cases rows)
      case (Cons i rest)
      then have "ro_fault ro = None" using x Inr by (cases "ro_fault ro") auto
      then have "InvocationGetAvailable (ro_locked ro) (ro_now ro) caller qid 1 (ro_others ro d) =
          (Inr (i # rest), d1)"
        using x Inr Cons by simp
      moreover have "r = Some (createGetNextResponse i)" "d' = d1"
        using Cons.prems(2) x Inr Cons by auto
      ultimately show ?thesis using before by blast
    next
      case Nil
      obtain w q1 where w: "WaitFor_blocking (FormatInt qid) (ro_looks ro) q = (w, q1)" by fastforce
      have "rounds_ok rounds" using Cons.prems(1) by (simp add: rounds_ok_def)
      from Cons.IH [OF this, of d1 q1] show ?thesis
        using Cons.prems(2) x Inr Nil w step
        by (auto split: if_splits option.splits sum.splits dest: rtranclp_trans [OF step])
    qed
  qed
qed

subsection \<open>Submitting\<close>

lemma ensure_trace_id_sets:
  assumes "ensure_trace_id random meta = Return meta'"
  shows "\<exists>v. map_of meta' ''trace_id'' = Some v \<and> v \<noteq> JNull"
  using assms
  by (cases "map_of meta ''trace_id''")
    (auto simp: ensure_trace_id_def update_conv split: outcome.splits if_splits)

lemma InvocationInsert_params:
  "InvocationInsert (insert_params name m p) d =
     (case find (\<lambda>a. a_name a = name) (actors d) of
        None \<Rightarrow> (Inl ErrNoRows, d)
      | Some a \<Rightarrow>
          (Inr (next_invocation d, a_queue_id a),
           d\<lparr>invocations := invocations d @
               [new_invocation (insert_params name m p) (next_invocation d) (a_queue_id a)],
             next_invocation := next_invocation d + 1\<rparr>))"
  by (simp add: InvocationInsert_def insert_params_def new_invocation_def check_invocation_def
      final_state_def Let_def split: option.split)

definition is_201 :: "create_async_response outcome \<Rightarrow> bool" where
  "is_201 r \<longleftrightarrow> (case r of Return (Async201 _) \<Rightarrow> True | _ \<Rightarrow> False)"

lemma notify_keeps:
  "invocations (snd (run_query flt k (PgNotifyOne schema topic payload) d)) = invocations d"
  "actors (snd (run_query flt k (PgNotifyOne schema topic payload) d)) = actors d"
  "next_invocation (snd (run_query flt k (PgNotifyOne schema topic payload) d)) = next_invocation d"
  by (cases "flt k"; simp add: PgNotifyOne_def)+

definition submitted :: "create_request \<Rightarrow> db \<Rightarrow> invocation \<Rightarrow> bool" where
  "submitted req d row \<longleftrightarrow>
     i_id row = next_invocation d \<and> i_state row = InvocationStateAvailable \<and> i_priority row = 1 \<and>
     i_payload row = r_payload req \<and> i_created_at row = 0 \<and>
     (\<exists>a \<in> set (actors d). a_name a = r_actor req \<and> i_queue_id row = a_queue_id a) \<and>
     (\<exists>meta v. i_metadata row = JObj meta \<and> map_of meta ''trace_id'' = Some v \<and> v \<noteq> JNull)"

lemma submitted_new:
  assumes "find (\<lambda>a. a_name a = r_actor req) (actors d) = Some a"
    and "ensure_trace_id random (r_meta req) = Return meta"
  shows "submitted req d (new_invocation (insert_params (r_actor req) (JObj meta) (r_payload req))
    (next_invocation d) (a_queue_id a))"
  using find_SomeD [OF assms(1)] ensure_trace_id_sets [OF assms(2)]
  by (auto simp: submitted_def new_invocation_def insert_params_def)

lemma InsertInvocation_cases:
  assumes "InsertInvocation flt random schema req d = (r, d')"
  shows "if is_201 r then \<exists>row. invocations d' = invocations d @ [row] \<and> submitted req d row \<and>
      r = Return (Async201 (FormatInt (i_id row)))
    else invocations d' = invocations d"
proof (cases "r_meta req = []")
  case True
  with assms show ?thesis by (auto simp: InsertInvocation_def is_201_def)
next
  case False
  show ?thesis
  proof (cases "ensure_trace_id random (r_meta req)")
    case (Panic e)
    with assms False show ?thesis by (auto simp: InsertInvocation_def is_201_def)
  next
    case (Return meta)
    obtain x d1 where x: "run_query flt 0
        (InvocationInsert (insert_params (r_actor req) (JObj meta) (r_payload req))) d = (x, d1)"
      by fastforce
    have rows: "case x of Inl _ \<Rightarrow> d1 = d | Inr (iid, qid) \<Rightarrow>
        \<exists>row. invocations d1 = invocations d @ [row] \<and> submitted req d row \<and> i_id row = iid"
      using x submitted_new [OF _ Return]
      by (cases "flt 0") (auto simp: InvocationInsert_params split: option.splits)
    show ?thesis
      using assms False Return x rows
      by (auto simp: InsertInvocation_def is_201_def marshal_def notify_keeps Let_def
          split: if_splits sum.splits pgerr.splits prod.splits)
  qed
qed

subsection \<open>One invocation from submission to response\<close>

text \<open>What the table holds after each of the three statements an invocation goes through.\<close>

lemma one_available:
  assumes "available_in {} (i_queue_id row) d = []" and "i_state row = InvocationStateAvailable"
    and "invocations d' = invocations d @ [row]"
  shows "available_in {} (i_queue_id row) d' = [row]"
proof -
  have "filter (\<lambda>i. i_state i = InvocationStateAvailable \<and> i_queue_id i = i_queue_id row)
      (invocations d) = []"
    using assms(1) available_in_Cons_iff [of "{}" "i_queue_id row" d] by (auto simp: filter_empty_conv)
  with assms(2,3) show ?thesis by (simp add: available_in_def)
qed

lemma update_one_mem:
  "row \<in> set rows \<Longrightarrow> f row \<in> set (update_where (\<lambda>j. j = row) f rows)"
  by (auto simp: set_update_where)

lemma claim_one:
  assumes "invocations_inv d" and "available_in {} qid d = [row]"
  shows "\<exists>d'. InvocationGetAvailable {} now who qid 1 d = (Inr [claim_row now who row], d') \<and>
    invocations_inv d' \<and> claim_row now who row \<in> set (invocations d')"
proof -
  have "row \<in> set (available_in {} qid d)" using assms(2) by simp
  then have mem: "row \<in> set (invocations d)" by (simp add: set_available_in)
  have eq: "InvocationGetAvailable {} now who qid 1 d = (Inr [claim_row now who row],
      d\<lparr>invocations := update_where (\<lambda>j. j = row) (claim_row now who) (invocations d)\<rparr>)"
    using claim_first [OF assms(1), where locked = "{}" and qid = qid and now = now and who = who]
      assms(2) by simp
  from InvocationGetAvailable_inv [OF assms(1) eq] eq show ?thesis
    using update_one_mem [OF mem] by auto
qed

lemma complete_one:
  assumes "invocations_inv d" and "row \<in> set (invocations d)" and "finalizable (i_id row) who row"
  shows "\<exists>d'. InvocationSetCompleteIfRunning (i_id row) fin who res d =
      (Inr (i_id row, InvocationStateCompleted, Some fin), d') \<and>
    invocations_inv d' \<and> complete_row fin res row \<in> set (invocations d')"
proof -
  have one: "filter (finalizable (i_id row) who) (invocations d) = [row]"
    using assms by (rule one_finalizable)
  then have found: "find (finalizable (i_id row) who) (invocations d) = Some row"
    by (rule find_filter_Cons)
  have eq: "InvocationSetCompleteIfRunning (i_id row) fin who res d =
      (Inr (i_id row, InvocationStateCompleted, Some fin),
       d\<lparr>invocations := update_where (\<lambda>j. j = row) (complete_row fin res) (invocations d)\<rparr>)"
    using complete_effect [OF assms(1), where iid = "i_id row" and who = who and fin = fin
        and res = res] found by simp
  from InvocationSetCompleteIfRunning_inv [OF assms(1) eq] eq show ?thesis
    using update_one_mem [OF assms(2)] by auto
qed

lemma execute_inserts:
  assumes "find (\<lambda>a. a_name a = r_actor req) (actors d) = Some a"
    and "r_meta req \<noteq> []" and "ensure_trace_id random (r_meta req) = Return meta"
    and "encodable (JObj meta)" and "encodable (r_payload req)"
  shows "\<exists>d2. (\<forall>later. ExecuteInvocationSync no_faults random schema True req later d =
      (map_option (return_invocation no_faults (next_invocation d))
        (wait_response (FormatInt (next_invocation d)) \<lparr>rw_buf = [], rw_done = False\<rparr> (later d2)), d2)) \<and>
    invocations d2 = invocations d @
      [new_invocation (insert_params (r_actor req) (JObj meta) (r_payload req))
        (next_invocation d) (a_queue_id a)] \<and>
    inv_step\<^sup>*\<^sup>* d d2"
proof -
  define d1 where "d1 = d\<lparr>invocations := invocations d @
      [new_invocation (insert_params (r_actor req) (JObj meta) (r_payload req))
        (next_invocation d) (a_queue_id a)], next_invocation := next_invocation d + 1\<rparr>"
  have ins: "InvocationInsert (insert_params (r_actor req) (JObj meta) (r_payload req)) d =
      (Inr (next_invocation d, a_queue_id a), d1)"
    using assms(1) by (simp add: InvocationInsert_params d1_def)
  define d2 where "d2 = snd (PgNotifyOne schema invokeTopic (FormatInt (a_queue_id a)) d1)"
  have run: "ExecuteInvocationSync no_faults random schema True req later d =
      (map_option (return_invocation no_faults (next_invocation d))
        (wait_response (FormatInt (next_invocation d)) \<lparr>rw_buf = [], rw_done = False\<rparr> (later d2)), d2)"
    for later
    using assms(2-5) ins
    by (simp del: encodable.simps add: ExecuteInvocationSync_def marshal_def d2_def Let_def)
  then have "inv_step\<^sup>*\<^sup>* d d2"
    using ExecuteInvocationSync_steps [of d no_faults random schema True req] by simp
  with run show ?thesis by (auto simp: d2_def d1_def PgNotifyOne_def)
qed

lemma wait_notified:
  "wait_response ident \<lparr>rw_buf = [], rw_done = False\<rparr> (Notified k ident # Polled j timed_out d # es) =
   Some d"
  by (simp add: response_notify_def response_cap_def Let_def)

text \<open>C2. The whole path of an invocation: a caller submits it and waits; a worker of the actor's queue
  fetches it and gets exactly the submitted metadata and payload; the worker's response is
  accepted, and wakes the caller, which is answered with the completed state and that result.\<close>

theorem invocation_round_trip:
  assumes inv: "invocations_inv d"
    and actor: "find (\<lambda>a. a_name a = r_actor req) (actors d) = Some a"
    and empty: "available_in {} (a_queue_id a) d = []"
    and meta: "r_meta req \<noteq> []" "ensure_trace_id random (r_meta req) = Return meta"
      "encodable (JObj meta)"
    and payload: "r_payload req = JObj p" "encodable (JObj p)"
    and ident: "- (2 ^ 63) \<le> next_invocation d" "next_invocation d < 2 ^ 63"
      "ident = FormatInt (next_invocation d)"
    and round: "ro_others ro = id" "ro_fault ro = None" "ro_locked ro = {}"
    and res: "encodable (JObj res)"
  shows "\<exists>d2 d3 q' d4 view.
    snd (ExecuteInvocationSync no_faults random schema True req (\<lambda>_. []) d) = d2 \<and>
    GetNextInvocation start worker (a_queue_id a) w (ro # ros) (d2, q) =
      (Some (Next200 ident (JObj meta) (JObj p)), d3, q') \<and>
    ReturnInvocationResponse no_faults now schema worker ident (JObj res) d3 = (Finalize200, d4) \<and>
    last (published d4) = (schema @ ''.'' @ responseTopic, ident) \<and>
    ExecuteInvocationSync no_faults random schema True req
      (\<lambda>_. Notified k ident # Polled j timed_out d4 # es) d =
      (Some (Return (Sync201 view)), d2) \<and>
    v_id view = ident \<and> v_state view = InvocationStateCompleted \<and> v_meta view = JObj meta \<and>
    v_result view = Some (JObj res) \<and> v_errors view = None"
proof -
  let ?row = "new_invocation (insert_params (r_actor req) (JObj meta) (r_payload req))
    (next_invocation d) (a_queue_id a)"
  have row: "i_queue_id ?row = a_queue_id a" "i_state ?row = InvocationStateAvailable"
    "i_id ?row = next_invocation d" "i_metadata ?row = JObj meta" "i_payload ?row = JObj p"
    "i_errors ?row = None"
    using payload by (simp_all add: new_invocation_def insert_params_def)
  have enc: "encodable (r_payload req)" using payload by simp
  obtain d2 where d2: "\<And>later. ExecuteInvocationSync no_faults random schema True req later d =
      (map_option (return_invocation no_faults (next_invocation d))
        (wait_response (FormatInt (next_invocation d)) \<lparr>rw_buf = [], rw_done = False\<rparr> (later d2)), d2)"
      "invocations d2 = invocations d @ [?row]" "inv_step\<^sup>*\<^sup>* d d2"
    using execute_inserts [OF actor meta enc] by blast
  have inv2: "invocations_inv d2" using d2(3) inv by (rule inv_steps_inv)
  have "available_in {} (a_queue_id a) d2 = [?row]"
    using one_available [of ?row d d2] empty row d2(2) by simp
  then obtain d3 where d3: "InvocationGetAvailable {} (ro_now ro) worker (a_queue_id a) 1 d2 =
      (Inr [claim_row (ro_now ro) worker ?row], d3)" "invocations_inv d3"
      "claim_row (ro_now ro) worker ?row \<in> set (invocations d3)"
    using claim_one [OF inv2] by blast
  let ?claimed = "claim_row (ro_now ro) worker ?row"
  have claimed: "i_id ?claimed = next_invocation d" "finalizable (next_invocation d) worker ?claimed"
    "i_metadata ?claimed = JObj meta" "i_payload ?claimed = JObj p" "i_errors ?claimed = None"
    using row by (simp_all add: claim_row_def finalizable_def new_invocation_def)
  have next_inv: "GetNextInvocation start worker (a_queue_id a) w (ro # ros) (d2, q) =
      (Some (Next200 ident (JObj meta) (JObj p)), d3, snd (Listen (FormatInt (a_queue_id a)) q))"
    using d3(1) claimed round ident(3)
    by (simp add: GetNextInvocation_def createGetNextResponse_def)
  obtain d4 where d4: "InvocationSetCompleteIfRunning (next_invocation d) now worker (JObj res) d3 =
      (Inr (next_invocation d, InvocationStateCompleted, Some now), d4)" "invocations_inv d4"
      "complete_row now (JObj res) ?claimed \<in> set (invocations d4)"
    using complete_one [OF d3(2,3), of worker now "JObj res"] claimed by auto
  define d5 where "d5 = snd (PgNotifyOne schema responseTopic ident d4)"
  have returned: "ReturnInvocationResponse no_faults now schema worker ident (JObj res) d3 =
      (Finalize200, d5)"
    using d4(1) ident res ParseInt_FormatInt [of 64 "next_invocation d"]
    by (simp add: ReturnInvocationResponse_def marshal_def d5_def del: encodable.simps)
  let ?done = "complete_row now (JObj res) ?claimed"
  have "InvocationFindById (i_id ?done) d4 = (Inr ?done, d4)"
    using d4(2,3) by (rule find_by_id)
  then have found: "fst (InvocationFindById (next_invocation d) d5) = Inr ?done"
    using claimed(1) by (simp add: InvocationFindById_def d5_def PgNotifyOne_def)
  let ?view = "view_of ident ?done"
  have done_fields: "i_result ?done = Some (JObj res)" "i_errors ?done = None"
    "i_metadata ?done = JObj meta" "i_state ?done = InvocationStateCompleted"
    using claimed by (simp_all add: complete_row_def)
  then have "return_invocation no_faults (next_invocation d) d5 = Return (Sync201 ?view)"
    using found ident(3) by (simp add: return_invocation_def)
  then have "ExecuteInvocationSync no_faults random schema True req
      (\<lambda>_. Notified k ident # Polled j timed_out d5 # es) d = (Some (Return (Sync201 ?view)), d2)"
    unfolding d2(1) ident(3) wait_notified by simp
  moreover have "last (published d5) = (schema @ ''.'' @ responseTopic, ident)"
    by (simp add: d5_def PgNotifyOne_def)
  ultimately show ?thesis
    using next_inv returned d2(1) done_fields
    by (intro exI [of _ d2] exI [of _ d3] exI [of _ d5] exI [of _ ?view]
        exI [of _ "snd (Listen (FormatInt (a_queue_id a)) q)"]) (simp add: view_of_def)
qed

definition sample_request :: create_request where
  "sample_request = \<lparr>r_actor = ''bot'', r_meta = [(''trace_id'', JStr ''t'')], r_payload = JObj []\<rparr>"

definition sample_round :: poll_round where
  "sample_round = \<lparr>ro_others = id, ro_fault = None, ro_locked = {}, ro_now = 50, ro_clock = 50,
     ro_looks = []\<rparr>"

lemma sample_db_empty:
  "invocations sample_db = []" "next_invocation sample_db = 1" "actors sample_db = [sample_actor]"
  "a_name sample_actor = ''bot''" "a_queue_id sample_actor = 3"
  by (simp_all add: sample_db_def empty_db_def sample_actor_def)

lemma sample_db_inv: "invocations_inv sample_db"
  by (simp add: invocations_inv_def sample_db_empty)

theorem invocation_round_trip_witness:
  "\<exists>d2 d3 q' d4 view.
    snd (ExecuteInvocationSync no_faults None ''public'' True sample_request (\<lambda>_. []) sample_db) = d2 \<and>
    GetNextInvocation 0 7 (a_queue_id sample_actor) None [sample_round] (d2, NewDispatcher) =
      (Some (Next200 ''1'' (JObj [(''trace_id'', JStr ''t'')]) (JObj [])), d3, q') \<and>
    ReturnInvocationResponse no_faults 60 ''public'' 7 ''1'' (JObj [(''ok'', JBool True)]) d3 =
      (Finalize200, d4) \<and>
    last (published d4) = (''public'' @ ''.'' @ responseTopic, ''1'') \<and>
    ExecuteInvocationSync no_faults None ''public'' True sample_request
      (\<lambda>_. Notified 0 ''1'' # Polled 0 False d4 # []) sample_db =
      (Some (Return (Sync201 view)), d2) \<and>
    v_id view = ''1'' \<and> v_state view = InvocationStateCompleted \<and>
    v_meta view = JObj [(''trace_id'', JStr ''t'')] \<and>
    v_result view = Some (JObj [(''ok'', JBool True)]) \<and> v_errors view = None"
  by (rule invocation_round_trip [OF sample_db_inv])
    (simp_all add: sample_db_empty available_in_def sample_request_def ensure_trace_id_def
      sample_round_def)

text \<open>Submitting an invocation either answers 201 with the id of one appended row, available, in the
  queue of the named actor, with the submitted payload and a non-null trace id in its metadata, or
  leaves the table as it was. The row's creation time is always 0: the parameter is never set,
  and an int64 zero is not SQL's NULL.\<close>

lemma insert_invocation_effect:
  assumes "InsertInvocation flt random schema req d = (r, d')"
  shows "if is_201 r then \<exists>row. invocations d' = invocations d @ [row] \<and> submitted req d row \<and>
      r = Return (Async201 (FormatInt (i_id row)))
    else invocations d' = invocations d"
  using assms by (rule InsertInvocation_cases)

text \<open>No two fetches ever hand out the same invocation: whatever the actors, queues, waits and
  rounds, and whatever the program did in between, two 200 answers carry different ids.\<close>

lemma fetched_ids_differ:
  assumes "invocations_inv d"
    and "rounds_ok rounds1" and "rounds_ok rounds2"
    and "GetNextInvocation start1 who1 q1 w1 rounds1 (d, s) = (Some (Next200 ident1 m1 p1), d1, s1)"
    and "inv_step\<^sup>*\<^sup>* d1 d2"
    and "GetNextInvocation start2 who2 q2 w2 rounds2 (d2, t) = (Some (Next200 ident2 m2 p2), d3, t1)"
  shows "ident1 \<noteq> ident2"
proof -
  have claims: "\<exists>d0 locked now i rest. inv_step\<^sup>*\<^sup>* e d0 \<and> ident = FormatInt (i_id i) \<and>
      InvocationGetAvailable locked now who q 1 d0 = (Inr (i # rest), e')"
    if "rounds_ok rounds"
      "GetNextInvocation start who q w rounds (e, s) = (Some (Next200 ident m p), e', s')"
    for rounds start who q w e s ident m p e' s'
  proof -
    have "get_next_loop start (wait_seconds w 1) who q rounds (e, snd (Listen (FormatInt q) s)) =
        (Some (Next200 ident m p), e', s')"
      using that(2) by (simp add: GetNextInvocation_def)
    from get_next_loop_claims [OF that(1) this] obtain d0 locked now i rest
      where "inv_step\<^sup>*\<^sup>* e d0" "Next200 ident m p = createGetNextResponse i"
        "InvocationGetAvailable locked now who q 1 d0 = (Inr (i # rest), e')"
      by auto
    moreover from this(2) have "ident = FormatInt (i_id i)"
      by (auto simp: createGetNextResponse_def split: option.splits)
    ultimately show ?thesis by blast
  qed
  obtain a locked1 now1 i rest where one: "inv_step\<^sup>*\<^sup>* d a" "ident1 = FormatInt (i_id i)"
      "InvocationGetAvailable locked1 now1 who1 q1 1 a = (Inr (i # rest), d1)"
    using claims [OF assms(2,4)] by blast
  obtain b locked2 now2 j more where two: "inv_step\<^sup>*\<^sup>* d2 b" "ident2 = FormatInt (i_id j)"
      "InvocationGetAvailable locked2 now2 who2 q2 1 b = (Inr (j # more), d3)"
    using claims [OF assms(3,6)] by blast
  have "invocations_inv a" using one(1) assms(1) by (rule inv_steps_inv)
  then have "set (map i_id (i # rest)) \<inter> set (map i_id (j # more)) = {}"
    using wq.exclusive [of a "(locked1, now1, who1, q1, 1)" "map i_id (i # rest)" d1 b
        "(locked2, now2, who2, q2, 1)" "map i_id (j # more)" d3]
      one(3) two(1,3) rtranclp_trans [OF assms(5) two(1)]
    by simp
  then show ?thesis using one(2) two(2) FormatInt_inj by auto
qed

lemma two_waiting_fetch:
  "GetNextInvocation 0 7 3 None [sample_round] (two_waiting, s) =
    (Some (Next200 ''1'' (JObj []) (JObj [])),
     two_waiting\<lparr>invocations :=
       [claim_row 50 7 (new_invocation sample_insert 1 3), new_invocation sample_insert 2 3]\<rparr>,
     snd (Listen ''3'' s))"
  by (simp add: GetNextInvocation_def sample_round_def two_waiting_claim createGetNextResponse_def
      claim_row_def new_invocation_def sample_insert_def)

text \<open>Returning a response: 404 for an id that is not an int64 or an invocation the caller is not
  the last attempter of while it runs, 500 for a result without an encoding or a failing query,
  all of them without any change; 200 exactly when the caller's running invocation was there,
  and then that row alone is completed with the result, and its id as given is published.\<close>

lemma return_response_effect:
  assumes "invocations_inv d"
  shows "ReturnInvocationResponse flt now schema caller invokeId res d =
    (case ParseInt 64 invokeId of
       None \<Rightarrow> (Finalize404, d)
     | Some iid \<Rightarrow>
         if \<not> encodable res then (Finalize500 ''Failed to marshal result'', d)
         else if flt 0 \<noteq> None then (Finalize500 ''Failed to set invocation compelte'', d)
         else (case find (finalizable iid caller) (invocations d) of
            None \<Rightarrow> (Finalize404, d)
          | Some i \<Rightarrow>
              (Finalize200,
               d\<lparr>invocations := update_where (\<lambda>j. j = i) (complete_row now res) (invocations d),
                 published := published d @
                   (if flt 1 = None then [(schema @ ''.'' @ responseTopic, invokeId)] else [])\<rparr>)))"
proof (cases "ParseInt 64 invokeId")
  case None
  then show ?thesis by (simp add: ReturnInvocationResponse_def)
next
  case (Some iid)
  then show ?thesis
    using complete_effect [OF assms, where iid = iid and who = caller and fin = now and res = res]
    by (cases "flt 0"; cases "flt 1"; cases "find (finalizable iid caller) (invocations d)")
      (simp_all add: ReturnInvocationResponse_def marshal_def PgNotifyOne_def)
qed

text \<open>C36. A fetch returns: if the timer of every wait eventually fires and the clock of some round has
  passed the deadline, the loop ends with an answer, never by waiting for ever.\<close>

theorem fetch_returns:
  assumes "\<forall>ro \<in> set rounds. \<exists>(others, timed_out, pick) \<in> set (ro_looks ro). timed_out"
    and "\<exists>ro \<in> set rounds. wait_seconds w 1 \<le> ro_clock ro - start"
  shows "fst (GetNextInvocation start caller qid w rounds s) \<noteq> None"
proof -
  have "fst (get_next_loop start (wait_seconds w 1) caller qid rounds (d, q)) \<noteq> None" for d q
    using assms
  proof (induction rounds arbitrary: d q)
    case (Cons ro rounds)
    obtain x d1 where x: "run_query (\<lambda>_. ro_fault ro) 0
        (InvocationGetAvailable (ro_locked ro) (ro_now ro) caller qid 1) (ro_others ro d) = (x, d1)"
      by fastforce
    obtain y q1 where y: "WaitFor_blocking (FormatInt qid) (ro_looks ro) q = (y, q1)" by fastforce
    have "\<exists>(others, timed_out, pick) \<in> set (ro_looks ro). timed_out"
      using Cons.prems(1) by (meson list.set_intros(1))
    from WaitFor_blocking_timer [OF this, of "FormatInt qid" q] have "y \<noteq> None" using y by simp
    then obtain z where z: "y = Some z" by blast
    have later: "fst (get_next_loop start (wait_seconds w 1) caller qid rounds (d1, q1)) \<noteq> None"
      if "\<not> wait_seconds w 1 \<le> ro_clock ro - start"
    proof (rule Cons.IH)
      show "\<forall>ro \<in> set rounds. \<exists>(others, timed_out, pick) \<in> set (ro_looks ro). timed_out"
        using Cons.prems(1) by (meson list.set_intros(2))
      show "\<exists>ro \<in> set rounds. wait_seconds w 1 \<le> ro_clock ro - start"
        using Cons.prems(2) that by (metis set_ConsD)
    qed
    show ?case
    proof (cases x)
      case (Inr rows)
      then show ?thesis using x y z later by (cases rows; cases z) simp_all
    qed (simp add: x)
  qed simp
  then show ?thesis by (simp add: GetNextInvocation_def)
qed

theorem fetch_returns_witness:
  "fst (GetNextInvocation 0 7 3 (Some 5)
     [sample_round\<lparr>ro_looks := [(id, False, 0), (id, True, 0)]\<rparr>] (sample_db, NewDispatcher)) \<noteq> None"
  by (rule fetch_returns) (simp_all add: sample_round_def wait_seconds_def Clamp_def)

text \<open>C35. A waiting caller is woken by its response: once its id is notified while the channel of 64
  has room, as many polls as there were payloads before it, plus one, end the wait, whatever
  other notifications arrive in between and whether or not the timer fires.\<close>

theorem response_ends_wait:
  assumes "length (rw_buf rw) < response_cap" and "\<not> rw_done rw"
    and "length (rw_buf rw) < length (filter (\<lambda>e. case e of Polled _ _ _ \<Rightarrow> True | _ \<Rightarrow> False) es)"
  shows "wait_response ident rw (Notified k ident # es) \<noteq> None"
proof -
  have "wait_response ident rw es \<noteq> None"
    if "rw_buf rw = before @ ident # after" "\<not> rw_done rw"
      "length before < length (filter (\<lambda>e. case e of Polled _ _ _ \<Rightarrow> True | _ \<Rightarrow> False) es)"
    for before after rw
    using that
  proof (induction ident rw es arbitrary: before after rule: wait_response.induct)
    case (2 ident rw pick p es)
    have "\<exists>more. rw_buf (response_notify pick p rw) = before @ ident # (after @ more)"
      using "2.prems"(1) by (auto simp: response_notify_def Let_def)
    then obtain more where "rw_buf (response_notify pick p rw) = before @ ident # (after @ more)"
      by blast
    moreover have "\<not> rw_done (response_notify pick p rw)"
      using "2.prems"(2) by (simp add: response_notify_def Let_def)
    ultimately show ?case using "2.IH" "2.prems"(3) by simp
  next
    case (3 ident rw pick timed_out d es)
    show ?case
    proof (cases before)
      case Nil
      then show ?thesis using "3.prems"(1) by (simp add: Let_def)
    next
      case (Cons b bs)
      then show ?thesis
        using "3.prems" "3.IH" [of _ bs after] by (simp add: Let_def)
    qed
  qed simp
  moreover have "rw_buf (response_notify k ident rw) = rw_buf rw @ [ident]"
      "\<not> rw_done (response_notify k ident rw)"
    using assms(1,2) by (simp_all add: response_notify_def Let_def)
  ultimately show ?thesis using assms(3) by simp
qed

theorem response_ends_wait_witness:
  "wait_response ''7'' \<lparr>rw_buf = [''8'', ''9''], rw_done = False\<rparr>
    (Notified 0 ''7'' # [Polled 0 False empty_db, Notified 0 ''5'', Polled 0 False empty_db,
      Polled 0 False empty_db]) \<noteq> None"
  by (rule response_ends_wait) (simp_all add: response_cap_def)

text \<open>A worker that echoes the id in another spelling of the same number ("+7", "007") completes
  the invocation, but publishes its own spelling, and that notification does not wake the caller
  waiting for the canonical one.\<close>

lemma other_spelling_wakes_nobody:
  assumes "ParseInt 64 invokeId = Some iid" and "invokeId \<noteq> FormatInt iid"
    and "ReturnInvocationResponse no_faults now schema caller invokeId res d = (Finalize200, d')"
  shows "last (published d') = (schema @ ''.'' @ responseTopic, invokeId) \<and>
    wait_response (FormatInt iid) \<lparr>rw_buf = [], rw_done = False\<rparr>
      [Notified k invokeId, Polled j False d', Polled l False d'] = None"
proof
  show "last (published d') = (schema @ ''.'' @ responseTopic, invokeId)"
    using assms(1,3)
    by (auto simp: ReturnInvocationResponse_def PgNotifyOne_def
        split: option.splits prod.splits sum.splits pgerr.splits)
  show "wait_response (FormatInt iid) \<lparr>rw_buf = [], rw_done = False\<rparr>
      [Notified k invokeId, Polled j False d', Polled l False d'] = None"
    using assms(2) by (simp add: response_notify_def response_cap_def Let_def)
qed

end
