(* ===== verification/Notifier.thy ===== *)
theory Notifier
  imports Go_Text Maos_Prelude "HOL-Library.AList"
begin

text \<open>
  \<^verbatim>\<open>internal/listener/pg_listener.go\<close> and \<^verbatim>\<open>internal/notifier/notifier.go\<close>: subscriptions to topics
  over one PostgreSQL connection. The connection is the set of channels its session listens
  to. The notifier's operations run under its mutex; \<^verbatim>\<open>sendInterruptAndReceiveResult\<close> releases it,
  so \<^verbatim>\<open>Listen\<close> and \<^verbatim>\<open>unlisten\<close> are split there, and a call that waits for the main loop is part
  of the state.
\<close>

subsection \<open>The listener\<close>

record pg_listener =
  l_conn :: "string set option"
  l_prefix :: string

definition pg_close :: "pg_listener \<Rightarrow> pg_listener" where
  "pg_close l = l\<lparr>l_conn := None\<rparr>"

text \<open>\<open>acquired\<close> is the schema of the connection the pool hands out, or the error on the way.\<close>

definition pg_connect :: "string + string \<Rightarrow> pg_listener \<Rightarrow> string option \<times> pg_listener" where
  "pg_connect acquired l =
     (if l_conn l \<noteq> None then (Some ''connection already established'', l)
      else case acquired of
        Inl e \<Rightarrow> (Some e, l)
      | Inr schema \<Rightarrow> (None, l\<lparr>l_prefix := schema @ ''.'', l_conn := Some {}\<rparr>))"

text \<open>\<open>err\<close> is the error of the statement, if any. Without a connection the method panics.\<close>

definition pg_listen :: "string option \<Rightarrow> string \<Rightarrow> pg_listener \<Rightarrow> string option outcome \<times> pg_listener" where
  "pg_listen err topic l =
     (case l_conn l of
        None \<Rightarrow> (nil_panic, l)
      | Some chs \<Rightarrow>
          (case err of
             Some e \<Rightarrow> (Return (Some e), l)
           | None \<Rightarrow> (Return None, l\<lparr>l_conn := Some (insert (l_prefix l @ topic) chs)\<rparr>)))"

definition pg_unlisten :: "string option \<Rightarrow> string \<Rightarrow> pg_listener \<Rightarrow> string option outcome \<times> pg_listener" where
  "pg_unlisten err topic l =
     (case l_conn l of
        None \<Rightarrow> (nil_panic, l)
      | Some chs \<Rightarrow>
          (case err of
             Some e \<Rightarrow> (Return (Some e), l)
           | None \<Rightarrow> (Return None, l\<lparr>l_conn := Some (chs - {l_prefix l @ topic})\<rparr>)))"

text \<open>The topic a notification of a channel is reported under.\<close>

definition notification_topic :: "pg_listener \<Rightarrow> string \<Rightarrow> string" where
  "notification_topic l channel = TrimPrefix channel (l_prefix l)"

subsection \<open>The notifier's state\<close>

text \<open>
  A call of Listen or Unlisten that waits for the main loop to run its interrupt. Its reply is
  there once the loop has run it.
\<close>

record call =
  cl_id :: nat
  cl_listen :: bool
  cl_topic :: string
  cl_sub :: nat
  cl_reply :: "string option option"

text \<open>What the run loop is doing: nothing, listening again on the topics left, or serving.\<close>

datatype phase = Idle | Relisten "string list" | Serving

record notifier =
  subscriptions :: "(string \<times> nat list) list"
  next_sub :: nat
  isConnected :: bool
  isStarted :: bool
  isWaiting :: bool
  interrupts :: "(nat \<times> bool \<times> string) list"
  calls :: "call list"
  next_call :: nat
  loop_phase :: phase
  stuck :: bool
  lis :: pg_listener
  notificationBuf :: "(string \<times> string) list"

definition new_notifier :: notifier where
  "new_notifier = \<lparr>subscriptions = [], next_sub = 0, isConnected = False, isStarted = False,
     isWaiting = False, interrupts = [], calls = [], next_call = 0, loop_phase = Idle,
     stuck = False, lis = \<lparr>l_conn = None, l_prefix = ''''\<rparr>, notificationBuf = []\<rparr>"

definition subs_of :: "notifier \<Rightarrow> string \<Rightarrow> nat list" where
  "subs_of n topic = (case map_of (subscriptions n) topic of None \<Rightarrow> [] | Some l \<Rightarrow> l)"

definition topics :: "notifier \<Rightarrow> string set" where
  "topics n = fst ` set (subscriptions n)"

text \<open>A new subscription is the next number; its owner gets it when the call succeeds.\<close>

definition add_subscription :: "string \<Rightarrow> notifier \<Rightarrow> notifier" where
  "add_subscription topic n =
     n\<lparr>subscriptions := AList.update topic (subs_of n topic @ [next_sub n]) (subscriptions n),
       next_sub := next_sub n + 1\<rparr>"

definition removeSubscription :: "string \<Rightarrow> nat \<Rightarrow> notifier \<Rightarrow> notifier" where
  "removeSubscription topic sub n =
     (let left = filter (\<lambda>s. s \<noteq> sub) (subs_of n topic)
      in n\<lparr>subscriptions := (if left = [] then AList.delete topic (subscriptions n)
                             else AList.update topic left (subscriptions n))\<rparr>)"

definition listenerClose :: "notifier \<Rightarrow> notifier" where
  "listenerClose n =
     (if \<not> isConnected n then n else n\<lparr>lis := pg_close (lis n), isConnected := False\<rparr>)"

definition listenerConnect :: "string + string \<Rightarrow> notifier \<Rightarrow> string option \<times> notifier" where
  "listenerConnect acquired n =
     (if isConnected n then (None, n)
      else case pg_connect acquired (lis n) of
        (Some e, l) \<Rightarrow> (Some e, n\<lparr>lis := l\<rparr>)
      | (None, l) \<Rightarrow> (None, n\<lparr>lis := l, isConnected := True\<rparr>))"

definition listenerListen :: "string option \<Rightarrow> string \<Rightarrow> notifier \<Rightarrow> string option outcome \<times> notifier" where
  "listenerListen err topic n =
     (case pg_listen err topic (lis n) of (r, l) \<Rightarrow> (r, n\<lparr>lis := l\<rparr>))"

definition listenerUnlisten :: "string option \<Rightarrow> string \<Rightarrow> notifier \<Rightarrow> string option outcome \<times> notifier" where
  "listenerUnlisten err topic n =
     (case pg_unlisten err topic (lis n) of (r, l) \<Rightarrow> (r, n\<lparr>lis := l\<rparr>))"

subsection \<open>Listen and Unlisten\<close>

datatype call_result = Finished "string + nat" | Pending nat | Crashed

text \<open>
  \<^verbatim>\<open>sendInterruptAndReceiveResult\<close> up to the point where it releases the mutex.
\<close>

definition send_interrupt :: "bool \<Rightarrow> string \<Rightarrow> nat \<Rightarrow> notifier \<Rightarrow> call_result \<times> notifier" where
  "send_interrupt listen topic sub n =
     (Pending (next_call n),
      n\<lparr>interrupts := interrupts n @ [(next_call n, listen, topic)],
        calls := \<lparr>cl_id = next_call n, cl_listen = listen, cl_topic = topic, cl_sub = sub,
                  cl_reply = None\<rparr> # calls n,
        next_call := next_call n + 1\<rparr>)"

definition notifier_Listen ::
    "string + string \<Rightarrow> string option \<Rightarrow> string \<Rightarrow> notifier \<Rightarrow> call_result \<times> notifier" where
  "notifier_Listen acquired err topic n =
     (let sub = next_sub n;
          existing = (topic \<in> topics n);
          n1 = add_subscription topic n
      in if existing then (Finished (Inr sub), n1)
         else if isWaiting n1 then send_interrupt True topic sub n1
         else (let justConnected = (\<not> isConnected n1)
               in case listenerConnect acquired n1 of
                    (Some e, n2) \<Rightarrow> (Finished (Inl e), removeSubscription topic sub n2)
                  | (None, n2) \<Rightarrow>
                      (case listenerListen err topic n2 of
                         (Panic _, n3) \<Rightarrow> (Crashed, n3)
                       | (Return (Some e), n3) \<Rightarrow>
                           (let n4 = removeSubscription topic sub n3
                            in (Finished (Inl e),
                                if justConnected \<and> \<not> isStarted n4 then listenerClose n4 else n4))
                       | (Return None, n3) \<Rightarrow> (Finished (Inr sub), n3))))"

definition unlisten ::
    "string option \<Rightarrow> string \<Rightarrow> nat \<Rightarrow> notifier \<Rightarrow> call_result \<times> notifier" where
  "unlisten err topic sub n =
     (if length (subs_of n topic) \<le> 1 then
        (if isWaiting n then send_interrupt False topic sub n
         else if isConnected n then
           (case listenerUnlisten err topic n of
              (Panic _, n1) \<Rightarrow> (Crashed, n1)
            | (Return (Some e), n1) \<Rightarrow> (Finished (Inl e), n1)
            | (Return None, n1) \<Rightarrow>
                (Finished (Inr sub),
                 removeSubscription topic sub
                   (if \<not> isStarted n1 \<and> length (subscriptions n1) \<le> 1 then listenerClose n1 else n1)))
         else (Finished (Inr sub), removeSubscription topic sub n))
      else (Finished (Inr sub), removeSubscription topic sub n))"

text \<open>
  The rest of both calls, when the reply has come or the five seconds are over; the error
  \<open>timed_out\<close> is the latter.
\<close>

definition timed_out :: string where
  "timed_out = ''timed out waiting for interrupt operation''"

definition finish_call :: "call \<Rightarrow> string option \<Rightarrow> notifier \<Rightarrow> call_result \<times> notifier" where
  "finish_call c reply n =
     (let n1 = n\<lparr>calls := filter (\<lambda>d. cl_id d \<noteq> cl_id c) (calls n)\<rparr>
      in if cl_listen c then
           (case reply of
              Some e \<Rightarrow> (Finished (Inl e), removeSubscription (cl_topic c) (cl_sub c) n1)
            | None \<Rightarrow> (Finished (Inr (cl_sub c)), n1))
         else
           (case reply of
              Some e \<Rightarrow> (Finished (Inl e), n1)
            | None \<Rightarrow> (Finished (Inr (cl_sub c)), removeSubscription (cl_topic c) (cl_sub c) n1)))"

subsection \<open>The run loop\<close>

text \<open>
  One interrupt of \<^verbatim>\<open>drainInterrupts\<close>: the operation, then the send of its result on the
  unbuffered channel of the call. When the call has given up nobody receives, and the loop
  blocks in that send for ever.
\<close>

definition run_interrupt :: "string option \<Rightarrow> notifier \<Rightarrow> notifier" where
  "run_interrupt err n =
     (case interrupts n of
        [] \<Rightarrow> n
      | (ident, listen, topic) # rest \<Rightarrow>
          (case (if listen then listenerListen err topic n else listenerUnlisten err topic n) of
             (Panic _, n1) \<Rightarrow> n1\<lparr>interrupts := rest, stuck := True\<rparr>
           | (Return reply, n1) \<Rightarrow>
               if ident \<in> cl_id ` set (calls n1)
               then n1\<lparr>interrupts := rest,
                       calls := update_where (\<lambda>c. cl_id c = ident) (\<lambda>c. c\<lparr>cl_reply := Some reply\<rparr>)
                         (calls n1)\<rparr>
               else n1\<lparr>interrupts := rest, stuck := True\<rparr>))"

text \<open>\<^verbatim>\<open>listenAndWait\<close> up to its wait: connect, take the topics, listen on each of them.\<close>

definition loop_connect :: "string + string \<Rightarrow> notifier \<Rightarrow> notifier" where
  "loop_connect acquired n =
     (case listenerConnect acquired n of
        (Some _, n1) \<Rightarrow> n1
      | (None, n1) \<Rightarrow> n1\<lparr>loop_phase := Relisten (map fst (subscriptions n1))\<rparr>)"

definition loop_relisten :: "string option \<Rightarrow> notifier \<Rightarrow> notifier" where
  "loop_relisten err n =
     (case loop_phase n of
        Relisten [] \<Rightarrow> n\<lparr>loop_phase := Serving\<rparr>
      | Relisten (t # ts) \<Rightarrow>
          (case listenerListen err t n of
             (Return None, n1) \<Rightarrow> n1\<lparr>loop_phase := Relisten ts\<rparr>
           | (_, n1) \<Rightarrow> (listenerClose n1)\<lparr>loop_phase := Idle\<rparr>)
      | _ \<Rightarrow> n)"

text \<open>\<^verbatim>\<open>waitOnce\<close> begins and ends; a notification that arrives meanwhile is buffered if there is room.\<close>

definition wait_begin :: "notifier \<Rightarrow> notifier" where
  "wait_begin n = n\<lparr>isWaiting := True\<rparr>"

definition wait_end :: "notifier \<Rightarrow> notifier" where
  "wait_end n = n\<lparr>isWaiting := False\<rparr>"

definition buffer_cap :: nat where
  "buffer_cap = 1000"

definition receive_notification :: "string \<Rightarrow> string \<Rightarrow> notifier \<Rightarrow> notifier" where
  "receive_notification channel payload n =
     (case l_conn (lis n) of
        None \<Rightarrow> n
      | Some chs \<Rightarrow>
          if channel \<in> chs \<and> length (notificationBuf n) < buffer_cap
          then n\<lparr>notificationBuf := notificationBuf n @ [(notification_topic (lis n) channel, payload)]\<rparr>
          else n)"

text \<open>The loop leaves with an error: the remaining interrupts were drained, the listener is closed.\<close>

definition loop_leave :: "notifier \<Rightarrow> notifier" where
  "loop_leave n = (listenerClose n)\<lparr>loop_phase := Idle\<rparr>"

text \<open>\<^verbatim>\<open>deliverNotifications\<close>: the subscriptions one notification is handed to.\<close>

definition deliver :: "notifier \<Rightarrow> (nat \<times> string \<times> string) list \<times> notifier" where
  "deliver n =
     (case notificationBuf n of
        [] \<Rightarrow> ([], n)
      | (topic, payload) # rest \<Rightarrow>
          (map (\<lambda>s. (s, topic, payload)) (subs_of n topic), n\<lparr>notificationBuf := rest\<rparr>))"

subsection \<open>Steps\<close>

text \<open>
  The interleavings of callers and the run loop, as long as callers keep to one rule: no call
  on a topic starts while another call on that topic still waits for the loop. A subscription
  is unlistened while it is registered, which its \<^verbatim>\<open>sync.Once\<close> ensures.
\<close>

definition in_flight :: "notifier \<Rightarrow> string set" where
  "in_flight n = cl_topic ` set (calls n)"

inductive notifier_step :: "notifier \<Rightarrow> notifier \<Rightarrow> bool" where
  listen: "topic \<notin> in_flight n \<Longrightarrow> notifier_Listen acquired err topic n = (r, n') \<Longrightarrow> notifier_step n n'"
| unlisten: "topic \<notin> in_flight n \<Longrightarrow> sub \<in> set (subs_of n topic) \<Longrightarrow>
    unlisten err topic sub n = (r, n') \<Longrightarrow> notifier_step n n'"
| finish: "c \<in> set (calls n) \<Longrightarrow> cl_reply c = Some reply \<Longrightarrow> finish_call c reply n = (r, n') \<Longrightarrow>
    notifier_step n n'"
| time_out: "c \<in> set (calls n) \<Longrightarrow> cl_reply c = None \<Longrightarrow>
    finish_call c (Some timed_out) n = (r, n') \<Longrightarrow> notifier_step n n'"
| start_run: "notifier_step n (n\<lparr>isStarted := True\<rparr>)"
| stop_run: "loop_phase n = Idle \<Longrightarrow> notifier_step n ((listenerClose n)\<lparr>isStarted := False\<rparr>)"
| connect: "isStarted n \<Longrightarrow> loop_phase n = Idle \<Longrightarrow> notifier_step n (loop_connect acquired n)"
| relisten: "loop_phase n = Relisten ts \<Longrightarrow> notifier_step n (loop_relisten err n)"
| wait: "loop_phase n = Serving \<Longrightarrow> \<not> stuck n \<Longrightarrow> notifier_step n (wait_begin n)"
| wake: "isWaiting n \<Longrightarrow> notifier_step n (wait_end n)"
| interrupt: "loop_phase n = Serving \<Longrightarrow> \<not> isWaiting n \<Longrightarrow> \<not> stuck n \<Longrightarrow>
    notifier_step n (run_interrupt err n)"
| leave: "loop_phase n = Serving \<Longrightarrow> \<not> isWaiting n \<Longrightarrow> \<not> stuck n \<Longrightarrow> interrupts n = [] \<Longrightarrow>
    notifier_step n (loop_leave n)"
| receive: "isWaiting n \<Longrightarrow> notifier_step n (receive_notification channel payload n)"
| delivers: "deliver n = (ds, n') \<Longrightarrow> notifier_step n n'"

inductive_cases notifier_stepE: "notifier_step n n'"

subsection \<open>The invariant\<close>

definition pg_listening :: "pg_listener \<Rightarrow> string \<Rightarrow> bool" where
  "pg_listening l t \<longleftrightarrow> (case l_conn l of None \<Rightarrow> False | Some chs \<Rightarrow> l_prefix l @ t \<in> chs)"

definition listening_on :: "notifier \<Rightarrow> string \<Rightarrow> bool" where
  "listening_on n t \<longleftrightarrow> pg_listening (lis n) t"

text \<open>The session listens on the topic, or the run loop is going to before it serves.\<close>

definition covered :: "notifier \<Rightarrow> string \<Rightarrow> bool" where
  "covered n t \<longleftrightarrow>
     (case loop_phase n of
        Idle \<Rightarrow> True
      | Relisten ts \<Rightarrow> t \<in> set ts \<or> listening_on n t
      | Serving \<Rightarrow> listening_on n t)"

text \<open>An interrupt on the topic is queued whose call has given up.\<close>

definition orphaned :: "notifier \<Rightarrow> string \<Rightarrow> bool" where
  "orphaned n t \<longleftrightarrow>
     (\<exists>x \<in> set (interrupts n). snd (snd x) = t \<and> fst x \<notin> cl_id ` set (calls n))"

definition calls_inv :: "notifier \<Rightarrow> bool" where
  "calls_inv n \<longleftrightarrow>
     distinct (map cl_id (calls n)) \<and> distinct (map cl_topic (calls n)) \<and>
     distinct (map fst (interrupts n)) \<and>
     (\<forall>c \<in> set (calls n). cl_id c < next_call n) \<and>
     (\<forall>x \<in> set (interrupts n). fst x < next_call n) \<and>
     (\<forall>c \<in> set (calls n). \<forall>x \<in> set (interrupts n). fst x = cl_id c \<longrightarrow>
        x = (cl_id c, cl_listen c, cl_topic c) \<and> cl_reply c = None) \<and>
     (\<forall>c \<in> set (calls n). cl_reply c = None \<longrightarrow> cl_id c \<in> fst ` set (interrupts n)) \<and>
     (\<forall>c \<in> set (calls n). set (subs_of n (cl_topic c)) = {cl_sub c})"

definition loop_inv :: "notifier \<Rightarrow> bool" where
  "loop_inv n \<longleftrightarrow>
     distinct (map fst (subscriptions n)) \<and>
     (loop_phase n \<noteq> Idle \<longrightarrow> isConnected n \<and> isStarted n) \<and>
     (isConnected n \<longleftrightarrow> l_conn (lis n) \<noteq> None) \<and>
     (isWaiting n \<longrightarrow> loop_phase n = Serving) \<and>
     (interrupts n \<noteq> [] \<longrightarrow> loop_phase n = Serving)"

definition call_covered :: "notifier \<Rightarrow> call \<Rightarrow> bool" where
  "call_covered n c \<longleftrightarrow>
     ((if cl_listen c then cl_reply c = Some None else cl_reply c \<noteq> Some None) \<longrightarrow>
        covered n (cl_topic c) \<or> orphaned n (cl_topic c))"

definition cover_inv :: "notifier \<Rightarrow> bool" where
  "cover_inv n \<longleftrightarrow>
     (\<forall>t \<in> topics n. covered n t \<or> t \<in> in_flight n \<or> orphaned n t) \<and>
     (\<forall>c \<in> set (calls n). call_covered n c)"

definition notifier_inv :: "notifier \<Rightarrow> bool" where
  "notifier_inv n \<longleftrightarrow> stuck n \<or> calls_inv n \<and> loop_inv n \<and> cover_inv n"

lemmas notifier_inv_defs = notifier_inv_def calls_inv_def loop_inv_def cover_inv_def

lemma topics_alt: "topics n = dom (map_of (subscriptions n))"
  by (simp add: topics_def dom_map_of_conv_image_fst)

lemma add_subscription_simps [simp]:
  "topics (add_subscription t n) = insert t (topics n)"
  "subs_of (add_subscription t n) u = (if u = t then subs_of n t @ [next_sub n] else subs_of n u)"
  "distinct (map fst (subscriptions n)) \<Longrightarrow> distinct (map fst (subscriptions (add_subscription t n)))"
  by (auto simp: add_subscription_def topics_alt subs_of_def update_conv' distinct_update)

lemma removeSubscription_subs:
  "subs_of (removeSubscription t s n) u =
     (if u = t then filter (\<lambda>x. x \<noteq> s) (subs_of n t) else subs_of n u)"
  by (auto simp: removeSubscription_def subs_of_def Let_def update_conv' delete_conv'
      restrict_map_def split: option.splits)

lemma removeSubscription_topics:
  "topics (removeSubscription t s n) =
     (if filter (\<lambda>x. x \<noteq> s) (subs_of n t) = [] then topics n - {t} else topics n)"
  by (auto simp: removeSubscription_def topics_alt subs_of_def Let_def update_conv' delete_conv'
      restrict_map_def split: option.splits if_splits)

lemma removeSubscription_distinct:
  "distinct (map fst (subscriptions n)) \<Longrightarrow>
   distinct (map fst (subscriptions (removeSubscription t s n)))"
  by (simp add: removeSubscription_def Let_def distinct_update distinct_delete)

lemma covered_cong:
  "loop_phase m = loop_phase n \<Longrightarrow> lis m = lis n \<Longrightarrow> covered m u = covered n u"
proof -
  assume "loop_phase m = loop_phase n" "lis m = lis n"
  moreover from this(2) have "listening_on m = listening_on n" by (simp add: listening_on_def fun_eq_iff)
  ultimately show ?thesis by (simp add: covered_def split: phase.split)
qed

lemma subscription_frame [simp]:
  "isConnected (add_subscription t n) = isConnected n"
  "isStarted (add_subscription t n) = isStarted n"
  "isWaiting (add_subscription t n) = isWaiting n"
  "interrupts (add_subscription t n) = interrupts n"
  "calls (add_subscription t n) = calls n" "next_call (add_subscription t n) = next_call n"
  "loop_phase (add_subscription t n) = loop_phase n" "stuck (add_subscription t n) = stuck n"
  "lis (add_subscription t n) = lis n"
  "isConnected (removeSubscription t s n) = isConnected n"
  "isStarted (removeSubscription t s n) = isStarted n"
  "isWaiting (removeSubscription t s n) = isWaiting n"
  "interrupts (removeSubscription t s n) = interrupts n"
  "calls (removeSubscription t s n) = calls n"
  "next_call (removeSubscription t s n) = next_call n"
  "loop_phase (removeSubscription t s n) = loop_phase n"
  "stuck (removeSubscription t s n) = stuck n" "lis (removeSubscription t s n) = lis n"
  by (simp_all add: add_subscription_def removeSubscription_def Let_def)

lemma frame_covered [simp]:
  "covered (add_subscription t n) u = covered n u"
  "covered (removeSubscription t s n) u = covered n u"
  by (rule covered_cong; simp)+

lemma frame_views [simp]:
  "in_flight (add_subscription t n) = in_flight n"
  "orphaned (add_subscription t n) u = orphaned n u"
  "in_flight (removeSubscription t s n) = in_flight n"
  "orphaned (removeSubscription t s n) u = orphaned n u"
  by (simp_all add: in_flight_def orphaned_def)

lemma frame_call_covered [simp]:
  "call_covered (add_subscription t n) c = call_covered n c"
  "call_covered (removeSubscription t s n) c = call_covered n c"
  by (simp_all add: call_covered_def)

lemma subs_of_outside: "t \<notin> topics n \<Longrightarrow> subs_of n t = []"
  by (simp add: subs_of_def topics_alt domIff)

lemma removeSubscription_parts:
  "calls_inv n \<Longrightarrow> t \<notin> in_flight n \<Longrightarrow> calls_inv (removeSubscription t s n)"
  "loop_inv n \<Longrightarrow> loop_inv (removeSubscription t s n)"
proof -
  assume "calls_inv n" "t \<notin> in_flight n"
  moreover have "u \<noteq> t \<Longrightarrow> subs_of (removeSubscription t s n) u = subs_of n u" for u
    by (simp add: removeSubscription_subs)
  moreover have "c \<in> set (calls n) \<Longrightarrow> cl_topic c \<noteq> t" for c
    using calculation(2) by (auto simp: in_flight_def)
  ultimately show "calls_inv (removeSubscription t s n)"
    unfolding calls_inv_def by simp
next
  show "loop_inv n \<Longrightarrow> loop_inv (removeSubscription t s n)"
    by (auto simp: loop_inv_def removeSubscription_distinct)
qed

lemma removeSubscription_inv:
  assumes "notifier_inv n" and "t \<notin> in_flight n"
  shows "notifier_inv (removeSubscription t s n)"
proof -
  have "topics (removeSubscription t s n) \<subseteq> topics n"
    by (auto simp: removeSubscription_topics)
  then have "cover_inv n \<Longrightarrow> cover_inv (removeSubscription t s n)"
    unfolding cover_inv_def by (simp add: subset_iff)
  with assms show ?thesis
    by (auto simp: notifier_inv_def intro: removeSubscription_parts)
qed

text \<open>The invariant, except that nothing is promised of the topic \<open>t\<close>.\<close>

definition inv_but :: "string \<Rightarrow> notifier \<Rightarrow> bool" where
  "inv_but t n \<longleftrightarrow> stuck n \<or> calls_inv n \<and> loop_inv n \<and>
     (\<forall>u \<in> topics n - {t}. covered n u \<or> u \<in> in_flight n \<or> orphaned n u) \<and>
     (\<forall>c \<in> set (calls n). call_covered n c)"

lemma inv_but_weaken: "notifier_inv n \<Longrightarrow> inv_but t n"
  by (auto simp: notifier_inv_def inv_but_def cover_inv_def)

lemma inv_but_covered: "inv_but t n \<Longrightarrow> (\<not> stuck n \<Longrightarrow> covered n t) \<Longrightarrow> notifier_inv n"
  by (auto simp: notifier_inv_def inv_but_def cover_inv_def)

lemma inv_but_remove:
  assumes "inv_but t n" and "filter (\<lambda>x. x \<noteq> s) (subs_of n t) = []" and "t \<notin> in_flight n"
  shows "notifier_inv (removeSubscription t s n)"
proof -
  have "topics (removeSubscription t s n) = topics n - {t}"
    using assms(2) by (simp add: removeSubscription_topics)
  with assms(1,3) show ?thesis
    by (auto simp: inv_but_def notifier_inv_def cover_inv_def intro: removeSubscription_parts)
qed

lemma add_existing_inv:
  "notifier_inv n \<Longrightarrow> t \<in> topics n \<Longrightarrow> t \<notin> in_flight n \<Longrightarrow> notifier_inv (add_subscription t n)"
  by (auto simp: notifier_inv_defs insert_absorb in_flight_def)

lemma add_new_inv_but:
  "notifier_inv n \<Longrightarrow> t \<notin> in_flight n \<Longrightarrow> inv_but t (add_subscription t n)"
  by (auto simp: notifier_inv_defs inv_but_def in_flight_def)

lemma send_interrupt_inv:
  assumes "inv_but t n" and "t \<notin> in_flight n" and "set (subs_of n t) = {s}"
    and "isWaiting n" and "listen \<or> covered n t \<or> orphaned n t"
  shows "notifier_inv (snd (send_interrupt listen t s n))"
proof (cases "stuck n")
  case True
  then show ?thesis by (simp add: send_interrupt_def notifier_inv_def)
next
  case False
  let ?n' = "snd (send_interrupt listen t s n)"
  have ok: "calls_inv n" "loop_inv n" using assms(1) False by (simp_all add: inv_but_def)
  have cov: "covered ?n' u = covered n u" for u
    by (rule covered_cong) (simp_all add: send_interrupt_def)
  have views: "topics ?n' = topics n" "subs_of ?n' u = subs_of n u"
    "in_flight ?n' = insert t (in_flight n)" for u
    by (simp_all add: send_interrupt_def topics_def in_flight_def subs_of_def)
  have "\<forall>x \<in> set (interrupts n). fst x \<noteq> next_call n"
    using ok(1) by (auto simp: calls_inv_def)
  then have orphan: "orphaned ?n' u = orphaned n u" for u
    by (simp add: send_interrupt_def orphaned_def cong: bex_cong)
  have kept: "call_covered ?n' c = call_covered n c" for c
    by (simp add: call_covered_def cov orphan)
  have "calls_inv ?n'"
    using ok assms(2,3)
    by (auto simp: calls_inv_def send_interrupt_def subs_of_def in_flight_def less_Suc_eq)
  moreover have "loop_inv ?n'"
    using ok assms(4) by (auto simp: loop_inv_def send_interrupt_def)
  moreover have "cover_inv ?n'"
    using assms(1,5) False
    by (auto simp: cover_inv_def inv_but_def views cov orphan kept)
      (auto simp: send_interrupt_def call_covered_def)
  ultimately show ?thesis by (simp add: notifier_inv_def)
qed

subsection \<open>Every step keeps the invariant\<close>

lemma listener_frame:
  assumes "listenerListen err t n = (r, n') \<or> listenerUnlisten err t n = (r, n')"
  shows "subscriptions n' = subscriptions n" "isConnected n' = isConnected n"
    "isStarted n' = isStarted n" "isWaiting n' = isWaiting n" "interrupts n' = interrupts n"
    "calls n' = calls n" "next_call n' = next_call n" "loop_phase n' = loop_phase n"
    "stuck n' = stuck n" "l_conn (lis n') = None \<longleftrightarrow> l_conn (lis n) = None"
  using assms
  by (auto simp: listenerListen_def listenerUnlisten_def pg_listen_def pg_unlisten_def
      split: option.splits prod.splits)

lemma listenerListen_covers:
  assumes "listenerListen err t n = (r, n')"
  shows "pg_listening (lis n) u \<Longrightarrow> pg_listening (lis n') u"
    and "r = Return None \<Longrightarrow> pg_listening (lis n') t"
  using assms
  by (auto simp: listenerListen_def pg_listen_def nil_panic_def pg_listening_def
      split: option.splits prod.splits)

lemma listenerUnlisten_covers:
  assumes "listenerUnlisten err t n = (r, n')"
  shows "u \<noteq> t \<Longrightarrow> pg_listening (lis n') u = pg_listening (lis n) u"
    and "r \<noteq> Return None \<Longrightarrow> lis n' = lis n"
  using assms
  by (auto simp: listenerUnlisten_def pg_unlisten_def nil_panic_def pg_listening_def
      split: option.splits prod.splits)

text \<open>
  Steps that change neither subscriptions nor calls nor queued interrupts: only the connection
  and the phase matter.
\<close>

definition same_calls :: "notifier \<Rightarrow> notifier \<Rightarrow> bool" where
  "same_calls m n \<longleftrightarrow> subscriptions m = subscriptions n \<and> interrupts m = interrupts n \<and>
     calls m = calls n \<and> next_call m = next_call n \<and> stuck m = stuck n"

lemma same_calls_views:
  assumes "same_calls m n"
  shows "calls_inv m = calls_inv n" "topics m = topics n" "in_flight m = in_flight n"
    "orphaned m u = orphaned n u" "subs_of m = subs_of n" "calls m = calls n" "stuck m = stuck n"
  using assms
  by (simp_all add: same_calls_def calls_inv_def topics_def in_flight_def orphaned_def subs_of_def
      fun_eq_iff)

lemma inv_but_frame:
  assumes "inv_but t n" and "same_calls m n" and "loop_inv n \<Longrightarrow> loop_inv m"
    and "\<And>u. u \<noteq> t \<Longrightarrow> covered n u \<Longrightarrow> covered m u" and "t \<notin> in_flight n"
  shows "inv_but t m"
proof (cases "stuck n")
  case True
  then show ?thesis using assms(2) by (simp add: inv_but_def same_calls_def)
next
  case False
  note views = same_calls_views [OF assms(2)]
  have "call_covered m c" if "c \<in> set (calls n)" "call_covered n c" for c
    using that assms(4) [of "cl_topic c"] assms(5) views(4) [of "cl_topic c"]
    by (auto simp: call_covered_def in_flight_def)
  with assms False show ?thesis
    by (auto simp: inv_but_def views)
qed

lemma notifier_inv_frame:
  assumes "notifier_inv n" and "same_calls m n" and "loop_inv n \<Longrightarrow> loop_inv m"
    and "\<And>u. covered n u \<Longrightarrow> covered m u"
  shows "notifier_inv m"
proof (cases "stuck n")
  case True
  then show ?thesis using assms(2) by (simp add: notifier_inv_def same_calls_def)
next
  case False
  note views = same_calls_views [OF assms(2)]
  have "call_covered m c" if "call_covered n c" for c
    using that assms(4) [of "cl_topic c"] views(4) [of "cl_topic c"]
    by (auto simp: call_covered_def)
  with assms False show ?thesis
    by (auto simp: notifier_inv_def cover_inv_def views)
qed

lemma idle_covered: "loop_phase n = Idle \<Longrightarrow> covered n u"
  by (simp add: covered_def)

lemma covered_mono:
  assumes "loop_phase m = loop_phase n" and "listening_on n u \<Longrightarrow> listening_on m u"
  shows "covered n u \<Longrightarrow> covered m u"
  using assms by (auto simp: covered_def split: phase.splits)

lemma listenerClose_same: "same_calls (listenerClose n) n" "loop_phase (listenerClose n) = loop_phase n"
  "isStarted (listenerClose n) = isStarted n" "isWaiting (listenerClose n) = isWaiting n"
  by (simp_all add: listenerClose_def same_calls_def)

lemma listenerClose_idle_inv:
  "inv_but t n \<Longrightarrow> t \<notin> in_flight n \<Longrightarrow> \<not> isStarted n \<Longrightarrow> inv_but t (listenerClose n)"
  by (cases "stuck n", simp add: inv_but_def listenerClose_def, rule inv_but_frame [of t n])
    (auto simp: listenerClose_same inv_but_def loop_inv_def listenerClose_def pg_close_def
      same_calls_def intro!: idle_covered)

lemma listenerConnect_inv_but:
  assumes "inv_but t n" and "t \<notin> in_flight n" and "listenerConnect acquired n = (r, n')"
  shows "inv_but t n' \<and> same_calls n' n \<and> loop_phase n' = loop_phase n \<and>
    isWaiting n' = isWaiting n \<and> isStarted n' = isStarted n \<and> (r = None \<longrightarrow> isConnected n' \<or> stuck n')"
proof -
  have same: "same_calls n' n" "loop_phase n' = loop_phase n" "isWaiting n' = isWaiting n"
    "isStarted n' = isStarted n" "r = None \<longrightarrow> isConnected n'"
    using assms(3) by (auto simp: listenerConnect_def same_calls_def split: if_splits prod.splits option.splits)
  have "loop_inv n \<Longrightarrow> loop_inv n'"
    using assms(3) by (auto simp: listenerConnect_def loop_inv_def pg_connect_def
        split: if_splits prod.splits option.splits sum.splits)
  moreover have "covered n' u" if "loop_inv n" "covered n u" for u
  proof (cases "isConnected n")
    case True
    then show ?thesis using that assms(3) by (simp add: listenerConnect_def)
  next
    case False
    then show ?thesis using that same by (auto simp: loop_inv_def intro: idle_covered)
  qed
  ultimately have "inv_but t n'" if "\<not> stuck n"
    using assms(1) that same(1) by (intro inv_but_frame [OF assms(1) same(1) _ _ assms(2)])
      (auto simp: inv_but_def)
  moreover have "inv_but t n'" if "stuck n"
    using that same(1) by (simp add: inv_but_def same_calls_def)
  ultimately show ?thesis using same by blast
qed

lemma listenerListen_inv_but:
  assumes "inv_but t n" and "t \<notin> in_flight n" and "listenerListen err u n = (r, n')"
  shows "inv_but t n' \<and> same_calls n' n \<and> loop_phase n' = loop_phase n \<and>
    isWaiting n' = isWaiting n \<and> isStarted n' = isStarted n"
proof -
  note frame = listener_frame [OF disjI1 [OF assms(3)]]
  have "same_calls n' n" using frame by (simp add: same_calls_def)
  moreover have "loop_inv n \<Longrightarrow> loop_inv n'" using frame by (auto simp: loop_inv_def)
  moreover have "covered n v \<Longrightarrow> covered n' v" for v
    using listenerListen_covers(1) [OF assms(3)] frame(8)
    by (auto intro: covered_mono simp: listening_on_def)
  ultimately show ?thesis using assms(1,2) frame by (auto intro: inv_but_frame)
qed

lemma notifier_Listen_inv:
  assumes inv: "notifier_inv n" and free: "topic \<notin> in_flight n"
    and run: "notifier_Listen acquired err topic n = (r, n')"
  shows "notifier_inv n'"
proof (cases "topic \<in> topics n")
  case True
  then have "n' = add_subscription topic n"
    using run by (simp add: notifier_Listen_def Let_def)
  then show ?thesis using inv True free by (simp add: add_existing_inv)
next
  case new: False
  let ?n1 = "add_subscription topic n"
  have but1: "inv_but topic ?n1" using inv free by (rule add_new_inv_but)
  have subs1: "subs_of ?n1 topic = [next_sub n]" using new by (simp add: subs_of_outside)
  have free1: "topic \<notin> in_flight ?n1" using free by simp
  show ?thesis
  proof (cases "isWaiting n")
    case True
    then have "n' = snd (send_interrupt True topic (next_sub n) ?n1)"
      using run new by (auto simp: notifier_Listen_def Let_def dest: arg_cong [where f = snd])
    then show ?thesis
      using send_interrupt_inv [OF but1 free1, of "next_sub n" True] subs1 True by simp
  next
    case False
    obtain rc n2 where con: "listenerConnect acquired ?n1 = (rc, n2)" by fastforce
    note but2 = listenerConnect_inv_but [OF but1 free1 con]
    have subs2: "subs_of n2 topic = [next_sub n]" "topic \<notin> in_flight n2"
      using but2 subs1 free same_calls_views(3,5) [of n2 ?n1] by simp_all
    obtain rl n3 where lst: "listenerListen err topic n2 = (rl, n3)" by fastforce
    have "inv_but topic n2" using but2 by simp
    note but3 = listenerListen_inv_but [OF this subs2(2) lst]
    have subs3: "subs_of n3 topic = [next_sub n]" "topic \<notin> in_flight n3"
      using but3 subs2 same_calls_views(3,5) [of n3 n2] by simp_all
    show ?thesis
    proof (cases rc)
      case (Some e)
      then have "n' = removeSubscription topic (next_sub n) n2"
        using run new False con by (simp add: notifier_Listen_def Let_def)
      then show ?thesis using but2 subs2 by (simp add: inv_but_remove)
    next
      case None
      show ?thesis
      proof (cases rl)
        case (Panic e)
        then have "lis n3 = lis n2" "n' = n3" "l_conn (lis n2) = None"
          using run new False con None lst
          by (auto simp: notifier_Listen_def Let_def listenerListen_def pg_listen_def
              split: option.splits prod.splits)
        then show ?thesis
          using but2 but3 None listener_frame [OF disjI1 [OF lst]]
          by (auto simp: inv_but_def loop_inv_def notifier_inv_def)
      next
        case (Return e)
        show ?thesis
        proof (cases e)
          case None
          then have "n' = n3" "rl = Return None"
            using run new False con \<open>rc = None\<close> lst Return
            by (simp_all add: notifier_Listen_def Let_def)
          moreover from this(2) have "covered n3 topic"
            using listenerListen_covers(2) [OF lst]
            by (auto simp: covered_def listening_on_def split: phase.split)
          ultimately show ?thesis using but3 by (blast intro: inv_but_covered)
        next
          case (Some x)
          let ?n4 = "removeSubscription topic (next_sub n) n3"
          have four: "notifier_inv ?n4" using but3 subs3 by (simp add: inv_but_remove)
          have "n' = ?n4 \<or> n' = listenerClose ?n4 \<and> \<not> isStarted ?n4"
            using run new False con \<open>rc = None\<close> lst Return Some
            by (auto simp: notifier_Listen_def Let_def split: if_splits)
          then show ?thesis
          proof
            assume n': "n' = listenerClose ?n4 \<and> \<not> isStarted ?n4"
            then have idle: "\<not> isStarted ?n4" ..
            have "inv_but topic (listenerClose ?n4)"
              using inv_but_weaken [OF four] _ idle by (rule listenerClose_idle_inv) (use subs3 in simp)
            moreover have "stuck ?n4 \<or> loop_phase ?n4 = Idle"
              using four idle by (auto simp: notifier_inv_def loop_inv_def)
            then have "covered (listenerClose ?n4) topic" if "\<not> stuck (listenerClose ?n4)"
              using that by (intro idle_covered) (auto simp: listenerClose_same listenerClose_def)
            ultimately show ?thesis using n' by (blast intro: inv_but_covered)
          qed (use four in simp)
        qed
      qed
    qed
  qed
qed

lemma listenerUnlisten_inv_but:
  assumes "notifier_inv n" and "t \<notin> in_flight n" and "listenerUnlisten err t n = (r, n')"
  shows "inv_but t n' \<and> same_calls n' n \<and> loop_phase n' = loop_phase n \<and>
    isStarted n' = isStarted n \<and> (r \<noteq> Return None \<longrightarrow> notifier_inv n')"
proof -
  note frame = listener_frame [OF disjI2 [OF assms(3)]]
  have same: "same_calls n' n" using frame by (simp add: same_calls_def)
  have loop: "loop_inv n \<Longrightarrow> loop_inv n'" using frame by (auto simp: loop_inv_def)
  have cov: "u \<noteq> t \<or> r \<noteq> Return None \<Longrightarrow> covered n u \<Longrightarrow> covered n' u" for u
    using listenerUnlisten_covers(1) [OF assms(3), of u] listenerUnlisten_covers(2) [OF assms(3)]
      frame(8)
    by (auto intro: covered_mono simp: listening_on_def)
  have "inv_but t n'"
    using inv_but_frame [OF inv_but_weaken [OF assms(1)] same loop _ assms(2)] cov by blast
  moreover have "r \<noteq> Return None \<Longrightarrow> notifier_inv n'"
    using notifier_inv_frame [OF assms(1) same loop] cov by blast
  ultimately show ?thesis using same frame by blast
qed

lemma unlisten_inv:
  assumes inv: "notifier_inv n" and free: "topic \<notin> in_flight n" and reg: "sub \<in> set (subs_of n topic)"
    and run: "unlisten err topic sub n = (r, n')"
  shows "notifier_inv n'"
proof (cases "length (subs_of n topic) \<le> 1")
  case False
  then show ?thesis using run inv free by (auto simp: unlisten_def removeSubscription_inv)
next
  case True
  then have one: "subs_of n topic = [sub]" using reg by (cases "subs_of n topic") auto
  then have there: "topic \<in> topics n" using subs_of_outside [of topic n] by auto
  show ?thesis
  proof (cases "isWaiting n")
    case True
    then have "n' = snd (send_interrupt False topic sub n)"
      using run one by (auto simp: unlisten_def dest: arg_cong [where f = snd])
    moreover have "covered n topic \<or> orphaned n topic \<or> stuck n"
      using inv free there by (auto simp: notifier_inv_def cover_inv_def)
    ultimately show ?thesis
      using send_interrupt_inv [OF inv_but_weaken [OF inv] free, of sub False] one True
      by (auto simp: notifier_inv_def send_interrupt_def)
  next
    case False
    show ?thesis
    proof (cases "isConnected n")
      case False
      then show ?thesis
        using run one \<open>\<not> isWaiting n\<close> inv free
        by (auto simp: unlisten_def removeSubscription_inv)
    next
      case True
      obtain ru n1 where un: "listenerUnlisten err topic n = (ru, n1)" by fastforce
      note but = listenerUnlisten_inv_but [OF inv free un]
      have subs1: "subs_of n1 topic = [sub]" "topic \<notin> in_flight n1"
        using but one free same_calls_views(3,5) [of n1 n] by simp_all
      show ?thesis
      proof (cases "ru = Return None")
        case False
        then have "n' = n1"
          using run one \<open>\<not> isWaiting n\<close> True un
          by (cases ru) (auto simp: unlisten_def split: option.splits)
        then show ?thesis using but False by blast
      next
        case ok: True
        let ?n2 = "if \<not> isStarted n1 \<and> length (subscriptions n1) \<le> 1 then listenerClose n1 else n1"
        have "n' = removeSubscription topic sub ?n2"
          using run one \<open>\<not> isWaiting n\<close> True un ok by (simp add: unlisten_def)
        moreover have "inv_but topic ?n2"
          using but subs1(2) listenerClose_idle_inv [of topic n1] by simp
        moreover have "subs_of ?n2 topic = [sub]"
          using subs1(1) same_calls_views(5) [OF listenerClose_same(1), of n1] by simp
        moreover have "topic \<notin> in_flight ?n2"
          using subs1(2) same_calls_views(3) [OF listenerClose_same(1), of n1] by simp
        ultimately show ?thesis by (simp add: inv_but_remove)
      qed
    qed
  qed
qed

lemma finish_call_inv:
  assumes inv: "notifier_inv n" and c: "c \<in> set (calls n)"
    and reply: "cl_reply c = Some reply \<or> cl_reply c = None \<and> reply = Some e"
    and run: "finish_call c reply n = (r, n')"
  shows "notifier_inv n'"
proof (cases "stuck n")
  case True
  then show ?thesis
    using run by (auto simp: finish_call_def notifier_inv_def Let_def split: if_splits option.splits)
next
  case False
  let ?t = "cl_topic c"
  let ?n1 = "n\<lparr>calls := filter (\<lambda>d. cl_id d \<noteq> cl_id c) (calls n)\<rparr>"
  have parts: "calls_inv n" "loop_inv n" "cover_inv n" using inv False by (simp_all add: notifier_inv_def)
  have ids: "distinct (map cl_id (calls n))" "distinct (map cl_topic (calls n))"
    using parts(1) by (simp_all add: calls_inv_def)
  have left: "d \<in> set (calls ?n1) \<longleftrightarrow> d \<in> set (calls n) \<and> d \<noteq> c" for d
    using c ids(1) distinct_key_unique [of cl_id] by auto
  have flight: "u \<in> in_flight n \<Longrightarrow> u \<noteq> ?t \<Longrightarrow> u \<in> in_flight ?n1" for u
    using left by (auto simp: in_flight_def)
  have cov: "covered ?n1 u = covered n u" for u
    by (rule covered_cong) simp_all
  have orphan: "orphaned n u \<Longrightarrow> orphaned ?n1 u" for u
    by (auto simp: orphaned_def)
  have topics1: "topics ?n1 = topics n" "subs_of ?n1 = subs_of n"
    by (simp_all add: topics_def subs_of_def fun_eq_iff)
  have "calls_inv ?n1"
    using parts(1) ids by (auto simp: calls_inv_def topics1 distinct_map_filter)
  moreover have "loop_inv ?n1" using parts(2) by (auto simp: loop_inv_def)
  moreover have "call_covered ?n1 d" if "d \<in> set (calls n)" for d
    using parts(3) that orphan by (auto simp: cover_inv_def call_covered_def cov)
  moreover have "covered ?n1 u \<or> u \<in> in_flight ?n1 \<or> orphaned ?n1 u" if "u \<in> topics n" "u \<noteq> ?t" for u
    using parts(3) that flight orphan by (auto simp: cover_inv_def cov)
  ultimately have but: "inv_but ?t ?n1"
    using left by (auto simp: inv_but_def topics1)
  have "set (subs_of n ?t) = {cl_sub c}" using parts(1) c by (simp add: calls_inv_def)
  then have gone: "filter (\<lambda>x. x \<noteq> cl_sub c) (subs_of ?n1 ?t) = []"
    by (auto simp: topics1 filter_empty_conv)
  have "?t \<notin> in_flight ?n1"
    using left ids(2) c distinct_key_unique [of cl_topic "calls n"] by (auto simp: in_flight_def)
  note removed = inv_but_remove [OF but gone this]
  have "covered ?n1 ?t \<or> orphaned ?n1 ?t" if "cl_listen c = (reply = None)"
  proof (cases "cl_reply c")
    case None
    then have late: "\<not> cl_listen c" using reply that by simp
    have "call_covered n c" using parts(3) c by (simp add: cover_inv_def)
    then show ?thesis using late None orphan by (auto simp: call_covered_def cov)
  next
    case (Some x)
    then have "x = reply" using reply by simp
    moreover have "call_covered n c" using parts(3) c by (simp add: cover_inv_def)
    ultimately show ?thesis using Some that orphan by (auto simp: call_covered_def cov)
  qed
  then have kept: "notifier_inv ?n1" if "cl_listen c = (reply = None)"
    using but that False by (auto simp: inv_but_def notifier_inv_def cover_inv_def)
  show ?thesis
    using run removed kept by (auto simp: finish_call_def Let_def split: if_splits option.splits)
qed

text \<open>The interrupt at the head of the queue is run for a call that still waits.\<close>

lemma run_interrupt_inv:
  assumes inv: "notifier_inv n" and phase: "loop_phase n = Serving"
  shows "notifier_inv (run_interrupt err n)"
proof (cases "stuck n \<or> interrupts n = []")
  case True
  then show ?thesis
    using inv by (auto simp: run_interrupt_def notifier_inv_def
        split: prod.split list.split outcome.split dest: listener_frame(9) [OF disjI1] listener_frame(9) [OF disjI2])
next
  case False
  then obtain ident listen topic rest where q: "interrupts n = (ident, listen, topic) # rest"
    by (cases "interrupts n") auto
  have parts: "calls_inv n" "loop_inv n" "cover_inv n" using inv False by (simp_all add: notifier_inv_def)
  obtain r n1 where op: "(if listen then listenerListen err topic n else listenerUnlisten err topic n) = (r, n1)"
    by fastforce
  have or: "listenerListen err topic n = (r, n1) \<or> listenerUnlisten err topic n = (r, n1)"
    using op by (auto split: if_splits)
  note frame = listener_frame [OF or]
  show ?thesis
  proof (cases "\<exists>reply. r = Return reply \<and> ident \<in> cl_id ` set (calls n)")
    case False
    then have "stuck (run_interrupt err n)"
      using q op frame by (auto simp: run_interrupt_def split: outcome.split)
    then show ?thesis by (simp add: notifier_inv_def)
  next
    case True
    then obtain reply c where r: "r = Return reply" and c: "c \<in> set (calls n)" "cl_id c = ident"
      by auto
    have cc: "cl_listen c = listen" "cl_topic c = topic" "cl_reply c = None"
      using parts(1) c q by (auto simp: calls_inv_def)
    let ?f = "\<lambda>d. d\<lparr>cl_reply := Some reply\<rparr>"
    let ?n' = "run_interrupt err n"
    have res: "?n' = n1\<lparr>interrupts := rest,
        calls := update_where (\<lambda>c. cl_id c = ident) ?f (calls n)\<rparr>"
      using q op frame r c by (auto simp: run_interrupt_def)
    have same_keys: "map cl_id (calls ?n') = map cl_id (calls n)"
        "map cl_topic (calls ?n') = map cl_topic (calls n)"
      by (simp_all add: res map_update_where)
    have unique: "d = c" if "d \<in> set (calls n)" "cl_id d = ident \<or> cl_topic d = topic" for d
      using parts(1) that c cc distinct_key_unique [of cl_id] distinct_key_unique [of cl_topic]
      by (auto simp: calls_inv_def)
    have ids: "distinct (ident # map fst rest)" using parts(1) q by (auto simp: calls_inv_def)
    have members: "set (calls ?n') = insert (?f c) (set (calls n) - {c})"
    proof -
      have "(cl_id d = ident) = (d = c)" if "d \<in> set (calls n)" for d using unique that c by blast
      then have "update_where (\<lambda>c. cl_id c = ident) ?f (calls n) =
          update_where (\<lambda>d. d = c) ?f (calls n)"
        by (rule update_where_cong)
      then show ?thesis using c(1) by (simp add: res set_update_where_one)
    qed
    have views: "topics ?n' = topics n" "subs_of ?n' = subs_of n" "in_flight ?n' = in_flight n"
      using frame same_keys(2) by (simp_all add: res topics_def subs_of_def fun_eq_iff in_flight_def
          flip: set_map)
    have orphan: "orphaned ?n' u = orphaned n u" for u
    proof -
      have "cl_id ` set (calls ?n') = cl_id ` set (calls n)" using same_keys(1) by (metis set_map)
      then show ?thesis using q c by (auto simp: orphaned_def res)
    qed
    have cov: "covered ?n' u" if "covered n u" "u \<noteq> topic \<or> listen \<or> reply \<noteq> None" for u
    proof -
      have "pg_listening (lis n) u \<Longrightarrow> pg_listening (lis n1) u"
        using op that(2) r listenerListen_covers(1) [of err topic n r n1 u]
          listenerUnlisten_covers [of err topic n r n1] by (cases listen) auto
      then show ?thesis
        using that(1) phase frame by (auto simp: covered_def listening_on_def res)
    qed
    have now: "covered ?n' topic" if "listen" "reply = None"
      using op that r listenerListen_covers(2) [of err topic n r n1] phase frame
      by (auto simp: covered_def listening_on_def res)
    have notin: "(ident, a, b) \<notin> set rest" for a b using ids by (auto simp: rev_image_eqI)
    have diff: "cl_id d \<noteq> ident" if "d \<in> set (calls n)" "d \<noteq> c" for d using unique that by blast
    have old: "\<forall>d \<in> set (calls n). cl_id d < next_call n"
        "\<forall>x \<in> set rest. fst x < next_call n"
        "\<forall>d \<in> set (calls n). \<forall>x \<in> set rest. fst x = cl_id d \<longrightarrow>
           x = (cl_id d, cl_listen d, cl_topic d) \<and> cl_reply d = None"
        "\<forall>d \<in> set (calls n). cl_reply d = None \<longrightarrow> cl_id d \<in> fst ` set (interrupts n)"
        "\<forall>d \<in> set (calls n). set (subs_of n (cl_topic d)) = {cl_sub d}"
        "distinct (map cl_id (calls n))" "distinct (map cl_topic (calls n))"
      using parts(1) q unfolding calls_inv_def by simp_all
    have new: "interrupts ?n' = rest" "next_call ?n' = next_call n" using frame by (simp_all add: res)
    have "calls_inv ?n'"
      unfolding calls_inv_def same_keys views members new
    proof (intro conjI)
      show "\<forall>d \<in> insert (?f c) (set (calls n) - {c}). \<forall>x \<in> set rest. fst x = cl_id d \<longrightarrow>
          x = (cl_id d, cl_listen d, cl_topic d) \<and> cl_reply d = None"
        using old(3) notin c by auto
      show "\<forall>d \<in> insert (?f c) (set (calls n) - {c}). cl_reply d = None \<longrightarrow> cl_id d \<in> fst ` set rest"
        using old(4) diff q by auto
    qed (use old ids c in auto)
    moreover have "loop_inv ?n'"
      using parts(2) frame phase by (auto simp: loop_inv_def res)
    moreover have "call_covered ?n' d" if "d \<in> set (calls n) - {c}" for d
    proof -
      have "cl_topic d \<noteq> topic" using unique [of d] that by blast
      then have "covered n (cl_topic d) \<Longrightarrow> covered ?n' (cl_topic d)" using cov by blast
      moreover have "call_covered n d" using parts(3) that by (simp add: cover_inv_def)
      ultimately show ?thesis by (auto simp: call_covered_def orphan)
    qed
    moreover have "call_covered ?n' (?f c)"
      using parts(3) c cc cov [of topic] now orphan by (auto simp: cover_inv_def call_covered_def)
    moreover have "covered ?n' u \<or> u \<in> in_flight n \<or> orphaned n u" if "u \<in> topics n" for u
      using parts(3) that cov [of u] c cc by (auto simp: cover_inv_def in_flight_def)
    ultimately show ?thesis
      by (auto simp: notifier_inv_def cover_inv_def members views orphan)
  qed
qed

lemma loop_connect_inv:
  assumes inv: "notifier_inv n" and idle: "loop_phase n = Idle" and started: "isStarted n"
  shows "notifier_inv (loop_connect acquired n)"
proof (cases "stuck n")
  case True
  then show ?thesis
    by (auto simp: loop_connect_def listenerConnect_def notifier_inv_def split: prod.split option.split)
next
  case False
  let ?n = "loop_connect acquired n"
  have parts: "calls_inv n" "loop_inv n" using inv False by (simp_all add: notifier_inv_def)
  have same: "same_calls ?n n"
    by (auto simp: loop_connect_def listenerConnect_def same_calls_def split: prod.split option.split)
  have loop: "loop_inv ?n"
    using parts idle started
    by (auto simp: loop_connect_def listenerConnect_def pg_connect_def loop_inv_def
        split: prod.splits option.splits sum.splits if_splits)
  have cov: "u \<in> topics n \<Longrightarrow> covered ?n u" for u
    using idle by (auto simp: loop_connect_def listenerConnect_def covered_def topics_def
        split: prod.split option.split)
  note views = same_calls_views [OF same]
  have "cl_topic c \<in> topics n" if "c \<in> set (calls n)" for c
  proof -
    have "set (subs_of n (cl_topic c)) = {cl_sub c}" using parts(1) that by (simp add: calls_inv_def)
    then show ?thesis using subs_of_outside [of "cl_topic c" n] by force
  qed
  then have "call_covered ?n c" if "c \<in> set (calls n)" for c
    using cov that by (simp add: call_covered_def)
  then show ?thesis
    using False parts(1) loop cov by (auto simp: notifier_inv_def cover_inv_def views)
qed

lemma loop_relisten_inv:
  assumes inv: "notifier_inv n" and phase: "loop_phase n = Relisten ts"
  shows "notifier_inv (loop_relisten err n)"
proof (cases ts)
  case Nil
  then show ?thesis
    using phase by (intro notifier_inv_frame [OF inv])
      (auto simp: loop_relisten_def same_calls_def loop_inv_def covered_def listening_on_def)
next
  case (Cons t rest)
  obtain r n1 where l: "listenerListen err t n = (r, n1)" by fastforce
  note frame = listener_frame [OF disjI1 [OF l]]
  show ?thesis
  proof (cases "r = Return None")
    case True
    then have res: "loop_relisten err n = n1\<lparr>loop_phase := Relisten rest\<rparr>"
      using phase Cons l by (simp add: loop_relisten_def)
    show ?thesis
    proof (rule notifier_inv_frame [OF inv])
      show "same_calls (loop_relisten err n) n" using frame by (simp add: res same_calls_def)
      show "loop_inv n \<Longrightarrow> loop_inv (loop_relisten err n)"
        using frame phase by (auto simp: res loop_inv_def)
      show "covered n u \<Longrightarrow> covered (loop_relisten err n) u" for u
        using phase Cons listenerListen_covers [OF l] True
        by (auto simp: res covered_def listening_on_def)
    qed
  next
    case False
    then have res: "loop_relisten err n = (listenerClose n1)\<lparr>loop_phase := Idle\<rparr>"
      using phase Cons l by (cases r) (auto simp: loop_relisten_def split: option.splits)
    show ?thesis
    proof (rule notifier_inv_frame [OF inv])
      show "same_calls (loop_relisten err n) n"
        using frame by (simp add: res same_calls_def listenerClose_def)
      show "loop_inv n \<Longrightarrow> loop_inv (loop_relisten err n)"
        using frame phase by (auto simp: res loop_inv_def listenerClose_def pg_close_def)
      show "covered (loop_relisten err n) u" for u by (simp add: res idle_covered)
    qed
  qed
qed

lemma notifier_step_inv:
  assumes "notifier_step n n'" and inv: "notifier_inv n"
  shows "notifier_inv n'"
  using assms(1)
proof (cases rule: notifier_step.cases)
  case (listen topic acquired err r)
  then show ?thesis using inv by (blast intro: notifier_Listen_inv)
next
  case (unlisten topic sub err r)
  then show ?thesis using inv by (blast intro: unlisten_inv)
next
  case (finish c reply r)
  then show ?thesis using inv by (blast intro: finish_call_inv)
next
  case (time_out c r)
  then show ?thesis using inv by (blast intro: finish_call_inv)
next
  case start_run
  then show ?thesis
    by (auto simp: same_calls_def loop_inv_def covered_def listening_on_def
        intro!: notifier_inv_frame [OF inv] split: phase.splits)
next
  case stop_run
  then show ?thesis
    by (auto simp: same_calls_def loop_inv_def listenerClose_def pg_close_def
        intro!: notifier_inv_frame [OF inv] idle_covered)
next
  case (connect acquired)
  then show ?thesis using inv by (simp add: loop_connect_inv)
next
  case (relisten ts err)
  then show ?thesis using inv by (simp add: loop_relisten_inv)
next
  case wait
  then show ?thesis
    by (auto simp: same_calls_def loop_inv_def wait_begin_def covered_def listening_on_def
        intro!: notifier_inv_frame [OF inv])
next
  case wake
  then show ?thesis
    by (auto simp: same_calls_def loop_inv_def wait_end_def covered_def listening_on_def
        intro!: notifier_inv_frame [OF inv] split: phase.splits)
next
  case (interrupt err)
  then show ?thesis using inv by (simp add: run_interrupt_inv)
next
  case leave
  then show ?thesis
    by (auto simp: same_calls_def loop_inv_def loop_leave_def listenerClose_def pg_close_def
        intro!: notifier_inv_frame [OF inv] idle_covered)
next
  case (receive channel payload)
  then show ?thesis
    by (auto simp: same_calls_def loop_inv_def receive_notification_def covered_def listening_on_def
        intro!: notifier_inv_frame [OF inv] split: option.splits phase.splits)
next
  case (delivers ds)
  then show ?thesis
    by (auto simp: same_calls_def loop_inv_def deliver_def covered_def listening_on_def
        intro!: notifier_inv_frame [OF inv] split: list.splits phase.splits)
qed

lemma new_notifier_inv: "notifier_inv new_notifier"
  by (simp add: notifier_inv_defs new_notifier_def topics_def)

lemma notifier_steps_inv: "notifier_step\<^sup>*\<^sup>* new_notifier n \<Longrightarrow> notifier_inv n"
  by (induction rule: rtranclp_induct) (auto intro: new_notifier_inv notifier_step_inv)

lemma notifier_steps_trans:
  "notifier_step\<^sup>*\<^sup>* m n \<Longrightarrow> notifier_step n n' \<Longrightarrow> notifier_step\<^sup>*\<^sup>* m n'"
  by (rule rtranclp.rtrancl_into_rtrancl)

subsection \<open>Properties\<close>


text \<open>A notifier that listened on one topic, was started and came to serve.\<close>

definition served_one :: notifier where
  "served_one = loop_relisten None (loop_relisten None (loop_connect (Inr ''public'')
     ((snd (notifier_Listen (Inr ''public'') None ''t'' new_notifier))\<lparr>isStarted := True\<rparr>)))"

lemma served_one_steps: "notifier_step\<^sup>*\<^sup>* new_notifier served_one"
proof -
  let ?n1 = "snd (notifier_Listen (Inr ''public'') None ''t'' new_notifier)"
  let ?n2 = "?n1\<lparr>isStarted := True\<rparr>"
  let ?n3 = "loop_connect (Inr ''public'') ?n2"
  note ops = notifier_Listen_def new_notifier_def add_subscription_def topics_def subs_of_def Let_def
    listenerConnect_def pg_connect_def listenerListen_def pg_listen_def in_flight_def
    loop_connect_def loop_relisten_def
  have "notifier_step new_notifier ?n1"
    by (rule notifier_step.listen [OF _ prod.collapse [symmetric]]) (simp add: ops)
  then have "notifier_step\<^sup>*\<^sup>* new_notifier ?n1" by (rule r_into_rtranclp)
  then have "notifier_step\<^sup>*\<^sup>* new_notifier ?n2" using notifier_step.start_run by (rule notifier_steps_trans)
  moreover have "notifier_step ?n2 ?n3" by (rule notifier_step.connect) (simp_all add: ops)
  ultimately have "notifier_step\<^sup>*\<^sup>* new_notifier ?n3" by (rule notifier_steps_trans)
  moreover have "notifier_step ?n3 (loop_relisten None ?n3)"
    by (rule notifier_step.relisten [where ts = "[''t'']"]) (simp add: ops)
  ultimately have "notifier_step\<^sup>*\<^sup>* new_notifier (loop_relisten None ?n3)" by (rule notifier_steps_trans)
  moreover have "notifier_step (loop_relisten None ?n3) (loop_relisten None (loop_relisten None ?n3))"
    by (rule notifier_step.relisten [where ts = "[]"]) (simp add: ops)
  ultimately show ?thesis unfolding served_one_def by (rule notifier_steps_trans)
qed

lemma served_one_eq:
  "served_one = \<lparr>subscriptions = [(''t'', [0])], next_sub = 1, isConnected = True, isStarted = True,
     isWaiting = False, interrupts = [], calls = [], next_call = 0, loop_phase = Serving,
     stuck = False, lis = \<lparr>l_conn = Some {''public.t''}, l_prefix = ''public.''\<rparr>, notificationBuf = []\<rparr>"
  by (simp add: served_one_def notifier_Listen_def new_notifier_def add_subscription_def topics_def
      subs_of_def Let_def listenerConnect_def pg_connect_def listenerListen_def pg_listen_def
      loop_connect_def loop_relisten_def)


text \<open>A Listen that reports an error leaves every topic and every subscription as it was.\<close>

lemma failed_listen_subscribes_nothing:
  assumes "notifier_Listen acquired err topic n = (Finished (Inl e), n')"
  shows "topic \<notin> topics n \<and> topics n' = topics n \<and> subs_of n' = subs_of n"
proof -
  have undo: "topics m = insert topic (topics n) \<Longrightarrow> subs_of m = subs_of (add_subscription topic n) \<Longrightarrow>
      topic \<notin> topics n \<Longrightarrow> topics (removeSubscription topic (next_sub n) m) = topics n \<and>
      subs_of (removeSubscription topic (next_sub n) m) = subs_of n" for m
    by (auto simp: removeSubscription_topics removeSubscription_subs subs_of_outside fun_eq_iff)
  have frame: "subscriptions m = subscriptions m' \<Longrightarrow> topics m = topics m' \<and> subs_of m = subs_of m'"
    for m m' by (simp add: topics_def subs_of_def fun_eq_iff)
  have con: "listenerConnect acquired m = (rc, m') \<Longrightarrow> topics m' = topics m \<and> subs_of m' = subs_of m"
    for m rc m'
    by (rule frame) (auto simp: listenerConnect_def split: if_splits prod.splits option.splits)
  have lst: "listenerListen err topic m = (rl, m') \<Longrightarrow> topics m' = topics m \<and> subs_of m' = subs_of m"
    for m rl m'
    by (rule frame) (auto simp: listenerListen_def split: prod.splits)
  have cls: "topics (listenerClose m) = topics m \<and> subs_of (listenerClose m) = subs_of m" for m
    by (rule frame) (simp add: listenerClose_def)
  show ?thesis
    using assms con lst undo cls
    by (fastforce simp: notifier_Listen_def send_interrupt_def Let_def split: if_splits prod.splits
        option.splits outcome.splits)
qed

text \<open>What a blocked run loop leaves: nobody waits for notifications, and none is ever buffered.\<close>

definition silent :: "(string \<times> string) list \<Rightarrow> notifier \<Rightarrow> bool" where
  "silent old n \<longleftrightarrow> stuck n \<and> \<not> isWaiting n \<and> set (notificationBuf n) \<subseteq> set old"

lemma silent_frame:
  "silent old (add_subscription t n) = silent old n"
  "silent old (removeSubscription t s n) = silent old n"
  "silent old (listenerClose n) = silent old n"
  "listenerConnect acquired n = (rc, n') \<Longrightarrow> silent old n' = silent old n"
  "listenerListen err t n = (r, n') \<Longrightarrow> silent old n' = silent old n"
  "listenerUnlisten err t n = (r, n') \<Longrightarrow> silent old n' = silent old n"
  "silent old n \<Longrightarrow> silent old (snd (send_interrupt l t s n))"
  by (auto simp: silent_def add_subscription_def removeSubscription_def listenerClose_def
      listenerConnect_def listenerListen_def listenerUnlisten_def send_interrupt_def Let_def
      split: if_splits prod.splits option.splits)

lemma silent_operations:
  assumes "silent old n"
  shows "notifier_Listen acquired err t n = (r, n') \<Longrightarrow> silent old n'"
    and "unlisten err t s n = (r, n') \<Longrightarrow> silent old n'"
    and "finish_call c reply n = (r, n') \<Longrightarrow> silent old n'"
    and "silent old (loop_connect acquired n)"
    and "silent old (loop_relisten err n)"
    and "deliver n = (ds, n') \<Longrightarrow> silent old n'"
proof -
  have "\<not> isWaiting n" using assms by (simp add: silent_def)
  then show "notifier_Listen acquired err t n = (r, n') \<Longrightarrow> silent old n'"
    using assms
    by (auto simp: notifier_Listen_def Let_def silent_frame split: if_splits prod.splits option.splits
        outcome.splits)
  show "unlisten err t s n = (r, n') \<Longrightarrow> silent old n'"
    using assms \<open>\<not> isWaiting n\<close>
    by (auto simp: unlisten_def silent_frame split: if_splits prod.splits option.splits
        outcome.splits)
  have "silent old (n\<lparr>calls := cs\<rparr>)" for cs using assms by (simp add: silent_def)
  then show "finish_call c reply n = (r, n') \<Longrightarrow> silent old n'"
    by (auto simp: finish_call_def Let_def silent_frame split: if_splits option.splits)
  show "silent old (loop_connect acquired n)"
    using assms silent_frame(4) [of acquired n _ _ old]
    by (auto simp: loop_connect_def silent_def split: prod.split option.split)
  have "silent old n1 \<Longrightarrow> silent old (n1\<lparr>loop_phase := p\<rparr>)" for n1 p by (simp add: silent_def)
  then show "silent old (loop_relisten err n)"
    using assms by (auto simp: loop_relisten_def silent_frame
        split: phase.split list.split prod.split outcome.split option.split)
  show "deliver n = (ds, n') \<Longrightarrow> silent old n'"
    using assms by (auto simp: deliver_def silent_def split: list.splits)
qed

lemma silent_step:
  assumes "notifier_step m m'" and silent: "silent old m"
  shows "silent old m'"
  using assms(1)
proof (cases rule: notifier_step.cases)
  case stop_run
  have "silent old (listenerClose m)" using silent by (simp add: silent_frame)
  then show ?thesis using stop_run by (simp add: silent_def)
next
  case wait
  then show ?thesis using silent by (simp add: silent_def)
next
  case wake
  then show ?thesis using silent by (simp add: silent_def)
next
  case (interrupt err)
  then show ?thesis using silent by (simp add: silent_def)
next
  case leave
  then show ?thesis using silent by (simp add: silent_def)
next
  case (receive channel payload)
  then show ?thesis using silent by (simp add: silent_def)
next
  case start_run
  then show ?thesis using silent by (simp add: silent_def)
next
  case (listen topic acquired err r)
  show ?thesis using listen(2) by (rule silent_operations(1) [OF silent])
next
  case (unlisten topic sub err r)
  show ?thesis using unlisten(3) by (rule silent_operations(2) [OF silent])
next
  case (finish c reply r)
  show ?thesis using finish(3) by (rule silent_operations(3) [OF silent])
next
  case (time_out c r)
  show ?thesis using time_out(3) by (rule silent_operations(3) [OF silent])
next
  case (connect acquired)
  then show ?thesis using silent_operations(4) [OF silent] by simp
next
  case (relisten ts err)
  then show ?thesis using silent_operations(5) [OF silent] by simp
next
  case (delivers ds)
  show ?thesis using delivers(1) by (rule silent_operations(6) [OF silent])
qed

text \<open>A call that gives up after its five seconds leaves its interrupt behind; when the run loop
  gets to it, it blocks for ever sending the result to nobody, and from then on no notification
  is received by anyone, whatever else happens.\<close>

lemma timed_out_call_silences_notifier:
  assumes "cl_id c = ident" and "interrupts n = (ident, listen, topic) # rest"
    and "\<not> isWaiting n"
    and "notifier_step\<^sup>*\<^sup>* (run_interrupt err (snd (finish_call c (Some timed_out) n))) m"
  shows "stuck m \<and> \<not> isWaiting m \<and> set (notificationBuf m) \<subseteq> set (notificationBuf n)"
proof -
  let ?n1 = "snd (finish_call c (Some timed_out) n)"
  have gone: "ident \<notin> cl_id ` set (calls ?n1)" "interrupts ?n1 = (ident, listen, topic) # rest"
    "isWaiting ?n1 = isWaiting n" "notificationBuf ?n1 = notificationBuf n"
    using assms(1,2) by (auto simp: finish_call_def removeSubscription_def Let_def)
  obtain r n2 where op:
    "(if listen then listenerListen err topic ?n1 else listenerUnlisten err topic ?n1) = (r, n2)"
    by fastforce
  then have "notificationBuf n2 = notificationBuf ?n1 \<and> isWaiting n2 = isWaiting ?n1 \<and>
      calls n2 = calls ?n1"
    by (cases listen) (auto simp: listenerListen_def listenerUnlisten_def split: prod.splits)
  moreover have "run_interrupt err ?n1 = n2\<lparr>interrupts := rest, stuck := True\<rparr>"
    using op gone calculation by (cases r) (simp_all add: run_interrupt_def)
  ultimately have "silent (notificationBuf n) (run_interrupt err ?n1)"
    using gone assms(3) by (simp add: silent_def)
  with assms(4) have "silent (notificationBuf n) m"
    by (induction rule: rtranclp_induct) (auto intro: silent_step)
  then show ?thesis by (simp add: silent_def)
qed

text \<open>The rule on overlapping calls is needed: a Listen on a topic whose last subscription is being
  unlistened succeeds without listening, and once both calls are done there is a subscription
  that is never notified, although the run loop serves and nothing failed.\<close>

lemma listen_during_unlisten_is_deaf:
  "let n1 = snd (unlisten None ''t'' 0 (wait_begin served_one));
       n2 = snd (notifier_Listen (Inr ''public'') None ''t'' n1);
       n3 = run_interrupt None (wait_end n2);
       n4 = snd (finish_call (hd (calls n3)) None n3)
   in fst (notifier_Listen (Inr ''public'') None ''t'' n1) = Finished (Inr 1) \<and>
      subs_of n4 ''t'' = [1] \<and> calls n4 = [] \<and> interrupts n4 = [] \<and> loop_phase n4 = Serving \<and>
      \<not> stuck n4 \<and> \<not> listening_on n4 ''t''"
proof -
  let ?call = "\<lparr>cl_id = 0, cl_listen = False, cl_topic = ''t'', cl_sub = 0, cl_reply = None\<rparr>"
  let ?n1 = "served_one\<lparr>isWaiting := True, interrupts := [(0, False, ''t'')], calls := [?call], next_call := 1\<rparr>"
  let ?n2 = "?n1\<lparr>subscriptions := [(''t'', [0, 1])], next_sub := 2\<rparr>"
  let ?n3 = "?n2\<lparr>isWaiting := False, interrupts := [], calls := [?call\<lparr>cl_reply := Some None\<rparr>],
    lis := \<lparr>l_conn = Some {}, l_prefix = ''public.''\<rparr>\<rparr>"
  let ?n4 = "?n3\<lparr>calls := [], subscriptions := [(''t'', [1])]\<rparr>"
  have one: "snd (unlisten None ''t'' 0 (wait_begin served_one)) = ?n1"
    by (simp add: unlisten_def wait_begin_def served_one_eq subs_of_def send_interrupt_def)
  have two: "notifier_Listen (Inr ''public'') None ''t'' ?n1 = (Finished (Inr 1), ?n2)"
    by (simp add: notifier_Listen_def served_one_eq topics_def Let_def add_subscription_def subs_of_def)
  have three: "run_interrupt None (wait_end ?n2) = ?n3"
    by (simp add: run_interrupt_def wait_end_def served_one_eq listenerUnlisten_def pg_unlisten_def)
  have four: "snd (finish_call (hd (calls ?n3)) None ?n3) = ?n4"
    by (simp add: finish_call_def removeSubscription_def subs_of_def served_one_eq Let_def)
  have five: "subs_of ?n4 ''t'' = [1]" "calls ?n4 = []" "interrupts ?n4 = []"
    "loop_phase ?n4 = Serving" "\<not> stuck ?n4" "\<not> listening_on ?n4 ''t''"
    by (simp_all add: subs_of_def served_one_eq listening_on_def pg_listening_def)
  show ?thesis
    unfolding one Let_def two fst_conv snd_conv three four using five by blast
qed

end
