(* ===== verification/Start_Stop.thy ===== *)
theory Start_Stop
  imports Maos_Prelude
begin

text \<open>
  \<^verbatim>\<open>internal/startstop/start_stop.go\<close>: the helper that services embed to be started and stopped
  safely. Channels are numbers, closed ones are collected in a set; closing a nil or a closed
  channel panics. \<^verbatim>\<open>StopInit\<close> returns with the mutex held and \<^verbatim>\<open>finalizeStop\<close> releases it, so the
  holder of the mutex is part of the state.
\<close>

record start_stop =
  started_ch :: "nat option"
  stopped_ch :: "nat option"
  closed_chs :: "nat set"
  next_ch :: nat
  cancelled :: bool
  mu_held :: bool

definition new_start_stop :: start_stop where
  "new_start_stop = \<lparr>started_ch = None, stopped_ch = None, closed_chs = {}, next_ch = 0,
     cancelled = False, mu_held = False\<rparr>"

definition close_ch :: "nat option \<Rightarrow> start_stop \<Rightarrow> unit outcome \<times> start_stop" where
  "close_ch c s =
     (case c of
        None \<Rightarrow> (Panic ''close of nil channel'', s)
      | Some h \<Rightarrow>
          if h \<in> closed_chs s then (Panic ''close of closed channel'', s)
          else (Return (), s\<lparr>closed_chs := insert h (closed_chs s)\<rparr>))"

text \<open>
  \<^verbatim>\<open>StartInit\<close>, called with the mutex free: whether the caller should start, in which case it owns
  the two callbacks. The \<^verbatim>\<open>sync.Once\<close> of \<^verbatim>\<open>closeStartedOnce\<close> is a flag of the run that got them.
\<close>

definition StartInit :: "start_stop \<Rightarrow> bool \<times> start_stop" where
  "StartInit s =
     (if started_ch s \<noteq> None then (False, s)
      else (True, s\<lparr>started_ch := Some (next_ch s), stopped_ch := Some (next_ch s + 1),
                    next_ch := next_ch s + 2, cancelled := False\<rparr>))"

definition closeStartedOnce :: "bool \<Rightarrow> start_stop \<Rightarrow> unit outcome \<times> bool \<times> start_stop" where
  "closeStartedOnce once_done s =
     (if once_done then (Return (), True, s)
      else case close_ch (started_ch s) s of (r, s') \<Rightarrow> (r, True, s'))"

definition stopped_callback :: "bool \<Rightarrow> start_stop \<Rightarrow> unit outcome \<times> start_stop" where
  "stopped_callback once_done s =
     (case closeStartedOnce once_done s of
        (Panic e, _, s') \<Rightarrow> (Panic e, s')
      | (Return _, _, s') \<Rightarrow> close_ch (stopped_ch s') s')"

text \<open>
  \<^verbatim>\<open>StopInit\<close>, called with the mutex free: \<open>None\<close> when there is nothing to stop, else the channel
  to wait for, with the mutex held.
\<close>

definition StopInit :: "start_stop \<Rightarrow> nat option \<times> start_stop" where
  "StopInit s =
     (case stopped_ch s of
        None \<Rightarrow> (None, s)
      | Some h \<Rightarrow> (Some h, s\<lparr>cancelled := True, mu_held := True\<rparr>))"

definition finalizeStop :: "bool \<Rightarrow> start_stop \<Rightarrow> start_stop" where
  "finalizeStop didStop s =
     (if didStop then s\<lparr>started_ch := None, stopped_ch := None, mu_held := False\<rparr>
      else s\<lparr>mu_held := False\<rparr>)"

subsection \<open>A service and its callers\<close>

text \<open>
  The service's goroutine, when one runs: the \<^verbatim>\<open>Once\<close> flag of its callbacks. \<open>ghost_runs\<close> counts
  the goroutines started and \<open>ghost_ended\<close> those that called their stopped callback.
\<close>

record service =
  ss :: start_stop
  run :: "bool option"
  runs :: nat
  ended :: nat
  panicked :: bool

definition new_service :: service where
  "new_service = \<lparr>ss = new_start_stop, run = None, runs = 0, ended = 0, panicked = False\<rparr>"

text \<open>
  Every way goroutines using the service interleave: any caller may Start or Stop at any time
  the mutex is free, the running goroutine may report that it started or end, and a stopper
  that waits for the stopped channel goes on once it is closed.
\<close>

inductive service_step :: "service \<Rightarrow> service \<Rightarrow> bool" where
  start: "\<not> mu_held (ss v) \<Longrightarrow> StartInit (ss v) = (True, s') \<Longrightarrow>
    service_step v (v\<lparr>ss := s', run := Some False, runs := runs v + 1\<rparr>)"
| start_again: "\<not> mu_held (ss v) \<Longrightarrow> StartInit (ss v) = (False, s') \<Longrightarrow>
    service_step v (v\<lparr>ss := s'\<rparr>)"
| reports: "run v = Some once \<Longrightarrow> closeStartedOnce once (ss v) = (r, once', s') \<Longrightarrow>
    service_step v (v\<lparr>ss := s', run := Some once', panicked := (panicked v \<or> panics r)\<rparr>)"
| ends: "run v = Some once \<Longrightarrow> stopped_callback once (ss v) = (r, s') \<Longrightarrow>
    service_step v (v\<lparr>ss := s', run := None, ended := ended v + 1,
      panicked := (panicked v \<or> panics r)\<rparr>)"
| stop_idle: "\<not> mu_held (ss v) \<Longrightarrow> StopInit (ss v) = (None, s') \<Longrightarrow> service_step v (v\<lparr>ss := s'\<rparr>)"
| stop: "\<not> mu_held (ss v) \<Longrightarrow> StopInit (ss v) = (Some h, s') \<Longrightarrow> service_step v (v\<lparr>ss := s'\<rparr>)"
| stopped: "mu_held (ss v) \<Longrightarrow> stopped_ch (ss v) = Some h \<Longrightarrow> h \<in> closed_chs (ss v) \<Longrightarrow>
    service_step v (v\<lparr>ss := finalizeStop True (ss v)\<rparr>)"
| stop_given_up: "mu_held (ss v) \<Longrightarrow> service_step v (v\<lparr>ss := finalizeStop False (ss v)\<rparr>)"

inductive_cases service_stepE: "service_step v w"

lemmas start_stop_ops =
  StartInit_def closeStartedOnce_def stopped_callback_def StopInit_def finalizeStop_def close_ch_def

definition service_inv :: "service \<Rightarrow> bool" where
  "service_inv v \<longleftrightarrow>
     \<not> panicked v \<and>
     runs v = ended v + (if run v = None then 0 else 1) \<and>
     (\<forall>h \<in> closed_chs (ss v). h < next_ch (ss v)) \<and>
     (started_ch (ss v) = None \<longleftrightarrow> stopped_ch (ss v) = None) \<and>
     (mu_held (ss v) \<longrightarrow> stopped_ch (ss v) \<noteq> None \<and> cancelled (ss v)) \<and>
     (case stopped_ch (ss v) of
        None \<Rightarrow> run v = None
      | Some h \<Rightarrow> h < next_ch (ss v) \<and> (h \<in> closed_chs (ss v) \<longleftrightarrow> run v = None) \<and>
          (case started_ch (ss v) of
             None \<Rightarrow> True
           | Some g \<Rightarrow> g < next_ch (ss v) \<and> g \<noteq> h \<and>
               (g \<in> closed_chs (ss v) \<longleftrightarrow> run v \<noteq> Some False)))"

lemma new_service_inv: "service_inv new_service"
  by (simp add: service_inv_def new_service_def new_start_stop_def)

lemma service_step_inv:
  assumes "service_step v w" and "service_inv v"
  shows "service_inv w"
  using assms
proof (cases rule: service_step.cases)
  case (start s')
  have "h < Suc (Suc (next_ch (ss v)))" if "h \<in> closed_chs (ss v)" for h
    using assms(2) that by (auto simp: service_inv_def)
  moreover have "next_ch (ss v) \<notin> closed_chs (ss v)" "Suc (next_ch (ss v)) \<notin> closed_chs (ss v)"
    using assms(2) by (auto simp: service_inv_def)
  ultimately show ?thesis using start assms(2)
    by (auto simp: service_inv_def StartInit_def split: if_splits option.splits)
next
  case (start_again s')
  with assms(2) show ?thesis by (auto simp: service_inv_def StartInit_def split: if_splits)
next
  case (reports once r once' s')
  with assms(2) show ?thesis
    by (cases once) (auto simp: service_inv_def closeStartedOnce_def close_ch_def split: option.splits)
next
  case (ends once r s')
  with assms(2) show ?thesis
    by (cases once) (auto simp: service_inv_def stopped_callback_def closeStartedOnce_def close_ch_def
        split: option.splits)
next
  case (stop_idle s')
  with assms(2) show ?thesis by (auto simp: service_inv_def StopInit_def split: option.splits)
next
  case (stop h s')
  with assms(2) show ?thesis by (auto simp: service_inv_def StopInit_def split: option.splits)
next
  case (stopped h)
  with assms(2) show ?thesis by (auto simp: service_inv_def finalizeStop_def)
next
  case stop_given_up
  with assms(2) show ?thesis
    by (auto simp: service_inv_def finalizeStop_def split: option.splits)
qed

lemma service_steps_inv:
  "service_step\<^sup>*\<^sup>* new_service v \<Longrightarrow> service_inv v"
  by (induction rule: rtranclp_induct) (auto intro: new_service_inv service_step_inv)

subsection \<open>Properties\<close>

text \<open>C16. However Start, Stop and the service's goroutine interleave, no channel is closed twice and
  none is closed while nil, and at most one goroutine of the service is alive at any time.\<close>

theorem start_stop_safe:
  assumes "service_step\<^sup>*\<^sup>* new_service v"
  shows "\<not> panicked v \<and> ended v \<le> runs v \<and> runs v \<le> ended v + 1"
  using service_steps_inv [OF assms] by (auto simp: service_inv_def)

lemma service_start_step: "service_step new_service
    (new_service\<lparr>ss := snd (StartInit new_start_stop), run := Some False, runs := 1\<rparr>)"
  using service_step.start [of new_service "snd (StartInit new_start_stop)"]
  by (simp add: new_service_def StartInit_def new_start_stop_def)

theorem start_stop_safe_witness:
  "\<exists>v. service_step\<^sup>*\<^sup>* new_service v \<and> runs v = 1 \<and>
     \<not> panicked v \<and> ended v \<le> runs v \<and> runs v \<le> ended v + 1"
proof -
  let ?v = "new_service\<lparr>ss := snd (StartInit new_start_stop), run := Some False, runs := 1\<rparr>"
  have "service_step\<^sup>*\<^sup>* new_service ?v" using service_start_step by (rule r_into_rtranclp)
  with start_stop_safe [OF this] show ?thesis by (intro exI [of _ ?v]) simp
qed

text \<open>C34. A stopper gets past its wait only when the goroutine it stops has ended, and resetting the
  service then leaves nothing running: a later Start starts exactly one new goroutine.\<close>

theorem stop_waits_for_the_run:
  assumes "service_step\<^sup>*\<^sup>* new_service v"
    and "mu_held (ss v)" and "stopped_ch (ss v) = Some h" and "h \<in> closed_chs (ss v)"
  shows "run v = None \<and> cancelled (ss v) \<and>
    (\<exists>s'. StartInit (finalizeStop True (ss v)) = (True, s') \<and> \<not> cancelled s' \<and>
      stopped_ch s' \<noteq> Some h)"
  using service_steps_inv [OF assms(1)] assms(2-4)
  by (auto simp: service_inv_def StartInit_def finalizeStop_def split: option.splits)

theorem stop_waits_for_the_run_witness:
  "\<exists>v h. service_step\<^sup>*\<^sup>* new_service v \<and> mu_held (ss v) \<and> stopped_ch (ss v) = Some h \<and>
    h \<in> closed_chs (ss v) \<and> run v = None \<and> cancelled (ss v) \<and>
    (\<exists>s'. StartInit (finalizeStop True (ss v)) = (True, s') \<and> \<not> cancelled s' \<and>
      stopped_ch s' \<noteq> Some h)"
proof -
  let ?v1 = "new_service\<lparr>ss := snd (StartInit new_start_stop), run := Some False, runs := 1\<rparr>"
  let ?v2 = "?v1\<lparr>ss := snd (StopInit (ss ?v1))\<rparr>"
  let ?v3 = "?v2\<lparr>ss := snd (stopped_callback False (ss ?v2)), run := None, ended := 1,
    panicked := False\<rparr>"
  note ops = new_service_def StartInit_def new_start_stop_def StopInit_def stopped_callback_def
    closeStartedOnce_def close_ch_def
  have two: "service_step ?v1 ?v2"
    using service_step.stop [of ?v1 1 "snd (StopInit (ss ?v1))"] by (simp add: ops)
  have three: "service_step ?v2 ?v3"
    using service_step.ends [of ?v2 False "Return ()" "snd (stopped_callback False (ss ?v2))"]
    by (simp add: ops)
  have "service_step\<^sup>*\<^sup>* new_service ?v1" using service_start_step by (rule r_into_rtranclp)
  then have "service_step\<^sup>*\<^sup>* new_service ?v2" using two by (rule rtranclp.rtrancl_into_rtrancl)
  then have steps: "service_step\<^sup>*\<^sup>* new_service ?v3"
    using three by (rule rtranclp.rtrancl_into_rtrancl)
  have here: "mu_held (ss ?v3)" "stopped_ch (ss ?v3) = Some 1" "1 \<in> closed_chs (ss ?v3)"
    by (simp_all add: ops)
  show ?thesis
    using steps here stop_waits_for_the_run [OF steps here] by blast
qed

end
