(* ===== verification/Base_Service.thy ===== *)
theory Base_Service
  imports Complex_Main "HOL-Library.Signed_Division"
begin

text \<open>
  The back-off of \<^verbatim>\<open>internal/baseservice/base_service.go\<close>, with rational numbers for the floats.
  Go's remainder has the sign of the dividend, which is \<open>smod\<close>.
\<close>

definition MaxAttemptsBeforeResetDefault :: int where
  "MaxAttemptsBeforeResetDefault = 10"

definition exponentialBackoffSecondsWithoutJitter :: "int \<Rightarrow> int \<Rightarrow> rat" where
  "exponentialBackoffSecondsWithoutJitter attempt mx = 2 powi ((attempt - 1) smod mx)"

text \<open>\<open>random\<close> is the draw of \<^verbatim>\<open>Rand.Float64\<close>, at least 0 and below 1. The result is in seconds.\<close>

definition ExponentialBackoff :: "rat \<Rightarrow> int \<Rightarrow> int \<Rightarrow> rat" where
  "ExponentialBackoff random attempt mx =
     (let s = exponentialBackoffSecondsWithoutJitter attempt mx
      in s + s * (random * (1 / 5) - 1 / 10))"

text \<open>\<^verbatim>\<open>IntBetween\<close>: \<open>draw\<close> is \<^verbatim>\<open>rand.Intn(max - min)\<close>, which panics unless its bound is positive.\<close>

definition IntBetween :: "(nat \<Rightarrow> nat) \<Rightarrow> int \<Rightarrow> int \<Rightarrow> int option" where
  "IntBetween draw lo hi = (if hi - lo \<le> 0 then None else Some (int (draw (nat (hi - lo))) + lo))"

lemma smod_range:
  assumes "-1 \<le> a" and "0 < (m :: int)"
  shows "-1 \<le> a smod m \<and> a smod m < m"
proof (cases "a = -1")
  case True
  have "1 mod m \<le> 1" using assms(2) by (simp add: zmod_le_nonneg_dividend)
  moreover have "- (1 mod m) < m" using assms(2) pos_mod_sign [of m 1] by linarith
  ultimately show ?thesis using True assms(2) by (auto simp: smod_int_alt_def sgn_if)
next
  case False
  then have "a smod m = a mod m" using assms by (auto simp: smod_int_alt_def sgn_if)
  moreover have "0 \<le> a mod m" "a mod m < m" using assms(2) pos_mod_sign [of m a] pos_mod_bound [of m a] by blast+
  ultimately show ?thesis by linarith
qed

lemma backoff_range:
  assumes "0 \<le> attempt" and "0 < mx"
  shows "1 / 2 \<le> exponentialBackoffSecondsWithoutJitter attempt mx \<and>
    exponentialBackoffSecondsWithoutJitter attempt mx \<le> 2 powi (mx - 1)"
proof -
  have "-1 \<le> (attempt - 1) smod mx" "(attempt - 1) smod mx \<le> mx - 1"
    using smod_range [of "attempt - 1" mx] assms by auto
  then have "(2::rat) powi (-1) \<le> 2 powi ((attempt - 1) smod mx)"
      "(2::rat) powi ((attempt - 1) smod mx) \<le> 2 powi (mx - 1)"
    by (intro power_int_increasing; simp)+
  moreover have "(2::rat) powi (-1) = 1 / 2" by (simp add: power_int_minus)
  ultimately show ?thesis by (simp only: exponentialBackoffSecondsWithoutJitter_def)
qed

text \<open>With the default reset after ten attempts, a back-off never grows beyond 563.2 seconds nor
  shrinks below 0.45 seconds, however many attempts have failed.\<close>

lemma backoff_bounded:
  assumes "0 \<le> attempt" and "0 \<le> random" and "random < 1"
  shows "9 / 20 \<le> ExponentialBackoff random attempt MaxAttemptsBeforeResetDefault \<and>
    ExponentialBackoff random attempt MaxAttemptsBeforeResetDefault \<le> 2816 / 5"
proof -
  let ?s = "exponentialBackoffSecondsWithoutJitter attempt MaxAttemptsBeforeResetDefault"
  have s: "1 / 2 \<le> ?s" "?s \<le> 512"
    using backoff_range [OF assms(1), of MaxAttemptsBeforeResetDefault]
    by (simp_all add: MaxAttemptsBeforeResetDefault_def)
  have eq: "ExponentialBackoff random attempt MaxAttemptsBeforeResetDefault =
      ?s * (9 / 10 + random * (1 / 5))"
    by (simp add: ExponentialBackoff_def Let_def algebra_simps)
  have lo: "1 / 2 * (9 / 10) \<le> ?s * (9 / 10 + random * (1 / 5))"
    using s assms by (intro mult_mono) auto
  have hi: "?s * (9 / 10 + random * (1 / 5)) \<le> 512 * (11 / 10)"
    using s assms by (intro mult_mono) auto
  show ?thesis using lo hi by (simp add: eq)
qed

end
