(* ===== verification/Config_Store.thy ===== *)
theory Config_Store
  imports Db_Model
begin

text \<open>
  The statements of \<^verbatim>\<open>config.sql.go\<close> and \<^verbatim>\<open>config_suite.sql.go\<close>. \<open>now\<close> is the second the statement
  runs in. Where a query orders by creation time alone, equal times leave the choice to the
  server; the model takes the highest id.
\<close>

subsection \<open>Choosing a config\<close>

definition newest :: "config list \<Rightarrow> config option" where
  "newest rows =
     (case sort_key (\<lambda>c. (c_created_at c, c_id c)) rows of [] \<Rightarrow> None | xs \<Rightarrow> Some (last xs))"

lemma newest_in: "newest cs = Some c \<Longrightarrow> c \<in> set cs"
proof (cases "sort_key (\<lambda>c. (c_created_at c, c_id c)) cs")
  case (Cons x xs)
  moreover assume "newest cs = Some c"
  ultimately have "c = last (x # xs)" by (simp add: newest_def)
  then have "c \<in> set (sort_key (\<lambda>c. (c_created_at c, c_id c)) cs)"
    unfolding Cons by (metis last_in_set list.distinct(1))
  then show ?thesis by simp
qed (simp add: newest_def)

definition last_by_id :: "config list \<Rightarrow> config option" where
  "last_by_id rows = (case sort_key c_id rows of [] \<Rightarrow> None | xs \<Rightarrow> Some (last xs))"

definition actor_of :: "db \<Rightarrow> int \<Rightarrow> actor option" where
  "actor_of d aid = find (\<lambda>a. a_id a = aid) (actors d)"

definition suite_of :: "db \<Rightarrow> int \<Rightarrow> config_suite option" where
  "suite_of d sid = find (\<lambda>s. s_id s = sid) (config_suites d)"

definition option_row :: "'a option \<Rightarrow> pgerr + 'a" where
  "option_row r = (case r of None \<Rightarrow> Inl ErrNoRows | Some x \<Rightarrow> Inr x)"

text \<open>Arrays are compared element by element, a proper prefix being smaller.\<close>

fun array_ge :: "int list \<Rightarrow> int list \<Rightarrow> bool" where
  "array_ge _ [] = True"
| "array_ge [] (_ # _) = False"
| "array_ge (x # xs) (y # ys) = (if x = y then array_ge xs ys else y < x)"

text \<open>The version test of both lookups; a NULL actor version passes only a config without minimum.\<close>

definition version_ok :: "int list option \<Rightarrow> config \<Rightarrow> bool" where
  "version_ok v c =
     (case c_min_actor_version c of
        None \<Rightarrow> True
      | Some m \<Rightarrow> (case v of None \<Rightarrow> False | Some ver \<Rightarrow> array_ge ver m))"

definition suite_configs :: "bool \<Rightarrow> int \<Rightarrow> int list option \<Rightarrow> db \<Rightarrow> config list" where
  "suite_configs act aid v d =
     filter (\<lambda>c. c_actor_id c = aid \<and> actor_of d aid \<noteq> None \<and>
         (case c_config_suite_id c of
            None \<Rightarrow> False
          | Some sid \<Rightarrow>
              (case suite_of d sid of
                 None \<Rightarrow> False
               | Some s \<Rightarrow> s_active s = act \<and> s_deployed_at s \<noteq> None)) \<and>
         version_ok v c)
       (configs d)"

definition ConfigActorActiveConfig :: "int \<Rightarrow> int list option \<Rightarrow> db \<Rightarrow> (pgerr + config) \<times> db" where
  "ConfigActorActiveConfig aid v d = (option_row (last_by_id (suite_configs True aid v d)), d)"

definition ConfigActorRetiredAndVersionCompatibleConfig ::
    "int \<Rightarrow> int list option \<Rightarrow> db \<Rightarrow> (pgerr + config) \<times> db" where
  "ConfigActorRetiredAndVersionCompatibleConfig aid v d =
     (option_row (last_by_id (suite_configs False aid v d)), d)"

definition with_actor :: "db \<Rightarrow> config \<Rightarrow> (config \<times> actor) option" where
  "with_actor d c = map_option (\<lambda>a. (c, a)) (actor_of d (c_actor_id c))"

definition ConfigFindByActorId :: "int \<Rightarrow> db \<Rightarrow> (pgerr + config \<times> actor) \<times> db" where
  "ConfigFindByActorId aid d =
     (option_row (Option.bind (newest (filter (\<lambda>c. c_actor_id c = aid) (configs d))) (with_actor d)), d)"

definition ConfigFindByActorIdAndSuiteId :: "int \<Rightarrow> int \<Rightarrow> db \<Rightarrow> (pgerr + config \<times> actor) \<times> db" where
  "ConfigFindByActorIdAndSuiteId aid sid d =
     (option_row (Option.bind
        (newest (filter (\<lambda>c. c_actor_id c = aid \<and> c_config_suite_id c = Some sid) (configs d)))
        (with_actor d)), d)"

text \<open>\<^verbatim>\<open>SELECT DISTINCT ON (actor_id)\<close>: the newest config of each actor in the suite, by actor id.\<close>

definition ConfigListBySuiteIdGroupByActor :: "int \<Rightarrow> db \<Rightarrow> (pgerr + (config \<times> actor) list) \<times> db" where
  "ConfigListBySuiteIdGroupByActor sid d =
     (let rows = filter (\<lambda>c. c_config_suite_id c = Some sid) (configs d);
          aids = sort (remdups (map c_actor_id rows))
      in (Inr (List.map_filter
             (\<lambda>aid. Option.bind (newest (filter (\<lambda>c. c_actor_id c = aid) rows)) (with_actor d)) aids), d))"

definition GetActorByConfigId :: "int \<Rightarrow> db \<Rightarrow> (pgerr + actor) \<times> db" where
  "GetActorByConfigId cid d =
     (option_row (Option.bind (find (\<lambda>c. c_id c = cid) (configs d)) (\<lambda>c. actor_of d (c_actor_id c))), d)"

subsection \<open>Writing configs\<close>

definition new_config :: "int \<Rightarrow> int \<Rightarrow> int \<Rightarrow> int option \<Rightarrow> json \<Rightarrow> int list option \<Rightarrow> string \<Rightarrow> config" where
  "new_config now cid aid sid content minv creator =
     \<lparr>c_id = cid, c_actor_id = aid, c_config_suite_id = sid, c_content = content,
      c_min_actor_version = minv, c_created_by = creator, c_created_at = now, c_updated_by = None,
      c_updated_at = None\<rparr>"

definition ConfigInsert ::
    "int \<Rightarrow> int \<Rightarrow> json \<Rightarrow> string \<Rightarrow> int list option \<Rightarrow> int option \<Rightarrow> db \<Rightarrow> (pgerr + config) \<times> db" where
  "ConfigInsert now aid content creator minv sid d =
     (if actor_of d aid = None \<or> (\<exists>s. sid = Some s \<and> suite_of d s = None)
      then (Inl (DbError ''foreign key constraint''), d)
      else let row = new_config now (next_config d) aid sid content minv creator
           in (Inr row, d\<lparr>configs := configs d @ [row], next_config := next_config d + 1\<rparr>))"

text \<open>
  The rows of the common table expression \<^verbatim>\<open>config_suite_check\<close>: the reviewers of the deployments
  of the config's suite, NULL for a suite without deployment, none for a deployed suite.
\<close>

definition suite_check :: "int \<Rightarrow> db \<Rightarrow> string list option list" where
  "suite_check cid d =
     (case find (\<lambda>c. c_id c = cid) (configs d) of
        None \<Rightarrow> []
      | Some c \<Rightarrow>
          (case Option.bind (c_config_suite_id c) (suite_of d) of
             None \<Rightarrow> []
           | Some s \<Rightarrow>
               if s_deployed_at s \<noteq> None then []
               else (case filter (\<lambda>dep. d_config_suite_id dep = Some (s_id s)) (deployments d) of
                  [] \<Rightarrow> [None]
                | deps \<Rightarrow> map (\<lambda>dep. Some (d_reviewers dep)) deps)))"

definition ConfigUpdateInactiveContentByCreator ::
    "int \<Rightarrow> json option \<Rightarrow> int list option \<Rightarrow> string \<Rightarrow> int \<Rightarrow> db \<Rightarrow> (pgerr + config \<times> actor) \<times> db" where
  "ConfigUpdateInactiveContentByCreator now content minv updater cid d =
     (let chk = suite_check cid d;
          p = (\<lambda>c. c_id c = cid \<and> actor_of d (c_actor_id c) \<noteq> None \<and>
            (c_created_by c = updater \<or>
             list_ex (\<lambda>r. case r of None \<Rightarrow> False | Some rs \<Rightarrow> updater \<in> set rs) chk) \<and> chk \<noteq> []);
          f = (\<lambda>c. c\<lparr>c_content := from_ptr_or content (c_content c),
            c_min_actor_version := (case minv of None \<Rightarrow> c_min_actor_version c | Some v \<Rightarrow> Some v),
            c_updated_at := Some now, c_updated_by := Some updater\<rparr>)
      in (case find p (configs d) of
            None \<Rightarrow> (Inl ErrNoRows, d)
          | Some c \<Rightarrow> (option_row (with_actor d (f c)), d\<lparr>configs := update_where p f (configs d)\<rparr>)))"

subsection \<open>Config suites\<close>

definition new_suite :: "int \<Rightarrow> int \<Rightarrow> string \<Rightarrow> config_suite" where
  "new_suite now sid creator =
     \<lparr>s_id = sid, s_active = False, s_created_by = creator, s_created_at = now, s_updated_by = None,
      s_updated_at = None, s_deployed_at = None\<rparr>"

definition ConfigSuiteGetById :: "int \<Rightarrow> db \<Rightarrow> (pgerr + config_suite) \<times> db" where
  "ConfigSuiteGetById sid d = (one_row (filter (\<lambda>s. s_id s = sid) (config_suites d)), d)"

definition deactivate_suite :: "int \<Rightarrow> string \<Rightarrow> config_suite \<Rightarrow> config_suite" where
  "deactivate_suite now by s = s\<lparr>s_active := False, s_updated_at := Some now, s_updated_by := Some by\<rparr>"

definition activate_suite :: "int \<Rightarrow> string \<Rightarrow> config_suite \<Rightarrow> config_suite" where
  "activate_suite now by s =
     s\<lparr>s_active := True, s_deployed_at := Some now, s_updated_at := Some now, s_updated_by := Some by\<rparr>"

text \<open>Both updates read the table as it was before the statement.\<close>

definition activate_row :: "int \<Rightarrow> string \<Rightarrow> int \<Rightarrow> config_suite \<Rightarrow> config_suite" where
  "activate_row now by sid s =
     (if s_id s = sid then activate_suite now by s
      else if s_active s then deactivate_suite now by s else s)"

definition ConfigSuiteActivate :: "int \<Rightarrow> string \<Rightarrow> int \<Rightarrow> db \<Rightarrow> (pgerr + int) \<times> db" where
  "ConfigSuiteActivate now by sid d =
     (one_row (map s_id (filter (\<lambda>s. s_id s = sid) (config_suites d))),
      d\<lparr>config_suites := map (activate_row now by sid) (config_suites d)\<rparr>)"

lemmas config_statements [query_simps] =
  ConfigActorActiveConfig_def ConfigActorRetiredAndVersionCompatibleConfig_def
  ConfigFindByActorId_def ConfigFindByActorIdAndSuiteId_def ConfigListBySuiteIdGroupByActor_def
  GetActorByConfigId_def ConfigInsert_def ConfigUpdateInactiveContentByCreator_def
  ConfigSuiteGetById_def ConfigSuiteActivate_def

subsection \<open>Invariant\<close>

definition configs_inv :: "db \<Rightarrow> bool" where
  "configs_inv d \<longleftrightarrow>
     distinct (map s_id (config_suites d)) \<and>
     (\<forall>s \<in> set (config_suites d). s_id s < next_suite d) \<and>
     length (filter s_active (config_suites d)) \<le> 1 \<and>
     (\<forall>s \<in> set (config_suites d). s_active s \<longrightarrow> s_deployed_at s \<noteq> None) \<and>
     distinct (map c_id (configs d)) \<and>
     (\<forall>c \<in> set (configs d). c_id c < next_config d \<and> c_actor_id c \<in> a_id ` set (actors d) \<and>
        (\<forall>sid. c_config_suite_id c = Some sid \<longrightarrow> sid \<in> s_id ` set (config_suites d)))"

lemma activate_row_id [simp]: "s_id (activate_row now by sid s) = s_id s"
  by (simp add: activate_row_def activate_suite_def deactivate_suite_def)

lemma activate_row_active [simp]: "s_active (activate_row now by sid s) \<longleftrightarrow> s_id s = sid"
  by (simp add: activate_row_def activate_suite_def deactivate_suite_def)

lemma activate_row_deployed: "s_id s = sid \<Longrightarrow> s_deployed_at (activate_row now by sid s) = Some now"
  by (simp add: activate_row_def activate_suite_def)

lemma filter_key_le_one: "distinct (map key rows) \<Longrightarrow> length (filter (\<lambda>r. key r = k) rows) \<le> 1"
  by (induction rows) (auto simp: filter_empty_conv rev_image_eqI)

lemma activate_inv:
  assumes "configs_inv d"
  shows "configs_inv (snd (ConfigSuiteActivate now by sid d))"
proof -
  let ?rows = "map (activate_row now by sid) (config_suites d)"
  have "distinct (map s_id (config_suites d))"
    using assms by (simp add: configs_inv_def)
  then have "length (filter s_active ?rows) \<le> 1"
    using filter_key_le_one [of s_id "config_suites d" sid] by (simp add: filter_map comp_def)
  moreover have "map s_id ?rows = map s_id (config_suites d)" by simp
  moreover have "\<forall>s \<in> set ?rows. s_id s < next_suite d"
    using assms by (simp add: configs_inv_def)
  moreover have "\<forall>s \<in> set ?rows. s_active s \<longrightarrow> s_deployed_at s \<noteq> None"
    by (simp add: activate_row_deployed)
  moreover have "s_id ` set ?rows = s_id ` set (config_suites d)"
    by (simp add: image_image)
  ultimately show ?thesis
    using assms unfolding ConfigSuiteActivate_def configs_inv_def
    by (simp del: map_map set_map)
qed

lemma config_update_inv:
  assumes "configs_inv d"
  shows "configs_inv (snd (ConfigUpdateInactiveContentByCreator now content minv updater cid d))"
proof -
  have "configs_inv (d\<lparr>configs := update_where p (\<lambda>c. c\<lparr>c_content := from_ptr_or content (c_content c),
      c_min_actor_version := (case minv of None \<Rightarrow> c_min_actor_version c | Some v \<Rightarrow> Some v),
      c_updated_at := Some now, c_updated_by := Some updater\<rparr>) (configs d)\<rparr>)" for p
    using assms unfolding configs_inv_def by (auto simp: set_update_where map_update_where)
  with assms show ?thesis
    by (simp add: ConfigUpdateInactiveContentByCreator_def Let_def split: option.split)
qed

lemma config_insert_inv:
  assumes "configs_inv d"
  shows "configs_inv (snd (ConfigInsert now aid content creator minv sid d))"
proof (cases "actor_of d aid = None \<or> (\<exists>s. sid = Some s \<and> suite_of d s = None)")
  case False
  then have "aid \<in> a_id ` set (actors d)" "\<And>k. sid = Some k \<Longrightarrow> k \<in> s_id ` set (config_suites d)"
    by (auto simp: actor_of_def suite_of_def find_None_iff)
  moreover have "next_config d \<notin> c_id ` set (configs d)"
    using assms by (auto simp: configs_inv_def)
  ultimately show ?thesis
    using assms False unfolding ConfigInsert_def Let_def configs_inv_def
    by (simp add: new_config_def) (auto intro: less_imp_le)
qed (use assms in \<open>simp add: ConfigInsert_def\<close>)

text \<open>Neither writes a deployment.\<close>

lemma config_writes_keep_deployments [simp]:
  "deployments (snd (ConfigSuiteActivate now by sid d)) = deployments d"
  "deployments (snd (ConfigUpdateInactiveContentByCreator now content minv updater cid d)) = deployments d"
  "deployments (snd (ConfigInsert now aid v creator minv osid d)) = deployments d"
  "next_deployment (snd (ConfigSuiteActivate now by sid d)) = next_deployment d"
  "next_deployment (snd (ConfigUpdateInactiveContentByCreator now content minv updater cid d)) = next_deployment d"
  "next_deployment (snd (ConfigInsert now aid v creator minv osid d)) = next_deployment d"
  by (simp_all add: ConfigSuiteActivate_def ConfigUpdateInactiveContentByCreator_def ConfigInsert_def
      Let_def split: option.split)

lemma config_writes_keep_suite_ids [simp]:
  "s_id ` set (config_suites (snd (ConfigSuiteActivate now by sid d))) = s_id ` set (config_suites d)"
  "config_suites (snd (ConfigUpdateInactiveContentByCreator now content minv updater cid d)) = config_suites d"
  "config_suites (snd (ConfigInsert now aid v creator minv osid d)) = config_suites d"
  by (simp_all add: ConfigSuiteActivate_def ConfigUpdateInactiveContentByCreator_def ConfigInsert_def
      Let_def image_image split: option.split)

end
