(* ===== verification/Deployment_Store.thy ===== *)
theory Deployment_Store
  imports Config_Store
begin

text \<open>
  The statements of \<^verbatim>\<open>dbaccess/dbsqlc/deployment.sql.go\<close>: the life of a deployment from draft to
  deployed or failed, the config suite created with it, and the indexes that let at most one
  deployment be deploying and one be deployed. \<open>now\<close> is the second the statement runs in.
\<close>

subsection \<open>Indexes\<close>

text \<open>
  \<^verbatim>\<open>deployment_name_idx\<close>, \<^verbatim>\<open>deployments_unique_deploying\<close> and \<^verbatim>\<open>deployments_unique_deployed\<close>: a
  statement that would break one of them reports an error and changes nothing.
\<close>

definition with_status :: "DeploymentStatus \<Rightarrow> deployment list \<Rightarrow> deployment list" where
  "with_status st rows = filter (\<lambda>x. d_status x = st) rows"

definition deployment_indexes :: "deployment list \<Rightarrow> bool" where
  "deployment_indexes rows \<longleftrightarrow>
     distinct (map d_name rows) \<and>
     length (with_status DeploymentStatusDeploying rows) \<le> 1 \<and>
     length (with_status DeploymentStatusDeployed rows) \<le> 1"

definition put_deployments :: "deployment list \<Rightarrow> pgerr + 'a \<Rightarrow> db \<Rightarrow> (pgerr + 'a) \<times> db" where
  "put_deployments rows r d =
     (if deployment_indexes rows then (r, d\<lparr>deployments := rows\<rparr>)
      else (Inl (DbError ''duplicate key value violates unique constraint''), d))"

text \<open>\<^verbatim>\<open>UPDATE deployments SET f WHERE p RETURNING ...\<close>\<close>

definition update_deployments ::
    "(deployment \<Rightarrow> bool) \<Rightarrow> (deployment \<Rightarrow> deployment) \<Rightarrow> db \<Rightarrow> (pgerr + deployment) \<times> db" where
  "update_deployments p f d =
     put_deployments (update_where p f (deployments d)) (one_row (map f (filter p (deployments d)))) d"

subsection \<open>Reading and deleting\<close>

definition DeploymentGetById :: "int \<Rightarrow> db \<Rightarrow> (pgerr + deployment) \<times> db" where
  "DeploymentGetById did d = (one_row (filter (\<lambda>x. d_id x = did) (deployments d)), d)"

definition is_draft :: "int \<Rightarrow> deployment \<Rightarrow> bool" where
  "is_draft did x \<longleftrightarrow> d_id x = did \<and> d_status x = DeploymentStatusDraft"

definition DeploymentDelete :: "int \<Rightarrow> db \<Rightarrow> (pgerr + deployment) \<times> db" where
  "DeploymentDelete did d =
     (one_row (filter (is_draft did) (deployments d)),
      d\<lparr>deployments := filter (\<lambda>x. \<not> is_draft did x) (deployments d)\<rparr>)"

text \<open>\<^verbatim>\<open>deserializeNotes\<close>: \<open>JNull\<close> is the nil map behind a pointer, \<open>None\<close> the nil pointer.\<close>

fun deserializeNotes :: "json option \<Rightarrow> json option" where
  "deserializeNotes (Some (JObj kvs)) = Some (JObj kvs)"
| "deserializeNotes (Some JNull) = Some JNull"
| "deserializeNotes _ = None"

subsection \<open>Changing the status\<close>

definition DeploymentSubmitForReview :: "int \<Rightarrow> db \<Rightarrow> (pgerr + deployment) \<times> db" where
  "DeploymentSubmitForReview did =
     update_deployments (is_draft did) (\<lambda>x. x\<lparr>d_status := DeploymentStatusReviewing\<rparr>)"

definition edited :: "string option \<Rightarrow> string list option \<Rightarrow> deployment \<Rightarrow> deployment" where
  "edited name reviewers x =
     x\<lparr>d_name := from_ptr_or name (d_name x), d_reviewers := from_ptr_or reviewers (d_reviewers x)\<rparr>"

definition DeploymentUpdate ::
    "string option \<Rightarrow> string list option \<Rightarrow> int \<Rightarrow> db \<Rightarrow> (pgerr + deployment) \<times> db" where
  "DeploymentUpdate name reviewers did = update_deployments (is_draft did) (edited name reviewers)"

text \<open>
  The notes arrive as text; \<open>parse\<close> is the server's reading of it as \<^verbatim>\<open>jsonb\<close>, \<open>None\<close> for text
  that is not JSON, which fails the statement before it looks at a row.
\<close>

definition rejectable :: "string \<Rightarrow> int \<Rightarrow> deployment \<Rightarrow> bool" where
  "rejectable by did x \<longleftrightarrow>
     d_id x = did \<and> d_status x = DeploymentStatusReviewing \<and> by \<in> set (d_reviewers x)"

definition rejected :: "int \<Rightarrow> string \<Rightarrow> json \<Rightarrow> deployment \<Rightarrow> deployment" where
  "rejected now by notes x =
     x\<lparr>d_status := DeploymentStatusRejected, d_finished_at := Some now, d_finished_by := Some by,
       d_notes := Some notes\<rparr>"

definition DeploymentReject ::
    "(string \<Rightarrow> json option) \<Rightarrow> int \<Rightarrow> string \<Rightarrow> string \<Rightarrow> int \<Rightarrow> db \<Rightarrow> (pgerr + deployment) \<times> db" where
  "DeploymentReject parse now by notes did d =
     (case parse notes of
        None \<Rightarrow> (Inl (DbError ''invalid input syntax for type json''), d)
      | Some v \<Rightarrow> update_deployments (rejectable by did) (rejected now by v) d)"

text \<open>
  \<^verbatim>\<open>SetDeploymentDeploying\<close> reads the deployment and whether any deployment is deploying from one
  snapshot, updates when both allow it, and answers with a text: empty on success.
\<close>

definition deployingText :: string where
  "deployingText = ''others are deploying''"

definition wrongStatusText :: string where
  "wrongStatusText = ''deployment must be in reviewing or draft status''"

definition notFoundText :: string where
  "notFoundText = ''deployment not found''"

definition set_deploying :: "int \<Rightarrow> string \<Rightarrow> deployment \<Rightarrow> deployment" where
  "set_deploying now by x =
     x\<lparr>d_status := DeploymentStatusDeploying, d_deploying_at := Some now, d_approved_at := Some now,
       d_approved_by := Some by\<rparr>"

definition others_deploying :: "db \<Rightarrow> bool" where
  "others_deploying d \<longleftrightarrow> list_ex (\<lambda>x. d_status x = DeploymentStatusDeploying) (deployments d)"

definition SetDeploymentDeploying :: "int \<Rightarrow> string \<Rightarrow> int \<Rightarrow> db \<Rightarrow> (pgerr + string) \<times> db" where
  "SetDeploymentDeploying now by did d =
     (case find (\<lambda>x. d_id x = did) (deployments d) of
        None \<Rightarrow> (Inr notFoundText, d)
      | Some x \<Rightarrow>
          if d_status x \<notin> {DeploymentStatusReviewing, DeploymentStatusDraft} then (Inr wrongStatusText, d)
          else if others_deploying d then (Inr deployingText, d)
          else put_deployments
                 (update_where (\<lambda>y. d_id y = did) (set_deploying now by) (deployments d)) (Inr '''') d)"

text \<open>
  \<^verbatim>\<open>DeploymentPublish\<close>: the deployed rows are retired first, then the row with the id becomes
  deployed if it is deploying. The first part happens whether or not the second finds its row.
\<close>

definition retired :: "int \<Rightarrow> string \<Rightarrow> deployment \<Rightarrow> deployment" where
  "retired now by x =
     x\<lparr>d_status := DeploymentStatusRetired, d_finished_at := Some now, d_finished_by := Some by\<rparr>"

definition deployed :: "int \<Rightarrow> deployment \<Rightarrow> deployment" where
  "deployed now x = x\<lparr>d_status := DeploymentStatusDeployed, d_deployed_at := Some now\<rparr>"

definition is_deploying :: "int \<Rightarrow> deployment \<Rightarrow> bool" where
  "is_deploying did x \<longleftrightarrow> d_id x = did \<and> d_status x = DeploymentStatusDeploying"

definition publish_row :: "int \<Rightarrow> string \<Rightarrow> int \<Rightarrow> deployment \<Rightarrow> deployment" where
  "publish_row now by did x =
     (if d_status x = DeploymentStatusDeployed then retired now by x
      else if is_deploying did x then deployed now x else x)"

definition DeploymentPublish :: "int \<Rightarrow> string \<Rightarrow> int \<Rightarrow> db \<Rightarrow> (pgerr + deployment) \<times> db" where
  "DeploymentPublish now by did d =
     put_deployments (map (publish_row now by did) (deployments d))
       (one_row (map (deployed now) (filter (is_deploying did) (deployments d)))) d"

definition UpdateDeploymentLastError :: "string \<Rightarrow> int \<Rightarrow> db \<Rightarrow> (pgerr + unit) \<times> db" where
  "UpdateDeploymentLastError msg did d =
     put_deployments
       (update_where (\<lambda>x. d_id x = did)
          (\<lambda>x. x\<lparr>d_last_error := Some msg, d_status := DeploymentStatusFailed\<rparr>) (deployments d))
       (Inr ()) d"

definition UpdateDeploymentMigrationLogs :: "json \<Rightarrow> int \<Rightarrow> db \<Rightarrow> (pgerr + unit) \<times> db" where
  "UpdateDeploymentMigrationLogs logs did d =
     (Inr (), d\<lparr>deployments :=
        update_where (\<lambda>x. d_id x = did) (\<lambda>x. x\<lparr>d_migration_logs := Some logs\<rparr>) (deployments d)\<rparr>)"

subsection \<open>New deployments\<close>

definition new_deployment ::
    "int \<Rightarrow> int \<Rightarrow> string \<Rightarrow> string list option \<Rightarrow> string \<Rightarrow> int \<Rightarrow> deployment" where
  "new_deployment now did name reviewers creator sid =
     \<lparr>d_id = did, d_name = name, d_status = DeploymentStatusDraft,
      d_reviewers = from_ptr_or reviewers [], d_config_suite_id = Some sid, d_notes = None,
      d_created_by = creator, d_created_at = now, d_approved_by = None, d_approved_at = None,
      d_finished_by = None, d_finished_at = None, d_migration_logs = None, d_last_error = None,
      d_deploying_at = None, d_deployed_at = None\<rparr>"

text \<open>
  The content a new suite starts with for one actor: its newest config in the suites \<open>from\<close>, else
  its newest config of all, else the empty object. The minimum version is the newest config's.
\<close>

definition initial_content :: "(config \<Rightarrow> bool) \<Rightarrow> db \<Rightarrow> int \<Rightarrow> json" where
  "initial_content from_suite d aid =
     (let mine = filter (\<lambda>c. c_actor_id c = aid) (configs d)
      in case newest (filter from_suite mine) of
           Some c \<Rightarrow> c_content c
         | None \<Rightarrow> (case newest mine of Some c \<Rightarrow> c_content c | None \<Rightarrow> JObj []))"

definition initial_min_version :: "db \<Rightarrow> int \<Rightarrow> int list option" where
  "initial_min_version d aid =
     Option.bind (newest (filter (\<lambda>c. c_actor_id c = aid) (configs d))) c_min_actor_version"

fun number_from :: "int \<Rightarrow> 'a list \<Rightarrow> (int \<times> 'a) list" where
  "number_from n [] = []"
| "number_from n (x # xs) = (n, x) # number_from (n + 1) xs"

definition initial_configs :: "int \<Rightarrow> (config \<Rightarrow> bool) \<Rightarrow> int \<Rightarrow> string \<Rightarrow> db \<Rightarrow> config list" where
  "initial_configs now from_suite sid creator d =
     map (\<lambda>(k, a). new_config now k (a_id a) (Some sid) (initial_content from_suite d (a_id a))
            (initial_min_version d (a_id a)) creator)
       (number_from (next_config d) (filter a_configurable (actors d)))"

text \<open>
  The suite, the deployment and its configs are inserted by one statement: on a name that is
  taken none of them is.
\<close>

definition create_deployment ::
    "int \<Rightarrow> (config \<Rightarrow> bool) \<Rightarrow> string \<Rightarrow> string list option \<Rightarrow> string \<Rightarrow> db \<Rightarrow>
     (pgerr + deployment) \<times> db" where
  "create_deployment now from_suite name reviewers creator d =
     (let sid = next_suite d;
          row = new_deployment now (next_deployment d) name reviewers creator sid;
          cs = initial_configs now from_suite sid creator d
      in put_deployments (deployments d @ [row]) (Inr row)
           (if deployment_indexes (deployments d @ [row])
            then d\<lparr>config_suites := config_suites d @ [new_suite now sid creator],
                   next_suite := sid + 1, next_deployment := next_deployment d + 1,
                   configs := configs d @ cs, next_config := next_config d + int (length cs)\<rparr>
            else d))"

text \<open>Without a suite, and in any status; no handler uses it.\<close>

definition DeploymentInsert ::
    "int \<Rightarrow> string \<Rightarrow> DeploymentStatus option \<Rightarrow> string list option \<Rightarrow> string \<Rightarrow> db \<Rightarrow> (pgerr + deployment) \<times> db" where
  "DeploymentInsert now name status reviewers creator d =
     (let row = (new_deployment now (next_deployment d) name reviewers creator 0)
            \<lparr>d_status := from_ptr_or status DeploymentStatusDraft, d_config_suite_id := None\<rparr>
      in put_deployments (deployments d @ [row]) (Inr row)
           (if deployment_indexes (deployments d @ [row]) then d\<lparr>next_deployment := next_deployment d + 1\<rparr> else d))"

definition in_active_suite :: "db \<Rightarrow> config \<Rightarrow> bool" where
  "in_active_suite d c = list_ex (\<lambda>s. s_active s \<and> c_config_suite_id c = Some (s_id s)) (config_suites d)"

definition DeploymentInsertWithConfigSuite ::
    "int \<Rightarrow> string \<Rightarrow> string list option \<Rightarrow> string \<Rightarrow> db \<Rightarrow> (pgerr + deployment) \<times> db" where
  "DeploymentInsertWithConfigSuite now name reviewers creator d =
     create_deployment now (in_active_suite d) name reviewers creator d"

text \<open>A source without suite has no config in it: a comparison with NULL is never true.\<close>

definition in_suite :: "int option \<Rightarrow> config \<Rightarrow> bool" where
  "in_suite sid c = (case sid of None \<Rightarrow> False | Some s \<Rightarrow> c_config_suite_id c = Some s)"

definition DeploymentCloneFrom ::
    "int \<Rightarrow> int \<Rightarrow> string \<Rightarrow> string list option \<Rightarrow> string \<Rightarrow> db \<Rightarrow> (pgerr + deployment) \<times> db" where
  "DeploymentCloneFrom now src name reviewers creator d =
     (case find (\<lambda>x. d_id x = src) (deployments d) of
        None \<Rightarrow> (Inl ErrNoRows, d)
      | Some x \<Rightarrow> create_deployment now (in_suite (d_config_suite_id x)) name reviewers creator d)"

lemmas deployment_statements [query_simps] =
  DeploymentGetById_def DeploymentDelete_def DeploymentSubmitForReview_def DeploymentUpdate_def
  DeploymentReject_def SetDeploymentDeploying_def DeploymentPublish_def
  UpdateDeploymentLastError_def UpdateDeploymentMigrationLogs_def
  DeploymentInsertWithConfigSuite_def DeploymentCloneFrom_def

subsection \<open>Invariant\<close>

text \<open>What a row's timestamps and signatures say about its status.\<close>

definition deployment_row_ok :: "deployment \<Rightarrow> bool" where
  "deployment_row_ok x \<longleftrightarrow>
     (d_status x \<in> {DeploymentStatusDeploying, DeploymentStatusDeployed} \<longrightarrow>
        d_deploying_at x \<noteq> None \<and> d_approved_by x \<noteq> None) \<and>
     (d_status x = DeploymentStatusDeployed \<longrightarrow> d_deployed_at x \<noteq> None) \<and>
     (d_status x = DeploymentStatusRetired \<longrightarrow> d_finished_by x \<noteq> None) \<and>
     (d_status x = DeploymentStatusRejected \<longrightarrow> (\<exists>by \<in> set (d_reviewers x). d_finished_by x = Some by))"

definition deployments_inv :: "db \<Rightarrow> bool" where
  "deployments_inv d \<longleftrightarrow>
     configs_inv d \<and> distinct (map d_id (deployments d)) \<and> deployment_indexes (deployments d) \<and>
     (\<forall>x \<in> set (deployments d). d_id x < next_deployment d \<and> deployment_row_ok x \<and>
        (\<forall>sid. d_config_suite_id x = Some sid \<longrightarrow> sid \<in> s_id ` set (config_suites d)))"

lemma with_status_simps [simp]:
  "with_status st [] = []"
  "with_status st (x # xs) = (if d_status x = st then x # with_status st xs else with_status st xs)"
  by (simp_all add: with_status_def)

lemma with_status_append [simp]: "with_status st (xs @ ys) = with_status st xs @ with_status st ys"
  by (simp add: with_status_def)

lemma configs_inv_deployments [simp]: "configs_inv (d\<lparr>deployments := rows\<rparr>) = configs_inv d"
  by (simp add: configs_inv_def)

lemma put_deployments_db:
  "snd (put_deployments rows r d) = d \<or>
   deployment_indexes rows \<and> snd (put_deployments rows r d) = d\<lparr>deployments := rows\<rparr>"
  by (simp add: put_deployments_def)

text \<open>A change of rows that keeps the ids and the row facts keeps the invariant.\<close>

lemma put_rows_inv:
  assumes "deployments_inv d"
    and "\<And>x. x \<in> set (deployments d) \<Longrightarrow> d_id (f x) = d_id x \<and> d_config_suite_id (f x) = d_config_suite_id x"
    and "\<And>x. x \<in> set (deployments d) \<Longrightarrow> deployment_row_ok (f x)"
  shows "deployments_inv (snd (put_deployments (map f (deployments d)) r d))"
proof -
  have ids: "map d_id (map f (deployments d)) = map d_id (deployments d)"
    using assms(2) by simp
  show ?thesis
    using put_deployments_db [of "map f (deployments d)" r d]
  proof
    assume "snd (put_deployments (map f (deployments d)) r d) = d"
    with assms(1) show ?thesis by simp
  next
    assume "deployment_indexes (map f (deployments d)) \<and>
      snd (put_deployments (map f (deployments d)) r d) = d\<lparr>deployments := map f (deployments d)\<rparr>"
    with ids assms show ?thesis
      unfolding deployments_inv_def by (simp del: map_map)
  qed
qed

lemma update_deployments_inv:
  assumes "deployments_inv d"
    and "\<And>x. d_id (f x) = d_id x \<and> d_config_suite_id (f x) = d_config_suite_id x"
    and "\<And>x. p x \<Longrightarrow> deployment_row_ok x \<Longrightarrow> deployment_row_ok (f x)"
  shows "deployments_inv (snd (put_deployments (update_where p f (deployments d)) r d))"
proof -
  have "\<And>x. x \<in> set (deployments d) \<Longrightarrow> deployment_row_ok x"
    using assms(1) by (simp add: deployments_inv_def)
  with assms(2,3) show ?thesis
    unfolding update_where_def by (intro put_rows_inv [OF assms(1)]) simp_all
qed

lemma submit_inv: "deployments_inv d \<Longrightarrow> deployments_inv (snd (DeploymentSubmitForReview did d))"
  unfolding DeploymentSubmitForReview_def update_deployments_def
  by (rule update_deployments_inv) (auto simp: deployment_row_ok_def)

lemma update_inv: "deployments_inv d \<Longrightarrow> deployments_inv (snd (DeploymentUpdate name rs did d))"
  unfolding DeploymentUpdate_def update_deployments_def
  by (rule update_deployments_inv) (auto simp: deployment_row_ok_def edited_def is_draft_def)

lemma reject_inv: "deployments_inv d \<Longrightarrow> deployments_inv (snd (DeploymentReject parse now by notes did d))"
  unfolding DeploymentReject_def update_deployments_def
  by (cases "parse notes", simp, simp, rule update_deployments_inv)
    (auto simp: deployment_row_ok_def rejected_def rejectable_def)

lemma set_deploying_inv:
  assumes "deployments_inv d"
  shows "deployments_inv (snd (SetDeploymentDeploying now by did d))"
proof -
  have "deployments_inv (snd (put_deployments
      (update_where (\<lambda>y. d_id y = did) (set_deploying now by) (deployments d)) (Inr ('''' :: string)) d))"
    by (rule update_deployments_inv [OF assms]) (auto simp: deployment_row_ok_def set_deploying_def)
  with assms show ?thesis
    by (simp add: SetDeploymentDeploying_def split: option.split)
qed

lemma publish_inv: "deployments_inv d \<Longrightarrow> deployments_inv (snd (DeploymentPublish now by did d))"
  unfolding DeploymentPublish_def
  by (rule put_rows_inv)
    (auto simp: deployment_row_ok_def publish_row_def retired_def deployed_def is_deploying_def deployments_inv_def)

lemma last_error_inv: "deployments_inv d \<Longrightarrow> deployments_inv (snd (UpdateDeploymentLastError msg did d))"
  unfolding UpdateDeploymentLastError_def
  by (rule update_deployments_inv) (auto simp: deployment_row_ok_def)

lemma logs_inv: "deployments_inv d \<Longrightarrow> deployments_inv (snd (UpdateDeploymentMigrationLogs logs did d))"
proof -
  assume inv: "deployments_inv d"
  let ?f = "\<lambda>x. x\<lparr>d_migration_logs := Some logs\<rparr>"
  let ?rows = "update_where (\<lambda>x. d_id x = did) ?f (deployments d)"
  have "map d_id ?rows = map d_id (deployments d)" "map d_name ?rows = map d_name (deployments d)"
    by (simp_all add: map_update_where)
  moreover have "length (with_status st ?rows) = length (with_status st (deployments d))" for st
  proof -
    have "filter (\<lambda>x. d_status x = st) ?rows =
        update_where (\<lambda>x. d_id x = did) ?f (filter (\<lambda>x. d_status x = st) (deployments d))"
      by (rule filter_update_where_commute) simp
    then show ?thesis by (simp add: with_status_def)
  qed
  ultimately show ?thesis
    using inv unfolding UpdateDeploymentMigrationLogs_def deployments_inv_def
    by (auto simp: deployment_indexes_def deployment_row_ok_def set_update_where)
qed

lemma delete_inv:
  assumes "deployments_inv d"
  shows "deployments_inv (snd (DeploymentDelete did d))"
proof -
  have less: "length (with_status st (filter p rows)) \<le> 1" if "length (with_status st rows) \<le> 1" for st p rows
    using le_trans [OF length_filter_le [of p "with_status st rows"] that]
    by (simp add: with_status_def conj_commute)
  have "distinct (map d_name (filter p rows))" if "distinct (map d_name rows)" for p and rows :: "deployment list"
    using that by (rule distinct_map_filter)
  with assms less show ?thesis
    unfolding DeploymentDelete_def deployments_inv_def deployment_indexes_def
    by (auto intro: distinct_map_filter)
qed

lemma map_fst_number_from: "map fst (number_from n xs) = [n..n + int (length xs) - 1]"
  by (induction xs arbitrary: n) (simp_all add: upto_rec1)

lemma map_snd_number_from [simp]: "map snd (number_from n xs) = xs"
  by (induction xs arbitrary: n) simp_all

lemma length_number_from [simp]: "length (number_from n xs) = length xs"
  by (induction xs arbitrary: n) simp_all

lemma initial_configs_ids:
  "map c_id (initial_configs now from_suite sid creator d) =
     [next_config d..next_config d + int (length (initial_configs now from_suite sid creator d)) - 1]"
proof -
  have "map c_id (initial_configs now from_suite sid creator d) =
      map fst (number_from (next_config d) (filter a_configurable (actors d)))"
    by (auto simp: initial_configs_def new_config_def)
  then show ?thesis
    by (simp add: map_fst_number_from initial_configs_def)
qed

lemma in_initial_configs:
  assumes "c \<in> set (initial_configs now from_suite sid creator d)"
  obtains a where "a \<in> set (actors d)" "a_configurable a" "c_actor_id c = a_id a"
    "c_config_suite_id c = Some sid" "c_content c = initial_content from_suite d (a_id a)"
    "c_min_actor_version c = initial_min_version d (a_id a)" "c_created_by c = creator"
    "next_config d \<le> c_id c"
    "c_id c < next_config d + int (length (initial_configs now from_suite sid creator d))"
proof -
  obtain k a where ka: "(k, a) \<in> set (number_from (next_config d) (filter a_configurable (actors d)))"
    and c: "c = new_config now k (a_id a) (Some sid) (initial_content from_suite d (a_id a))
      (initial_min_version d (a_id a)) creator"
    using assms by (auto simp: initial_configs_def)
  from ka have "a \<in> set (map snd (number_from (next_config d) (filter a_configurable (actors d))))"
    unfolding set_map by (rule rev_image_eqI) simp
  then have "a \<in> set (actors d)" "a_configurable a" by simp_all
  moreover have "c_id c \<in> set (map c_id (initial_configs now from_suite sid creator d))"
    using assms by simp
  then have "c_id c \<in> {next_config d..next_config d + int (length (initial_configs now from_suite sid creator d)) - 1}"
    unfolding initial_configs_ids by simp
  ultimately show ?thesis
    by (intro that) (simp_all add: c new_config_def)
qed

lemma configs_inv_new_suite:
  assumes inv: "configs_inv d"
    and cs_def: "cs = initial_configs now from_suite (next_suite d) creator d"
  shows "configs_inv (d\<lparr>config_suites := config_suites d @ [new_suite now (next_suite d) creator],
      next_suite := next_suite d + 1, next_deployment := n,
      configs := configs d @ cs, next_config := next_config d + int (length cs)\<rparr>)"
proof -
  have ids: "map c_id cs = [next_config d..next_config d + int (length cs) - 1]"
    unfolding cs_def by (rule initial_configs_ids)
  have old: "\<forall>c \<in> set (configs d). c_id c < next_config d"
    using inv by (simp add: configs_inv_def)
  have "distinct (map c_id (configs d @ cs))"
    using inv old unfolding map_append distinct_append ids
    by (auto simp: configs_inv_def)
  moreover have new: "c_id c < next_config d + int (length cs) \<and> c_actor_id c \<in> a_id ` set (actors d) \<and>
      c_config_suite_id c = Some (next_suite d)" if "c \<in> set cs" for c
    using that unfolding cs_def by (rule in_initial_configs) auto
  moreover have "distinct (map s_id (config_suites d @ [new_suite now (next_suite d) creator]))"
    using inv by (auto simp: configs_inv_def new_suite_def)
  ultimately show ?thesis
    using inv unfolding configs_inv_def
    by (fastforce simp: new_suite_def)
qed

lemma create_inv:
  assumes "deployments_inv d"
  shows "deployments_inv (snd (create_deployment now from_suite name rs creator d))"
proof (cases "deployment_indexes (deployments d @ [new_deployment now (next_deployment d) name rs creator (next_suite d)])")
  case True
  have "configs_inv (d\<lparr>config_suites := config_suites d @ [new_suite now (next_suite d) creator],
      next_suite := next_suite d + 1, next_deployment := next_deployment d + 1,
      configs := configs d @ initial_configs now from_suite (next_suite d) creator d,
      next_config := next_config d + int (length (initial_configs now from_suite (next_suite d) creator d))\<rparr>)"
    using assms by (intro configs_inv_new_suite [OF _ refl]) (simp add: deployments_inv_def)
  with True assms show ?thesis
    unfolding create_deployment_def Let_def put_deployments_def deployments_inv_def
    by (auto simp: new_deployment_def new_suite_def deployment_row_ok_def)
qed (use assms in \<open>simp add: create_deployment_def Let_def put_deployments_def\<close>)

subsection \<open>Steps\<close>

text \<open>The statements that write deployments or configs, in any order and with any arguments.\<close>

inductive deploy_step :: "db \<Rightarrow> db \<Rightarrow> bool" where
  submit: "deploy_step d (snd (DeploymentSubmitForReview did d))"
| update: "deploy_step d (snd (DeploymentUpdate name rs did d))"
| reject: "deploy_step d (snd (DeploymentReject parse now by notes did d))"
| set_deploying: "deploy_step d (snd (SetDeploymentDeploying now by did d))"
| publish: "deploy_step d (snd (DeploymentPublish now by did d))"
| last_error: "deploy_step d (snd (UpdateDeploymentLastError msg did d))"
| logs: "deploy_step d (snd (UpdateDeploymentMigrationLogs l did d))"
| delete: "deploy_step d (snd (DeploymentDelete did d))"
| insert: "deploy_step d (snd (DeploymentInsertWithConfigSuite now name ors creator d))"
| clone: "deploy_step d (snd (DeploymentCloneFrom now src name ors creator d))"
| activate: "deploy_step d (snd (ConfigSuiteActivate now by sid d))"
| edit_config: "deploy_step d (snd (ConfigUpdateInactiveContentByCreator now content minv by cid d))"
| insert_config: "deploy_step d (snd (ConfigInsert now aid v creator minv osid d))"

lemma config_write_inv:
  assumes "deployments_inv d" and "configs_inv e" and "deployments e = deployments d"
    and "next_deployment e = next_deployment d"
    and "s_id ` set (config_suites e) = s_id ` set (config_suites d)"
  shows "deployments_inv e"
  using assms by (simp add: deployments_inv_def)

lemma deploy_step_inv: "deploy_step d e \<Longrightarrow> deployments_inv d \<Longrightarrow> deployments_inv e"
proof (induction rule: deploy_step.induct)
  case (insert d now name ors creator)
  then show ?case by (simp add: DeploymentInsertWithConfigSuite_def create_inv)
next
  case (clone d now src name ors creator)
  then show ?case by (simp add: DeploymentCloneFrom_def create_inv split: option.split)
next
  case (activate d now "by" sid)
  then show ?case
    by (intro config_write_inv [OF activate]) (simp_all add: activate_inv deployments_inv_def)
next
  case (edit_config d now content minv "by" cid)
  then show ?case
    by (intro config_write_inv [OF edit_config]) (simp_all add: config_update_inv deployments_inv_def)
next
  case (insert_config d now aid v creator minv osid)
  then show ?case
    by (intro config_write_inv [OF insert_config]) (simp_all add: config_insert_inv deployments_inv_def)
qed (simp_all add: submit_inv update_inv reject_inv set_deploying_inv publish_inv last_error_inv
    logs_inv delete_inv)

lemma deploy_steps_inv: "deploy_step\<^sup>*\<^sup>* d e \<Longrightarrow> deployments_inv d \<Longrightarrow> deployments_inv e"
  by (induction rule: rtranclp_induct) (simp_all add: deploy_step_inv)

subsection \<open>The life of a deployment\<close>

text \<open>The statuses a deployment may have later, by the status it has now.\<close>

fun later_statuses :: "DeploymentStatus \<Rightarrow> DeploymentStatus list" where
  "later_statuses DeploymentStatusDraft =
     [DeploymentStatusDraft, DeploymentStatusReviewing, DeploymentStatusRejected,
      DeploymentStatusDeploying, DeploymentStatusDeployed, DeploymentStatusRetired, DeploymentStatusFailed]"
| "later_statuses DeploymentStatusReviewing =
     [DeploymentStatusReviewing, DeploymentStatusRejected, DeploymentStatusDeploying,
      DeploymentStatusDeployed, DeploymentStatusRetired, DeploymentStatusFailed]"
| "later_statuses DeploymentStatusDeploying =
     [DeploymentStatusDeploying, DeploymentStatusDeployed, DeploymentStatusRetired, DeploymentStatusFailed]"
| "later_statuses DeploymentStatusDeployed =
     [DeploymentStatusDeployed, DeploymentStatusRetired, DeploymentStatusFailed]"
| "later_statuses DeploymentStatusFailed = [DeploymentStatusFailed]"
| "later_statuses s = [s, DeploymentStatusFailed]"

lemma later_refl: "s \<in> set (later_statuses s)"
  by (cases s) simp_all

lemma later_trans: "t \<in> set (later_statuses s) \<Longrightarrow> u \<in> set (later_statuses t) \<Longrightarrow> u \<in> set (later_statuses s)"
  by (cases s; cases t) auto

lemma failed_later: "DeploymentStatusFailed \<in> set (later_statuses s)"
  by (cases s) simp_all

lemma never_draft_again:
  "t \<in> set (later_statuses s) \<Longrightarrow> s \<noteq> DeploymentStatusDraft \<Longrightarrow> t \<noteq> DeploymentStatusDraft"
  by (cases s) auto

text \<open>What may happen to a row: a later status, and its name and reviewers fixed once it left draft.\<close>

definition row_evolves :: "deployment \<Rightarrow> deployment \<Rightarrow> bool" where
  "row_evolves x y \<longleftrightarrow>
     d_id y = d_id x \<and> d_status y \<in> set (later_statuses (d_status x)) \<and>
     d_config_suite_id y = d_config_suite_id x \<and> d_created_by y = d_created_by x \<and>
     (d_status x \<noteq> DeploymentStatusDraft \<longrightarrow> d_name y = d_name x \<and> d_reviewers y = d_reviewers x)"

lemma row_evolves_refl: "row_evolves x x"
  by (simp add: row_evolves_def later_refl)

lemma unchanged_evolves: "y \<in> set rows \<Longrightarrow> \<exists>x \<in> set rows. row_evolves x y"
  using row_evolves_refl by blast

lemma row_evolves_trans: "row_evolves x y \<Longrightarrow> row_evolves y z \<Longrightarrow> row_evolves x z"
  unfolding row_evolves_def by (auto intro: later_trans dest: never_draft_again)

lemma put_rows_evolve:
  assumes "y \<in> set (deployments (snd (put_deployments (map f (deployments d)) r d)))"
    and "\<And>x. row_evolves x (f x)"
  shows "\<exists>x \<in> set (deployments d). row_evolves x y"
  using assms by (auto simp: put_deployments_def unchanged_evolves split: if_splits)

lemma update_rows_evolve:
  assumes "y \<in> set (deployments (snd (put_deployments (update_where p f (deployments d)) r d)))"
    and "\<And>x. p x \<Longrightarrow> row_evolves x (f x)"
  shows "\<exists>x \<in> set (deployments d). row_evolves x y"
  using assms unfolding update_where_def
  by (intro put_rows_evolve) (auto simp: row_evolves_refl)

lemma row_evolves_changes:
  "is_draft did x \<Longrightarrow> row_evolves x (x\<lparr>d_status := DeploymentStatusReviewing\<rparr>)"
  "is_draft did x \<Longrightarrow> row_evolves x (edited name rs x)"
  "rejectable by did x \<Longrightarrow> row_evolves x (rejected now by v x)"
  "row_evolves x (publish_row now by did x)"
  "row_evolves x (x\<lparr>d_last_error := Some msg, d_status := DeploymentStatusFailed\<rparr>)"
  "row_evolves x (x\<lparr>d_migration_logs := Some l\<rparr>)"
  by (simp_all add: row_evolves_def is_draft_def edited_def rejectable_def rejected_def
      publish_row_def retired_def is_deploying_def deployed_def failed_later later_refl)

lemma create_rows:
  assumes "y \<in> set (deployments (snd (create_deployment now from_suite name rs creator d)))"
  shows "y \<in> set (deployments d) \<or> d_id y = next_deployment d"
  using assms
  by (auto simp: create_deployment_def Let_def put_deployments_def new_deployment_def split: if_splits)

lemma set_deploying_rows:
  assumes inv: "deployments_inv d"
    and y: "y \<in> set (deployments (snd (SetDeploymentDeploying now by did d)))"
  shows "\<exists>x \<in> set (deployments d). row_evolves x y"
proof (cases "find (\<lambda>x. d_id x = did) (deployments d)")
  case (Some x)
  show ?thesis
  proof (cases "d_status x \<in> {DeploymentStatusReviewing, DeploymentStatusDraft} \<and> \<not> others_deploying d")
    case True
    have only: "z = x" if "z \<in> set (deployments d)" "d_id z = did" for z
      using inv that find_SomeD [OF Some] by (auto simp: deployments_inv_def dest: distinct_key_unique)
    have "row_evolves x (set_deploying now by x)"
      using True by (auto simp: row_evolves_def set_deploying_def)
    moreover have "y \<in> set (deployments d) \<or> y = set_deploying now by x"
      using y True Some only by (auto simp: SetDeploymentDeploying_def put_deployments_def
          set_update_where split: if_splits)
    ultimately show ?thesis
      using find_SomeD [OF Some] by (auto intro: unchanged_evolves)
  qed (use y Some in \<open>auto simp: SetDeploymentDeploying_def unchanged_evolves split: if_splits\<close>)
qed (use y in \<open>auto simp: SetDeploymentDeploying_def unchanged_evolves\<close>)

lemma deploy_step_rows:
  assumes "deploy_step d e" and "deployments_inv d" and "y \<in> set (deployments e)"
  shows "(\<exists>x \<in> set (deployments d). row_evolves x y) \<or> d_id y = next_deployment d"
  using assms
proof (induction rule: deploy_step.induct)
  case (submit d did)
  then show ?case
    unfolding DeploymentSubmitForReview_def update_deployments_def
    using update_rows_evolve row_evolves_changes(1) by blast
next
  case (update d name rs did)
  then show ?case
    unfolding DeploymentUpdate_def update_deployments_def
    using update_rows_evolve row_evolves_changes(2) by blast
next
  case (reject d parse now "by" txt0 did)
  show ?case
  proof (cases "parse txt0")
    case None
    with reject show ?thesis by (simp add: DeploymentReject_def unchanged_evolves)
  next
    case (Some v)
    with reject have "y \<in> set (deployments (snd (update_deployments (rejectable by did) (rejected now by v) d)))"
      by (simp add: DeploymentReject_def)
    then show ?thesis
      unfolding update_deployments_def using update_rows_evolve row_evolves_changes(3) by blast
  qed
next
  case (set_deploying d now "by" did)
  then show ?case using set_deploying_rows by blast
next
  case (publish d now "by" did)
  then show ?case
    unfolding DeploymentPublish_def using put_rows_evolve row_evolves_changes(4) by blast
next
  case (last_error d msg did)
  then show ?case
    unfolding UpdateDeploymentLastError_def using update_rows_evolve row_evolves_changes(5) by blast
next
  case (logs d l did)
  then have "y \<in> set (update_where (\<lambda>x. d_id x = did) (\<lambda>x. x\<lparr>d_migration_logs := Some l\<rparr>) (deployments d))"
    by (simp add: UpdateDeploymentMigrationLogs_def)
  then show ?case
    by (rule in_update_whereE) (use row_evolves_changes(6) unchanged_evolves in blast)+
next
  case (delete d did)
  then show ?case by (auto simp: DeploymentDelete_def intro: unchanged_evolves)
next
  case (insert d now name ors creator)
  then show ?case
    using create_rows unchanged_evolves unfolding DeploymentInsertWithConfigSuite_def by blast
next
  case (clone d now src name ors creator)
  show ?case
  proof (cases "find (\<lambda>x. d_id x = src) (deployments d)")
    case None
    with clone show ?thesis by (simp add: DeploymentCloneFrom_def unchanged_evolves)
  next
    case (Some x)
    with clone have "y \<in> set (deployments (snd
        (create_deployment now (in_suite (d_config_suite_id x)) name ors creator d)))"
      by (simp add: DeploymentCloneFrom_def)
    then show ?thesis using create_rows unchanged_evolves by blast
  qed
qed (simp_all add: unchanged_evolves)

lemma put_deployments_next [simp]: "next_deployment (snd (put_deployments rows r d)) = next_deployment d"
  by (simp add: put_deployments_def)

lemma create_next: "next_deployment d \<le> next_deployment (snd (create_deployment now from_suite name rs creator d))"
  by (simp add: create_deployment_def Let_def)

lemma deploy_step_next: "deploy_step d e \<Longrightarrow> next_deployment d \<le> next_deployment e"
  by (induction rule: deploy_step.induct)
    (simp_all add: DeploymentSubmitForReview_def DeploymentUpdate_def DeploymentReject_def
      SetDeploymentDeploying_def DeploymentPublish_def UpdateDeploymentLastError_def
      UpdateDeploymentMigrationLogs_def DeploymentDelete_def DeploymentInsertWithConfigSuite_def
      DeploymentCloneFrom_def update_deployments_def create_next split: option.split)

lemma deploy_steps_rows:
  assumes "deploy_step\<^sup>*\<^sup>* d e" and "deployments_inv d"
  shows "next_deployment d \<le> next_deployment e \<and>
    (\<forall>y \<in> set (deployments e). d_id y < next_deployment d \<longrightarrow> (\<exists>x \<in> set (deployments d). row_evolves x y))"
  using assms(1)
proof (induction rule: rtranclp_induct)
  case base
  then show ?case by (simp add: unchanged_evolves)
next
  case (step e f)
  have inv: "deployments_inv e"
    by (rule deploy_steps_inv [OF step.hyps(1) assms(2)])
  have le: "next_deployment e \<le> next_deployment f"
    by (rule deploy_step_next [OF step.hyps(2)])
  have "\<exists>x \<in> set (deployments d). row_evolves x z"
    if z: "z \<in> set (deployments f)" and old: "d_id z < next_deployment d" for z
  proof -
    have "d_id z \<noteq> next_deployment e" using step.IH old by linarith
    then obtain y where y: "y \<in> set (deployments e)" "row_evolves y z"
      using deploy_step_rows [OF step.hyps(2) inv z] by blast
    then have "d_id y < next_deployment d" using old by (simp add: row_evolves_def)
    then obtain x where "x \<in> set (deployments d)" "row_evolves x y"
      using step.IH y(1) by blast
    with y(2) show ?thesis using row_evolves_trans by blast
  qed
  with step.IH le show ?case by auto
qed

subsection \<open>Effects\<close>

lemma find_deployment:
  "deployments_inv d \<Longrightarrow> find (\<lambda>x. d_id x = did) (deployments d) = Some x \<longleftrightarrow>
     x \<in> set (deployments d) \<and> d_id x = did"
  by (simp add: deployments_inv_def find_key_Some_iff)

lemma with_status_empty: "with_status st rows = [] \<longleftrightarrow> (\<forall>x \<in> set rows. d_status x \<noteq> st)"
  by (simp add: with_status_def filter_empty_conv)

lemma others_deploying_iff: "others_deploying d \<longleftrightarrow> with_status DeploymentStatusDeploying (deployments d) \<noteq> []"
  by (auto simp: others_deploying_def list_ex_iff with_status_empty)

text \<open>At most one row changes to a status, and none had it: the index on that status holds.\<close>

lemma with_status_update_one:
  assumes "distinct (map d_id rows)" and "with_status st rows = []"
  shows "length (with_status st (update_where (\<lambda>x. d_id x = did) f rows)) \<le> 1"
proof -
  have "length (with_status st (update_where (\<lambda>x. d_id x = did) f rows)) \<le>
      length (filter (\<lambda>x. d_id x = did) rows)"
    using assms(2) by (induction rows) (auto split: if_splits)
  then show ?thesis using filter_key_le_one [OF assms(1), of did] by linarith
qed

lemma set_deploying_indexes:
  assumes "deployments_inv d" and "\<not> others_deploying d"
  shows "deployment_indexes (update_where (\<lambda>y. d_id y = did) (set_deploying now by) (deployments d))"
proof -
  let ?rows = "update_where (\<lambda>y. d_id y = did) (set_deploying now by) (deployments d)"
  have "length (with_status DeploymentStatusDeploying ?rows) \<le> 1"
    using assms by (intro with_status_update_one) (auto simp: deployments_inv_def others_deploying_iff)
  moreover have "length (with_status DeploymentStatusDeployed ?rows) \<le> 1"
    using assms(1) unfolding with_status_def
    by (intro filter_at_most_one_update)
      (auto simp: set_deploying_def deployments_inv_def deployment_indexes_def with_status_def)
  moreover have "map d_name ?rows = map d_name (deployments d)"
    by (rule map_update_where) (simp add: set_deploying_def)
  ultimately show ?thesis
    using assms(1) by (simp add: deployment_indexes_def deployments_inv_def)
qed

lemma set_deploying_result:
  assumes "deployments_inv d" and "x \<in> set (deployments d)"
  shows "SetDeploymentDeploying now by (d_id x) d =
    (if d_status x \<notin> {DeploymentStatusReviewing, DeploymentStatusDraft} then (Inr wrongStatusText, d)
     else if others_deploying d then (Inr deployingText, d)
     else (Inr '''', d\<lparr>deployments :=
        update_where (\<lambda>y. y = x) (set_deploying now by) (deployments d)\<rparr>))"
proof -
  have "find (\<lambda>y. d_id y = d_id x) (deployments d) = Some x"
    using assms by (simp add: find_deployment)
  moreover have "update_where (\<lambda>y. d_id y = d_id x) (set_deploying now by) (deployments d) =
      update_where (\<lambda>y. y = x) (set_deploying now by) (deployments d)"
    using assms by (intro update_where_cong) (auto simp: deployments_inv_def dest: distinct_key_unique)
  ultimately show ?thesis
    using set_deploying_indexes [OF assms(1), of "d_id x" now "by"]
    by (simp add: SetDeploymentDeploying_def put_deployments_def)
qed

lemma publish_row_simps [simp]:
  "d_id (publish_row now by did x) = d_id x" "d_name (publish_row now by did x) = d_name x"
  "d_config_suite_id (publish_row now by did x) = d_config_suite_id x"
  by (simp_all add: publish_row_def retired_def deployed_def)

lemma publish_row_status:
  "d_status (publish_row now by did x) =
     (if d_status x = DeploymentStatusDeployed then DeploymentStatusRetired
      else if is_deploying did x then DeploymentStatusDeployed else d_status x)"
  by (simp add: publish_row_def retired_def deployed_def)

lemma publish_indexes:
  assumes "deployments_inv d"
  shows "deployment_indexes (map (publish_row now by did) (deployments d))"
proof -
  let ?rows = "map (publish_row now by did) (deployments d)"
  have names: "map d_name ?rows = map d_name (deployments d)" by simp
  have "length (with_status DeploymentStatusDeploying ?rows) \<le>
      length (with_status DeploymentStatusDeploying (deployments d))"
    unfolding with_status_def filter_map length_map
    by (rule filter_length_mono) (auto simp: publish_row_status split: if_splits)
  moreover have "length (with_status DeploymentStatusDeployed ?rows) \<le>
      length (filter (\<lambda>x. d_id x = did) (deployments d))"
    unfolding with_status_def filter_map length_map
    by (rule filter_length_mono) (auto simp: publish_row_status is_deploying_def split: if_splits)
  ultimately show ?thesis
    using assms filter_key_le_one [of d_id "deployments d" did] names
    by (simp add: deployments_inv_def deployment_indexes_def del: map_map)
qed

lemma publish_result:
  assumes "deployments_inv d"
  shows "DeploymentPublish now by did d =
    (one_row (map (deployed now) (filter (is_deploying did) (deployments d))),
     d\<lparr>deployments := map (publish_row now by did) (deployments d)\<rparr>)"
  using publish_indexes [OF assms] by (simp add: DeploymentPublish_def put_deployments_def)

lemma filter_deploying:
  assumes "deployments_inv d" and "x \<in> set (deployments d)" and "d_status x = DeploymentStatusDeploying"
  shows "filter (is_deploying (d_id x)) (deployments d) = [x]"
proof -
  have "filter (is_deploying (d_id x)) (deployments d) = filter (\<lambda>y. d_id y = d_id x) (deployments d)"
    using assms by (intro filter_cong)
      (auto simp: is_deploying_def deployments_inv_def dest: distinct_key_unique)
  also have "\<dots> = [x]"
    using assms by (intro filter_key_unique) (auto simp: deployments_inv_def)
  finally show ?thesis .
qed

text \<open>The configs of a new suite, read back by \<^verbatim>\<open>ConfigListBySuiteIdGroupByActor\<close>.\<close>

lemma newest_single [simp]: "newest [c] = Some c"
  by (simp add: newest_def)

lemma number_from_map_snd:
  "map (\<lambda>(k, a). g a) (number_from n xs) = map g xs"
  by (induction xs arbitrary: n) simp_all

lemma filter_number_from:
  assumes "distinct (map key xs)" and "a \<in> set xs"
  shows "\<exists>k. filter (\<lambda>(k, b). key b = key a) (number_from n xs) = [(k, a)]"
  using assms
proof (induction xs arbitrary: n)
  case (Cons x xs)
  have none: "filter (\<lambda>(k, b). key b = i) (number_from m ys) = []" if "i \<notin> key ` set ys" for i m ys
    using that by (induction ys arbitrary: m) auto
  show ?case
  proof (cases "a = x")
    case True
    with Cons.prems none show ?thesis by auto
  next
    case False
    with Cons.prems have "a \<in> set xs" "key x \<noteq> key a" by (auto simp: rev_image_eqI)
    with Cons show ?thesis by simp
  qed
qed simp

lemma sort_map_key: "sort (map key xs) = map key (sort_key key xs)"
proof (induction xs)
  case (Cons x xs)
  have "insort (key x) (map key ys) = map key (insort_key key x ys)" for ys
    by (induction ys) simp_all
  with Cons show ?case by simp
qed simp

lemma map_filter_all:
  "(\<And>x. x \<in> set xs \<Longrightarrow> f x = Some (h x)) \<Longrightarrow> List.map_filter f xs = map h xs"
  by (induction xs) (simp_all add: List.map_filter_def)

lemma new_suite_configs:
  fixes d creator now from_suite
  defines "cs \<equiv> initial_configs now from_suite (next_suite d) creator d"
  assumes inv: "configs_inv d" and dist: "distinct (map a_id (actors d))"
    and actors: "actors e = actors d" and configs: "configs e = configs d @ cs"
  shows "map_sum id (map (\<lambda>(c, a). (a, c_content c, c_min_actor_version c, c_created_by c)))
      (fst (ConfigListBySuiteIdGroupByActor (next_suite d) e)) =
    Inr (map (\<lambda>a. (a, initial_content from_suite d (a_id a), initial_min_version d (a_id a), creator))
      (sort_key a_id (filter a_configurable (actors d))))"
proof -
  let ?as = "filter a_configurable (actors d)"
  have all: "filter (\<lambda>c. c_config_suite_id c = Some (next_suite d)) (configs e) = cs"
  proof -
    have "\<And>c. c \<in> set (configs d) \<Longrightarrow> c_config_suite_id c \<noteq> Some (next_suite d)"
      using inv by (fastforce simp: configs_inv_def)
    moreover have "\<And>c. c \<in> set cs \<Longrightarrow> c_config_suite_id c = Some (next_suite d)"
      unfolding cs_def by (erule in_initial_configs) simp
    ultimately show ?thesis
      by (simp add: configs filter_empty_conv filter_id_conv)
  qed
  have das: "distinct (map a_id ?as)"
    using dist by (rule distinct_map_filter)
  have "map c_actor_id cs = map a_id ?as"
    unfolding cs_def initial_configs_def
    using number_from_map_snd [of a_id "next_config d" ?as]
    by (simp add: new_config_def case_prod_unfold comp_def)
  then have ids: "sort (remdups (map c_actor_id cs)) = map a_id (sort_key a_id ?as)"
    using das by (simp add: distinct_remdups_id sort_map_key)
  have row: "\<exists>k. Option.bind (newest (filter (\<lambda>c. c_actor_id c = a_id a) cs)) (with_actor e) =
      Some (new_config now k (a_id a) (Some (next_suite d)) (initial_content from_suite d (a_id a))
        (initial_min_version d (a_id a)) creator, a)"
    if a: "a \<in> set ?as" for a
  proof -
    obtain k where k: "filter (\<lambda>(k, b). a_id b = a_id a) (number_from (next_config d) ?as) = [(k, a)]"
      using filter_number_from [OF das a] by blast
    have "filter (\<lambda>c. c_actor_id c = a_id a) cs =
        [new_config now k (a_id a) (Some (next_suite d)) (initial_content from_suite d (a_id a))
          (initial_min_version d (a_id a)) creator]"
      using k by (simp add: cs_def initial_configs_def filter_map comp_def case_prod_unfold new_config_def)
    moreover have "actor_of e (a_id a) = Some a"
      using a dist by (simp add: actor_of_def actors find_key_Some_iff)
    ultimately show ?thesis by (simp add: with_actor_def new_config_def)
  qed
  define h where "h a = the (Option.bind (newest (filter (\<lambda>c. c_actor_id c = a_id a) cs)) (with_actor e))" for a :: actor
  have "fst (ConfigListBySuiteIdGroupByActor (next_suite d) e) =
      Inr (List.map_filter (\<lambda>a. Option.bind (newest (filter (\<lambda>c. c_actor_id c = a_id a) cs)) (with_actor e))
        (sort_key a_id ?as))"
    by (simp add: ConfigListBySuiteIdGroupByActor_def Let_def all ids List.map_filter_def filter_map comp_def)
  also have "\<dots> = Inr (map h (sort_key a_id ?as))"
    using row by (intro arg_cong [of _ _ Inr] map_filter_all) (fastforce simp: h_def)
  finally have list: "fst (ConfigListBySuiteIdGroupByActor (next_suite d) e) = Inr (map h (sort_key a_id ?as))" .
  have "(case h a of (c, b) \<Rightarrow> (b, c_content c, c_min_actor_version c, c_created_by c)) =
      (a, initial_content from_suite d (a_id a), initial_min_version d (a_id a), creator)"
    if "a \<in> set ?as" for a
    using row [OF that] by (auto simp: h_def new_config_def)
  then show ?thesis by (simp add: list comp_def)
qed

subsection \<open>A sample\<close>

text \<open>One deployment is deployed with the active suite, another one is a draft.\<close>

definition sample_live :: deployment where
  "sample_live = (new_deployment 20 1 ''first'' (Some [''ann'']) ''ops'' 1)\<lparr>
     d_status := DeploymentStatusDeployed, d_approved_by := Some ''ann'', d_approved_at := Some 30,
     d_deploying_at := Some 30, d_deployed_at := Some 31\<rparr>"

definition sample_draft :: deployment where
  "sample_draft = new_deployment 40 2 ''second'' (Some [''ann'']) ''ops'' 2"

definition sample_suites :: "config_suite list" where
  "sample_suites = [activate_suite 31 ''ann'' (new_suite 20 1 ''ops''), new_suite 40 2 ''ops'']"

definition sample_configs :: "config list" where
  "sample_configs =
     [new_config 20 1 1 (Some 1) (smap_json [(''MODEL'', ''small'')]) None ''ops'',
      new_config 40 2 1 (Some 2) (smap_json [(''MODEL'', ''large'')]) None ''ops'']"

definition deploy_db :: db where
  "deploy_db = sample_db\<lparr>deployments := [sample_live, sample_draft], next_deployment := 3,
     config_suites := sample_suites, next_suite := 3, configs := sample_configs, next_config := 3\<rparr>"

lemmas deploy_samples = sample_live_def sample_draft_def sample_suites_def sample_configs_def
  deploy_db_def new_deployment_def new_suite_def new_config_def activate_suite_def

lemma deploy_db_inv: "deployments_inv deploy_db"
  by (simp add: deployments_inv_def configs_inv_def deployment_indexes_def deployment_row_ok_def
      deploy_samples sample_db_def sample_actor_def empty_db_def)

lemma deploy_db_tables [simp]:
  "deployments deploy_db = [sample_live, sample_draft]" "actors deploy_db = [sample_actor]"
  "next_suite deploy_db = 3" "next_deployment deploy_db = 3" "next_config deploy_db = 3"
  "configs deploy_db = sample_configs" "config_suites deploy_db = sample_suites"
  by (simp_all add: deploy_db_def sample_db_def)

lemma sample_rows [simp]:
  "d_id sample_live = 1" "d_id sample_draft = 2" "d_name sample_live = ''first''" "d_name sample_draft = ''second''"
  "d_status sample_live = DeploymentStatusDeployed" "d_status sample_draft = DeploymentStatusDraft"
  by (simp_all add: sample_live_def sample_draft_def new_deployment_def)

lemma deploy_db_starts:
  "SetDeploymentDeploying 50 ''bob'' 2 deploy_db =
     (Inr '''', deploy_db\<lparr>deployments := [sample_live, set_deploying 50 ''bob'' sample_draft]\<rparr>)"
  using set_deploying_result [OF deploy_db_inv, of sample_draft 50 "''bob''"]
  by (simp add: others_deploying_def) (metis sample_rows(1,2) numeral_eq_one_iff semiring_norm(85))

lemma deploy_db_step: "deploy_step\<^sup>*\<^sup>* deploy_db (snd (SetDeploymentDeploying 50 ''bob'' 2 deploy_db))"
  by (rule r_into_rtranclp) (rule deploy_step.set_deploying)

subsection \<open>Properties\<close>





text \<open>C11.
  One deployment at a time: once \<^verbatim>\<open>SetDeploymentDeploying\<close> has answered with the empty text, the
  deployment is deploying and signed, every other row is as before, and every later call, for any
  deployment and any user, answers with a non-empty text and changes nothing, until some other
  statement ends the deploying.
\<close>
theorem one_deployment_starts:
  assumes "deployments_inv d" and "SetDeploymentDeploying now by did d = (Inr '''', e)"
  shows "(\<exists>x \<in> set (deployments d). d_id x = did \<and>
      d_status x \<in> {DeploymentStatusReviewing, DeploymentStatusDraft} \<and>
      set (deployments e) = insert (set_deploying now by x) (set (deployments d) - {x})) \<and>
    (\<exists>msg. msg \<noteq> '''' \<and> SetDeploymentDeploying now' by' did' e = (Inr msg, e))"
proof
  obtain x where x: "find (\<lambda>x. d_id x = did) (deployments d) = Some x"
    using assms(2) by (auto simp: SetDeploymentDeploying_def notFoundText_def split: option.splits)
  then have in_d: "x \<in> set (deployments d)" "d_id x = did"
    by (auto dest: find_SomeD)
  note result = set_deploying_result [OF assms(1) in_d(1), of now "by", unfolded in_d(2) assms(2)]
  then have st: "d_status x \<in> {DeploymentStatusReviewing, DeploymentStatusDraft}"
    and e: "e = d\<lparr>deployments := update_where (\<lambda>y. y = x) (set_deploying now by) (deployments d)\<rparr>"
    by (simp_all add: wrongStatusText_def deployingText_def split: if_splits)
  then have rows: "set (deployments e) = insert (set_deploying now by x) (set (deployments d) - {x})"
    using in_d by (simp add: set_update_where_one)
  then show "\<exists>x \<in> set (deployments d). d_id x = did \<and>
      d_status x \<in> {DeploymentStatusReviewing, DeploymentStatusDraft} \<and>
      set (deployments e) = insert (set_deploying now by x) (set (deployments d) - {x})"
    using in_d st by blast
  have "set_deploying now by x \<in> set (deployments e)" using rows by simp
  then have "others_deploying e"
    by (auto simp: others_deploying_def list_ex_iff set_deploying_def intro: bexI [rotated])
  then show "\<exists>msg. msg \<noteq> '''' \<and> SetDeploymentDeploying now' by' did' e = (Inr msg, e)"
    by (simp add: SetDeploymentDeploying_def notFoundText_def wrongStatusText_def deployingText_def
        split: option.split)
qed

theorem one_deployment_starts_witness:
  "\<exists>msg. msg \<noteq> '''' \<and> fst (SetDeploymentDeploying 60 ''ann'' 1 (snd (SetDeploymentDeploying 50 ''bob'' 2 deploy_db))) = Inr msg"
  using one_deployment_starts [OF deploy_db_inv deploy_db_starts, of 60 "''ann''" 1]
  by (auto simp: deploy_db_starts)

text \<open>C22.
  Publishing a deploying deployment never trips over an index: it answers with the row now
  deployed, every formerly deployed row is retired with the user's signature, it is the only
  deployed row, and all other rows are as they were. For an id that is not deploying it reports
  no rows, but has retired the deployed ones all the same (its caller rolls that back).
\<close>
theorem publish_switches_over:
  assumes "deployments_inv d"
  shows "(case find (is_deploying did) (deployments d) of
      None \<Rightarrow> fst (DeploymentPublish now by did d) = Inl ErrNoRows \<and>
        with_status DeploymentStatusDeployed (deployments (snd (DeploymentPublish now by did d))) = []
    | Some x \<Rightarrow> fst (DeploymentPublish now by did d) = Inr (deployed now x) \<and>
        with_status DeploymentStatusDeployed (deployments (snd (DeploymentPublish now by did d))) = [deployed now x]) \<and>
    set (deployments (snd (DeploymentPublish now by did d))) =
      {if d_status x = DeploymentStatusDeployed then retired now by x
       else if is_deploying did x then deployed now x else x | x. x \<in> set (deployments d)}"
proof -
  let ?e = "snd (DeploymentPublish now by did d)"
  have rows: "deployments ?e = map (publish_row now by did) (deployments d)"
    by (simp add: publish_result [OF assms])
  have now_deployed: "with_status DeploymentStatusDeployed (deployments ?e) =
      map (deployed now) (filter (is_deploying did) (deployments d))"
  proof -
    have "with_status DeploymentStatusDeployed (map (publish_row now by did) xs) =
        map (deployed now) (filter (is_deploying did) xs)" for xs
      by (induction xs) (auto simp: publish_row_def retired_def deployed_def is_deploying_def)
    with rows show ?thesis by simp
  qed
  have "case find (is_deploying did) (deployments d) of
      None \<Rightarrow> filter (is_deploying did) (deployments d) = []
    | Some x \<Rightarrow> filter (is_deploying did) (deployments d) = [x]"
    using filter_deploying [OF assms]
    by (auto simp: find_None_iff filter_empty_conv is_deploying_def split: option.split dest!: find_SomeD)
  moreover have "set (deployments ?e) =
      {if d_status x = DeploymentStatusDeployed then retired now by x
       else if is_deploying did x then deployed now x else x | x. x \<in> set (deployments d)}"
    unfolding rows by (auto simp: publish_row_def)
  moreover have "fst (DeploymentPublish now by did d) =
      one_row (map (deployed now) (filter (is_deploying did) (deployments d)))"
    by (simp add: publish_result [OF assms])
  ultimately show ?thesis
    unfolding now_deployed by (simp split: option.splits)
qed

theorem publish_switches_over_witness:
  "with_status DeploymentStatusDeployed (deployments (snd (DeploymentPublish 60 ''bob'' 2
     (snd (SetDeploymentDeploying 50 ''bob'' 2 deploy_db))))) =
   [deployed 60 (set_deploying 50 ''bob'' sample_draft)]"
  using publish_switches_over [where d = "snd (SetDeploymentDeploying 50 ''bob'' 2 deploy_db)" and did = 2 and now = 60
      and ?by = "''bob''", OF set_deploying_inv [OF deploy_db_inv]]
  by (simp add: deploy_db_starts is_deploying_def set_deploying_def)

text \<open>A new deployment starts complete: when \<^verbatim>\<open>DeploymentInsertWithConfigSuite\<close> succeeds, listing the
  configs of its suite gives exactly one config for every configurable actor, in the order of the
  actor ids, by the deployment's author, holding the actor's newest config of the active suites,
  failing that its newest of all, failing that the empty object.
\<close>
lemma new_deployment_covers_actors:
  assumes "deployments_inv d" and "distinct (map a_id (actors d))"
    and "DeploymentInsertWithConfigSuite now name reviewers creator d = (Inr row, e)"
  shows "\<exists>sid. d_config_suite_id row = Some sid \<and> d_status row = DeploymentStatusDraft \<and>
    row \<in> set (deployments e) \<and> (\<forall>c \<in> set (configs d). c_config_suite_id c \<noteq> Some sid) \<and>
    map_sum id (map (\<lambda>(c, a). (a, c_content c, c_min_actor_version c, c_created_by c)))
      (fst (ConfigListBySuiteIdGroupByActor sid e)) =
    Inr (map (\<lambda>a. (a, initial_content (in_active_suite d) d (a_id a), initial_min_version d (a_id a), creator))
      (sort_key a_id (filter a_configurable (actors d))))"
proof -
  let ?row = "new_deployment now (next_deployment d) name reviewers creator (next_suite d)"
  have ok: "deployment_indexes (deployments d @ [?row])"
    using assms(3) by (auto simp: DeploymentInsertWithConfigSuite_def create_deployment_def Let_def
        put_deployments_def split: if_splits)
  have row: "row = ?row" and tables: "actors e = actors d" "deployments e = deployments d @ [?row]"
      "configs e = configs d @ initial_configs now (in_active_suite d) (next_suite d) creator d"
    using assms(3) ok by (auto simp: DeploymentInsertWithConfigSuite_def create_deployment_def Let_def
        put_deployments_def)
  have inv: "configs_inv d" using assms(1) by (simp add: deployments_inv_def)
  then have "\<forall>c \<in> set (configs d). c_config_suite_id c \<noteq> Some (next_suite d)"
    by (fastforce simp: configs_inv_def)
  moreover note new_suite_configs [OF inv assms(2) tables(1,3)]
  ultimately show ?thesis
    using row tables by (intro exI [of _ "next_suite d"]) (simp add: new_deployment_def)
qed

end
