(* ===== verification/Actor_Store.thy ===== *)
theory Actor_Store
  imports Config_Store "HOL-Library.AList"
begin

text \<open>
  The statements of \<^verbatim>\<open>actor.sql.go\<close>, \<^verbatim>\<open>api_token.sql.go\<close>, \<^verbatim>\<open>queue.sql.go\<close> and \<^verbatim>\<open>setting.sql.go\<close>. \<open>now\<close> is
  the second the statement runs in. Inserts and updates report the constraints they break: unique
  names and token ids, the length of a queue name, the references between the tables, and
  permissions that are NULL.
\<close>

definition constraint_error :: "string \<Rightarrow> pgerr" where
  "constraint_error name = DbError (''violates constraint '' @ name)"

subsection \<open>Queues and actors\<close>

definition QueueInsert :: "int \<Rightarrow> string \<Rightarrow> json option \<Rightarrow> db \<Rightarrow> (pgerr + queue_row) \<times> db" where
  "QueueInsert now name metadata d =
     (if \<not> (0 < char_length name \<and> char_length name < 128) then (Inl (constraint_error ''name_length''), d)
      else if list_ex (\<lambda>q. q_name q = name) (queues d) then (Inl (constraint_error ''queues_name''), d)
      else let row = \<lparr>q_id = next_queue d, q_name = name, q_created_at = now,
                 q_metadata = from_ptr_or metadata (JObj []), q_paused_at = None, q_updated_at = None\<rparr>
           in (Inr row, d\<lparr>queues := queues d @ [row], next_queue := next_queue d + 1\<rparr>))"

record actor_insert_params =
  ai_name :: string
  ai_queue_id :: int
  ai_role :: ActorRole
  ai_enabled :: bool
  ai_deployable :: bool
  ai_configurable :: bool
  ai_migratable :: bool
  ai_mcp_enabled :: bool
  ai_permissions :: "string list option"

definition new_actor :: "int \<Rightarrow> int \<Rightarrow> actor_insert_params \<Rightarrow> actor" where
  "new_actor now aid p =
     \<lparr>a_id = aid, a_name = ai_name p, a_queue_id = ai_queue_id p, a_created_at = now,
      a_metadata = JObj [], a_updated_at = None, a_enabled = ai_enabled p, a_deployable = ai_deployable p,
      a_configurable = ai_configurable p, a_role = ai_role p, a_migratable = ai_migratable p,
      a_permissions = from_ptr_or (ai_permissions p) [], a_mcp_enabled = ai_mcp_enabled p\<rparr>"

text \<open>The only caller never passes metadata, so the row gets the empty object.\<close>

definition ActorInsert :: "int \<Rightarrow> actor_insert_params \<Rightarrow> db \<Rightarrow> (pgerr + actor) \<times> db" where
  "ActorInsert now p d =
     (if ai_permissions p = None then (Inl (constraint_error ''permissions not null''), d)
      else if list_ex (\<lambda>a. a_name a = ai_name p) (actors d) then (Inl (constraint_error ''actors_name''), d)
      else if \<not> list_ex (\<lambda>q. q_id q = ai_queue_id p) (queues d) then
        (Inl (constraint_error ''actors_queue_id_fkey''), d)
      else let row = new_actor now (next_actor d) p
           in (Inr row, d\<lparr>actors := actors d @ [row], next_actor := next_actor d + 1\<rparr>))"

record actor_update_params =
  au_name :: "string option"
  au_role :: "ActorRole option"
  au_enabled :: "bool option"
  au_deployable :: "bool option"
  au_configurable :: "bool option"
  au_migratable :: "bool option"
  au_mcp_enabled :: "bool option"
  au_permissions :: "string list option"

definition updated_actor :: "actor_update_params \<Rightarrow> actor \<Rightarrow> actor" where
  "updated_actor p a =
     a\<lparr>a_name := from_ptr_or (au_name p) (a_name a), a_role := from_ptr_or (au_role p) (a_role a),
       a_enabled := from_ptr_or (au_enabled p) (a_enabled a),
       a_deployable := from_ptr_or (au_deployable p) (a_deployable a),
       a_configurable := from_ptr_or (au_configurable p) (a_configurable a),
       a_migratable := from_ptr_or (au_migratable p) (a_migratable a),
       a_mcp_enabled := from_ptr_or (au_mcp_enabled p) (a_mcp_enabled a),
       a_permissions := from_ptr_or (au_permissions p) (a_permissions a)\<rparr>"

definition ActorUpdate :: "actor_update_params \<Rightarrow> int \<Rightarrow> db \<Rightarrow> (pgerr + actor) \<times> db" where
  "ActorUpdate p aid d =
     (let rows = update_where (\<lambda>a. a_id a = aid) (updated_actor p) (actors d)
      in if distinct (map a_name rows)
         then (one_row (filter (\<lambda>a. a_id a = aid) rows), d\<lparr>actors := rows\<rparr>)
         else (Inl (constraint_error ''actors_name''), d))"

text \<open>
  Configs are looked for first; an actor whose tokens remain fails on their foreign key. The queue
  of the actor stays.
\<close>

datatype delete_result = NOTFOUND | REFERENCED | DONE

definition ActorDelete :: "int \<Rightarrow> db \<Rightarrow> (pgerr + delete_result) \<times> db" where
  "ActorDelete aid d =
     (if actor_of d aid = None then (Inr NOTFOUND, d)
      else if list_ex (\<lambda>c. c_actor_id c = aid) (configs d) then (Inr REFERENCED, d)
      else if list_ex (\<lambda>t. t_actor_id t = aid) (api_tokens d) then
        (Inl (constraint_error ''api_tokens_actor_id_fkey''), d)
      else (Inr DONE, d\<lparr>actors := filter (\<lambda>a. a_id a \<noteq> aid) (actors d)\<rparr>))"

text \<open>The row with its number of tokens; an actor is renameable when it has none.\<close>

definition token_count :: "db \<Rightarrow> int \<Rightarrow> nat" where
  "token_count d aid = length (filter (\<lambda>t. t_actor_id t = aid) (api_tokens d))"

definition ActorFindById :: "int \<Rightarrow> db \<Rightarrow> (pgerr + actor \<times> nat \<times> bool) \<times> db" where
  "ActorFindById aid d =
     (one_row (map (\<lambda>a. (a, token_count d aid, token_count d aid = 0))
        (filter (\<lambda>a. a_id a = aid) (actors d))), d)"

definition QueueFindById :: "int \<Rightarrow> db \<Rightarrow> (pgerr + queue_row) \<times> db" where
  "QueueFindById qid d = (one_row (filter (\<lambda>q. q_id q = qid) (queues d)), d)"

definition ActorFindByMCPEnabled :: "db \<Rightarrow> (pgerr + (int \<times> string) list) \<times> db" where
  "ActorFindByMCPEnabled d =
     (Inr (map (\<lambda>a. (a_id a, a_name a))
        (filter (\<lambda>a. a_mcp_enabled a \<and> a_deployable a \<and> a_enabled a) (actors d))), d)"

subsection \<open>API tokens\<close>

definition ApiTokenCount :: "db \<Rightarrow> (pgerr + nat) \<times> db" where
  "ApiTokenCount d = (Inr (length (api_tokens d)), d)"

definition ApiTokenDelete :: "string \<Rightarrow> db \<Rightarrow> (pgerr + unit) \<times> db" where
  "ApiTokenDelete tid d = (Inr (), d\<lparr>api_tokens := filter (\<lambda>t. t_id t \<noteq> tid) (api_tokens d)\<rparr>)"

definition ApiTokenFindByID :: "string \<Rightarrow> db \<Rightarrow> (pgerr + api_token \<times> actor) \<times> db" where
  "ApiTokenFindByID tid d =
     (one_row (List.map_filter (\<lambda>t. map_option (\<lambda>a. (t, a)) (actor_of d (t_actor_id t)))
        (filter (\<lambda>t. t_id t = tid) (api_tokens d))), d)"

text \<open>Newest first; the order among tokens of one second is left to the server, here that of the table.\<close>

definition ApiTokenFindByActorID :: "int \<Rightarrow> db \<Rightarrow> (pgerr + api_token list) \<times> db" where
  "ApiTokenFindByActorID aid d =
     (Inr (sort_key (\<lambda>t. - t_created_at t)
        (filter (\<lambda>t. t_actor_id t = aid \<and> actor_of d aid \<noteq> None) (api_tokens d))), d)"

definition add_token :: "api_token \<Rightarrow> string list option \<Rightarrow> db \<Rightarrow> (pgerr + api_token) \<times> db" where
  "add_token t perms d =
     (if perms = None then (Inl (constraint_error ''permissions not null''), d)
      else if list_ex (\<lambda>x. t_id x = t_id t) (api_tokens d) then (Inl (constraint_error ''api_tokens_pkey''), d)
      else if actor_of d (t_actor_id t) = None then (Inl (constraint_error ''api_tokens_actor_id_fkey''), d)
      else (Inr t, d\<lparr>api_tokens := api_tokens d @ [t]\<rparr>))"

definition ApiTokenInsert ::
    "int \<Rightarrow> string \<Rightarrow> int \<Rightarrow> int \<Rightarrow> string \<Rightarrow> string list option \<Rightarrow> db \<Rightarrow> (pgerr + api_token) \<times> db" where
  "ApiTokenInsert now tid aid expire creator perms d =
     add_token \<lparr>t_id = tid, t_actor_id = aid, t_expire_at = expire, t_created_by = creator,
       t_created_at = now, t_permissions = from_ptr_or perms []\<rparr> perms d"

text \<open>
  The new token gets the actor's permissions; all other tokens of the actor, expired or not, are
  set to expire five minutes from now.
\<close>

definition rotated_away :: "int \<Rightarrow> api_token \<Rightarrow> api_token" where
  "rotated_away now t = t\<lparr>t_expire_at := now + 300\<rparr>"

definition ApiTokenRotate :: "int \<Rightarrow> string \<Rightarrow> int \<Rightarrow> int \<Rightarrow> string \<Rightarrow> db \<Rightarrow> (pgerr + string) \<times> db" where
  "ApiTokenRotate now tid aid expire creator d =
     (let perms = map_option a_permissions (actor_of d aid);
          t = \<lparr>t_id = tid, t_actor_id = aid, t_expire_at = expire, t_created_by = creator,
            t_created_at = now, t_permissions = from_ptr_or perms []\<rparr>
      in case add_token t perms d of
           (Inl e, _) \<Rightarrow> (Inl e, d)
         | (Inr _, _) \<Rightarrow>
             (Inr tid, d\<lparr>api_tokens :=
                update_where (\<lambda>x. t_actor_id x = aid \<and> t_id x \<noteq> tid) (rotated_away now) (api_tokens d) @ [t]\<rparr>))"

subsection \<open>Settings\<close>

definition SettingGetSystem :: "db \<Rightarrow> (pgerr + json) \<times> db" where
  "SettingGetSystem d = (map_sum id JObj (option_row (setting d)), d)"

text \<open>Key by key the new value wins; keys without a new value keep the old one.\<close>

definition merge_settings :: "(string \<times> json) list \<Rightarrow> (string \<times> json) list \<Rightarrow> (string \<times> json) list" where
  "merge_settings old new =
     map (\<lambda>(k, v). (k, from_ptr_or (map_of new k) v)) old @
     filter (\<lambda>(k, v). map_of old k = None) new"

definition SettingUpdateSystem :: "json \<Rightarrow> db \<Rightarrow> (pgerr + json) \<times> db" where
  "SettingUpdateSystem value d =
     (case value of
        JObj new \<Rightarrow>
          (let merged = merge_settings (case setting d of None \<Rightarrow> [] | Some old \<Rightarrow> old) new
           in (Inr (JObj merged), d\<lparr>setting := Some merged\<rparr>))
      | _ \<Rightarrow> (Inl (DbError ''cannot call jsonb_each on a non-object''), d))"

lemmas actor_statements [query_simps] =
  QueueInsert_def ActorInsert_def ActorUpdate_def ActorDelete_def ActorFindById_def
  ActorFindByMCPEnabled_def ApiTokenCount_def ApiTokenDelete_def ApiTokenFindByID_def
  ApiTokenInsert_def ApiTokenRotate_def SettingGetSystem_def SettingUpdateSystem_def

subsection \<open>Facts\<close>

lemma map_of_merge_settings:
  "map_of (merge_settings old new) k =
     (case map_of new k of Some v \<Rightarrow> Some v | None \<Rightarrow> map_of old k)"
proof -
  have old: "map_of (map (\<lambda>(k, v). (k, from_ptr_or (map_of new k) v)) xs) k =
      map_option (\<lambda>v. from_ptr_or (map_of new k) v) (map_of xs k)" for xs
    by (induction xs) auto
  have "map_of (filter (\<lambda>(k, v). map_of old k = None) xs) k =
      (if map_of old k = None then map_of xs k else None)" for xs :: "(string \<times> json) list"
    by (induction xs) auto
  then show ?thesis
    by (auto simp: merge_settings_def map_add_def old split: option.splits)
qed

lemma rotate_result:
  assumes "actor_of d aid = Some a" and "tid \<notin> t_id ` set (api_tokens d)"
  shows "ApiTokenRotate now tid aid expire creator d =
    (Inr tid, d\<lparr>api_tokens := update_where (\<lambda>x. t_actor_id x = aid) (rotated_away now) (api_tokens d) @
      [\<lparr>t_id = tid, t_actor_id = aid, t_expire_at = expire, t_created_by = creator, t_created_at = now,
        t_permissions = a_permissions a\<rparr>]\<rparr>)"
proof -
  have "update_where (\<lambda>x. t_actor_id x = aid \<and> t_id x \<noteq> tid) (rotated_away now) (api_tokens d) =
      update_where (\<lambda>x. t_actor_id x = aid) (rotated_away now) (api_tokens d)"
    using assms(2) by (intro update_where_cong) auto
  moreover have "\<not> list_ex (\<lambda>x. t_id x = tid) (api_tokens d)"
    using assms(2) by (auto simp: list_ex_iff)
  ultimately show ?thesis
    using assms(1) by (simp add: ApiTokenRotate_def add_token_def)
qed

lemma rotate_cases:
  obtains e where "ApiTokenRotate now tid aid expire creator d = (Inl e, d)"
  | a where "actor_of d aid = Some a" "tid \<notin> t_id ` set (api_tokens d)"
proof (cases "actor_of d aid")
  case None
  then show ?thesis by (intro that(1)) (simp add: ApiTokenRotate_def add_token_def)
next
  case (Some a)
  show ?thesis
  proof (cases "list_ex (\<lambda>x. t_id x = tid) (api_tokens d)")
    case True
    with Some show ?thesis by (intro that(1)) (simp add: ApiTokenRotate_def add_token_def)
  next
    case False
    with Some show ?thesis by (intro that(2)) (auto simp: list_ex_iff)
  qed
qed

end
