(* ===== verification/Go_Regexp.thy ===== *)
theory Go_Regexp
  imports Go_Text
begin

text \<open>
  The part of Go's \<^verbatim>\<open>regexp\<close> the program uses: anchored matching of character classes, sequences,
  alternatives, options and repetitions. Matching is by derivatives, so it computes; \<open>lang\<close> says
  which texts an expression stands for, and \<open>re_match_lang\<close> that the two agree.
\<close>

datatype re = Zero | One | Cls "char \<Rightarrow> bool" | Alt re re | Seq re re | Star re

fun nullable :: "re \<Rightarrow> bool" where
  "nullable Zero = False"
| "nullable One = True"
| "nullable (Cls p) = False"
| "nullable (Alt r s) = (nullable r \<or> nullable s)"
| "nullable (Seq r s) = (nullable r \<and> nullable s)"
| "nullable (Star r) = True"

text \<open>The derivatives of an empty expression are dropped as they arise, which keeps terms small.\<close>

fun seq :: "re \<Rightarrow> re \<Rightarrow> re" where
  "seq Zero s = Zero"
| "seq One s = s"
| "seq r s = Seq r s"

fun alt :: "re \<Rightarrow> re \<Rightarrow> re" where
  "alt Zero s = s"
| "alt r Zero = r"
| "alt r s = Alt r s"

fun deriv :: "char \<Rightarrow> re \<Rightarrow> re" where
  "deriv c Zero = Zero"
| "deriv c One = Zero"
| "deriv c (Cls p) = (if p c then One else Zero)"
| "deriv c (Alt r s) = alt (deriv c r) (deriv c s)"
| "deriv c (Seq r s) =
     (if nullable r then alt (seq (deriv c r) s) (deriv c s) else seq (deriv c r) s)"
| "deriv c (Star r) = seq (deriv c r) (Star r)"

fun re_match :: "re \<Rightarrow> string \<Rightarrow> bool" where
  "re_match r [] = nullable r"
| "re_match r (c # cs) = re_match (deriv c r) cs"

subsection \<open>Meaning\<close>

inductive_set star :: "string set \<Rightarrow> string set" for L where
  star_empty: "[] \<in> star L"
| star_append: "\<lbrakk>u \<in> L; v \<in> star L\<rbrakk> \<Longrightarrow> u @ v \<in> star L"

fun lang :: "re \<Rightarrow> string set" where
  "lang Zero = {}"
| "lang One = {[]}"
| "lang (Cls p) = {[c] | c. p c}"
| "lang (Alt r s) = lang r \<union> lang s"
| "lang (Seq r s) = {u @ v | u v. u \<in> lang r \<and> v \<in> lang s}"
| "lang (Star r) = star (lang r)"

lemma nullable_lang: "nullable r \<longleftrightarrow> [] \<in> lang r"
  by (induction r) (auto intro: star_empty)

lemma lang_seq [simp]: "lang (seq r s) = lang (Seq r s)"
  by (cases r) auto

lemma lang_alt [simp]: "lang (alt r s) = lang (Alt r s)"
  by (cases r; cases s) auto

lemma star_Cons:
  "c # w \<in> star L \<longleftrightarrow> (\<exists>u v. w = u @ v \<and> c # u \<in> L \<and> v \<in> star L)"
proof
  assume "c # w \<in> star L"
  then show "\<exists>u v. w = u @ v \<and> c # u \<in> L \<and> v \<in> star L"
  proof (induction "c # w")
    case (star_append u v)
    then show ?case by (cases u) auto
  qed
next
  assume "\<exists>u v. w = u @ v \<and> c # u \<in> L \<and> v \<in> star L"
  then show "c # w \<in> star L" using star_append by fastforce
qed

lemma lang_deriv: "w \<in> lang (deriv c r) \<longleftrightarrow> c # w \<in> lang r"
proof (induction r arbitrary: w)
  case (Seq r s)
  have split: "c # w = u @ v \<longleftrightarrow> (u = [] \<and> v = c # w) \<or> (\<exists>t. u = c # t \<and> w = t @ v)" for u v
    by (cases u) auto
  show ?case
    using Seq by (auto simp: nullable_lang split)
next
  case (Star r)
  then show ?case by (auto simp: star_Cons)
qed auto

lemma re_match_lang: "re_match r w \<longleftrightarrow> w \<in> lang r"
  by (induction w arbitrary: r) (simp_all add: nullable_lang lang_deriv)

subsection \<open>Expressions\<close>

definition Plus :: "re \<Rightarrow> re" where
  "Plus r = Seq r (Star r)"

definition Opt :: "re \<Rightarrow> re" where
  "Opt r = Alt One r"

definition Chr :: "char \<Rightarrow> re" where
  "Chr c = Cls (\<lambda>x. x = c)"

fun Lit :: "string \<Rightarrow> re" where
  "Lit [] = One"
| "Lit (c # cs) = Seq (Chr c) (Lit cs)"

fun Rep :: "nat \<Rightarrow> re \<Rightarrow> re" where
  "Rep 0 r = One"
| "Rep (Suc n) r = Seq r (Rep n r)"

definition in_range :: "char \<Rightarrow> char \<Rightarrow> char \<Rightarrow> bool" where
  "in_range lo hi c \<longleftrightarrow> (of_char lo :: nat) \<le> of_char c \<and> (of_char c :: nat) \<le> of_char hi"

definition digit :: "char \<Rightarrow> bool" where
  "digit = in_range CHR ''0'' CHR ''9''"

definition letter :: "char \<Rightarrow> bool" where
  "letter c \<longleftrightarrow> in_range CHR ''a'' CHR ''z'' c \<or> in_range CHR ''A'' CHR ''Z'' c"

definition alnum :: "char \<Rightarrow> bool" where
  "alnum c \<longleftrightarrow> letter c \<or> digit c"

lemma lang_Lit [simp]: "lang (Lit s) = {s}"
  by (induction s) (auto simp: Chr_def)

lemma lang_Opt [simp]: "lang (Opt r) = insert [] (lang r)"
  by (simp add: Opt_def)

lemma lang_Chr [simp]: "lang (Chr c) = {[c]}"
  by (simp add: Chr_def)

lemma star_Cls: "star {[c] | c. p c} = {s. list_all p s}"
proof
  show "star {[c] | c. p c} \<subseteq> {s. list_all p s}"
  proof
    fix s assume "s \<in> star {[c] | c. p c}"
    then show "s \<in> {s. list_all p s}" by induction auto
  qed
next
  have "list_all p s \<Longrightarrow> s \<in> star {[c] | c. p c}" for s
  proof (induction s)
    case (Cons c s)
    then have "[c] \<in> {[c] | c. p c}" "s \<in> star {[c] | c. p c}" by auto
    from star_append [OF this] show ?case by simp
  qed (simp add: star_empty)
  then show "{s. list_all p s} \<subseteq> star {[c] | c. p c}" by blast
qed

lemma lang_Plus_Cls [simp]: "lang (Plus (Cls p)) = {s. s \<noteq> [] \<and> list_all p s}"
proof -
  have "w \<in> lang (Plus (Cls p)) \<longleftrightarrow> w \<noteq> [] \<and> list_all p w" for w
  proof (cases w)
    case Nil
    then show ?thesis by (simp add: Plus_def)
  next
    case (Cons c s)
    have "w \<in> lang (Plus (Cls p)) \<longleftrightarrow> (\<exists>d t. w = [d] @ t \<and> p d \<and> list_all p t)"
      unfolding Plus_def lang.simps star_Cls by blast
    with Cons show ?thesis by simp
  qed
  then show ?thesis by blast
qed

end
