(* ===== verification/Kube_Config.thy ===== *)
theory Kube_Config
  imports Db_Model Go_Regexp
begin

text \<open>
  \<^verbatim>\<open>admin/kube_config.go\<close>: the defaults of the Kubernetes settings of an actor, and their check
  before a config is stored.
\<close>

subsection \<open>Defaults\<close>

fun role_text :: "ActorRole \<Rightarrow> string" where
  "role_text ActorRoleAgent = ''agent''"
| "role_text ActorRoleService = ''service''"
| "role_text ActorRolePortal = ''portal''"
| "role_text ActorRoleUser = ''user''"
| "role_text ActorRoleOther = ''other''"

definition KubeConfigsWithDefault :: smap where
  "KubeConfigsWithDefault =
     [(''KUBE_DOCKER_IMAGE'', ''''), (''KUBE_IMAGE_PULL_SECRET'', ''''), (''KUBE_LAUNCH_COMMAND'', ''''),
      (''KUBE_REPLICAS'', ''1''), (''KUBE_CPU_REQUEST'', ''10m''), (''KUBE_CPU_LIMIT'', ''500m''),
      (''KUBE_MEMORY_REQUEST'', ''100Mi''), (''KUBE_MEMORY_LIMIT'', ''100Mi'')]"

definition KubeConfigsWithDefaultForService :: smap where
  "KubeConfigsWithDefaultForService =
     [(''KUBE_DOCKER_IMAGE'', ''''), (''KUBE_IMAGE_PULL_SECRET'', ''''), (''KUBE_REPLICAS'', ''1''),
      (''KUBE_CPU_REQUEST'', ''10m''), (''KUBE_CPU_LIMIT'', ''500m''), (''KUBE_MEMORY_REQUEST'', ''100Mi''),
      (''KUBE_MEMORY_LIMIT'', ''100Mi''), (''KUBE_SERVICE_PORT'', ''3000''), (''KUBE_SERVICE_NAME'', '''')]"

definition KubeConfigsWithDefaultForPortal :: smap where
  "KubeConfigsWithDefaultForPortal =
     [(''KUBE_DOCKER_IMAGE'', ''''), (''KUBE_IMAGE_PULL_SECRET'', ''''), (''KUBE_REPLICAS'', ''1''),
      (''KUBE_CPU_REQUEST'', ''10m''), (''KUBE_CPU_LIMIT'', ''500m''), (''KUBE_MEMORY_REQUEST'', ''100Mi''),
      (''KUBE_MEMORY_LIMIT'', ''100Mi''), (''KUBE_SERVICE_PORT'', ''3000''), (''KUBE_SERVICE_NAME'', ''''),
      (''KUBE_INGRESS_HOST'', ''portal.example.com''), (''KUBE_INGRESS_BODY_LIMIT'', ''11m'')]"

definition KubeConfigsWithDefaultForMigratable :: smap where
  "KubeConfigsWithDefaultForMigratable =
     [(''KUBE_MIGRATE_DOCKER_IMAGE'', ''''), (''KUBE_MIGRATE_IMAGE_PULL_SECRET'', ''''),
      (''KUBE_MIGRATE_COMMAND'', ''''), (''KUBE_MIGRATE_MEMORY_REQUEST'', ''100Mi''),
      (''KUBE_MIGRATE_MEMORY_LIMIT'', ''100Mi'')]"

fun insert_missing :: "smap \<Rightarrow> smap \<Rightarrow> smap" where
  "insert_missing [] content = content"
| "insert_missing ((k, v) # defaults) content =
     insert_missing defaults (if map_of content k = None then content @ [(k, v)] else content)"

text \<open>Writing into the nil map panics; every default map has a key the nil map lacks.\<close>

definition InsertMissingKubeConfigsWithDefault :: "smap option \<Rightarrow> string \<Rightarrow> bool \<Rightarrow> smap outcome" where
  "InsertMissingKubeConfigsWithDefault content role migratable =
     (case content of
        None \<Rightarrow> Panic ''assignment to entry in nil map''
      | Some m \<Rightarrow>
          (let defaults = (if role = ''portal'' then KubeConfigsWithDefaultForPortal
                           else if role = ''service'' then KubeConfigsWithDefaultForService
                           else KubeConfigsWithDefault);
               m' = insert_missing defaults m
           in Return (if migratable then insert_missing KubeConfigsWithDefaultForMigratable m' else m')))"

lemma map_of_insert_missing: "map_of (insert_missing defaults m) = map_of defaults ++ map_of m"
proof (induction defaults m rule: insert_missing.induct)
  case (2 k v defaults content)
  then show ?case
    by (auto simp: fun_eq_iff map_add_def split: option.splits)
qed simp

subsection \<open>Formats\<close>

definition word_char :: "char \<Rightarrow> bool" where
  "word_char c \<longleftrightarrow> alnum c \<or> c = CHR ''_''"

definition hex :: "char \<Rightarrow> bool" where
  "hex c \<longleftrightarrow> digit c \<or> in_range CHR ''a'' CHR ''f'' c \<or> in_range CHR ''A'' CHR ''F'' c"

definition docker_image_re :: re where
  "docker_image_re =
     Seq (Opt (Seq (Plus (Cls (\<lambda>c. alnum c \<or> c = CHR ''-'' \<or> c = CHR ''.'')))
                (Seq (Opt (Seq (Chr CHR '':'') (Plus (Cls digit)))) (Chr CHR ''/''))))
       (Seq (Plus (Cls (\<lambda>c. alnum c \<or> c = CHR ''.'' \<or> c = CHR ''_'' \<or> c = CHR ''-'')))
         (Seq (Opt (Seq (Chr CHR '':'') (Plus (Cls (\<lambda>c. word_char c \<or> c = CHR ''.'' \<or> c = CHR ''-'')))))
           (Opt (Seq (Lit ''@sha256:'') (Rep 64 (Cls hex))))))"

definition isValidDockerImage :: "string \<Rightarrow> bool" where
  "isValidDockerImage img = re_match docker_image_re img"

definition number_re :: re where
  "number_re = Seq (Plus (Cls digit)) (Opt (Seq (Chr CHR ''.'') (Plus (Cls digit))))"

definition isValidCPUResourceQuantity :: "string \<Rightarrow> bool" where
  "isValidCPUResourceQuantity quantity = re_match (Seq number_re (Opt (Chr CHR ''m''))) quantity"

definition isValidMemoryResourceQuantity :: "string \<Rightarrow> bool" where
  "isValidMemoryResourceQuantity quantity =
     re_match (Seq number_re
       (Opt (Alt (Seq (Cls (\<lambda>c. c \<in> set ''KMGTPE'')) (Chr CHR ''i'')) (Cls (\<lambda>c. c \<in> set ''kMGTP'')))))
       quantity"

definition ingress_host_re :: re where
  "ingress_host_re =
     Seq (Plus (Seq (Plus (Cls alnum))
                (Seq (Star (Seq (Chr CHR ''-'') (Plus (Cls alnum)))) (Chr CHR ''.''))))
       (Seq (Cls letter) (Plus (Cls letter)))"

definition body_limit_re :: re where
  "body_limit_re = Seq (Plus (Cls digit)) (Cls (\<lambda>c. c \<in> set ''kKmMgG''))"

subsection \<open>Validation\<close>

definition has_service :: "string \<Rightarrow> bool" where
  "has_service role \<longleftrightarrow> role = ''portal'' \<or> role = ''service''"

definition port_ok :: "string \<Rightarrow> bool" where
  "port_ok portStr =
     (case Atoi (TrimSpace portStr) of None \<Rightarrow> False | Some port \<Rightarrow> 1 \<le> port \<and> port \<le> 65535)"

definition bad_quantity :: "string \<Rightarrow> string \<Rightarrow> string option" where
  "bad_quantity key value = Some (''invalid '' @ key @ '': '' @ value)"

definition check_port_list :: "string \<Rightarrow> string option" where
  "check_port_list value =
     map_option (\<lambda>p. ''invalid service port: '' @ p @ '', must be a number between 1 and 65535'')
       (find (\<lambda>p. \<not> port_ok p) (Split CHR '','' value))"

text \<open>The \<^verbatim>\<open>switch\<close> on the key of one entry: the error it returns with, if any.\<close>

definition check_entry :: "string \<Rightarrow> string \<Rightarrow> string \<Rightarrow> string option" where
  "check_entry role key value =
     (if key \<in> {''KUBE_DOCKER_IMAGE'', ''KUBE_MIGRATE_DOCKER_IMAGE''} then
        (if value \<noteq> '''' \<and> \<not> isValidDockerImage value then Some (''invalid docker image: '' @ value) else None)
      else if key = ''KUBE_REPLICAS'' then
        (case Atoi value of
           None \<Rightarrow> Some (''invalid replicas: '' @ value @ '', must be a number >= 1'')
         | Some n \<Rightarrow> if n < 1 then Some (''invalid replicas: '' @ value @ '', must be a number >= 1'') else None)
      else if key \<in> {''KUBE_CPU_REQUEST'', ''KUBE_CPU_LIMIT''} then
        (if value \<noteq> '''' \<and> \<not> isValidCPUResourceQuantity value then bad_quantity key value else None)
      else if key \<in> {''KUBE_MEMORY_REQUEST'', ''KUBE_MEMORY_LIMIT'', ''KUBE_MIGRATE_MEMORY_REQUEST'',
                     ''KUBE_MIGRATE_MEMORY_LIMIT''} then
        (if value \<noteq> '''' \<and> \<not> isValidMemoryResourceQuantity value then bad_quantity key value else None)
      else if key = ''KUBE_SERVICE_PORT'' then
        (if has_service role then check_port_list value else None)
      else if key = ''KUBE_INGRESS_HOST'' then
        (if has_service role then
           (if value = '''' then Some ''KUBE_INGRESS_HOST is required for portal and service''
            else if \<not> re_match ingress_host_re value then Some (''invalid ingress host: '' @ value) else None)
         else None)
      else if key = ''KUBE_INGRESS_BODY_LIMIT'' then
        (if has_service role then
           (if value = '''' then Some ''KUBE_INGRESS_BODY_LIMIT is required for portal and service''
            else if \<not> re_match body_limit_re value then
              Some (''invalid ingress body limit: '' @ value @ '', must be in format like '' @
                [CHR 0x27] @ ''10m'' @ [CHR 0x27] @ '' or '' @ [CHR 0x27] @ ''1G'' @ [CHR 0x27]) else None)
         else None)
      else None)"

definition requiredConfigs :: "string \<Rightarrow> bool \<Rightarrow> string list" where
  "requiredConfigs role migratable =
     [''KUBE_DOCKER_IMAGE'', ''KUBE_MEMORY_REQUEST'', ''KUBE_MEMORY_LIMIT'', ''KUBE_CPU_REQUEST'', ''KUBE_CPU_LIMIT''] @
     (if role = ''service'' then [''KUBE_SERVICE_PORT''] else []) @
     (if role = ''portal'' then [''KUBE_INGRESS_HOST'', ''KUBE_INGRESS_BODY_LIMIT''] else []) @
     (if migratable then
        [''KUBE_MIGRATE_DOCKER_IMAGE'', ''KUBE_MIGRATE_MEMORY_REQUEST'', ''KUBE_MIGRATE_MEMORY_LIMIT''] else [])"

definition check_required :: "smap \<Rightarrow> string \<Rightarrow> bool \<Rightarrow> string option" where
  "check_required content role migratable =
     map_option (\<lambda>k. ''missing required config: '' @ k)
       (find (\<lambda>k. get0 content k = '''') (requiredConfigs role migratable))"

text \<open>
  The loop over the entries; the required settings are checked inside it, after each entry, so an
  empty content has nothing checked. \<open>content\<close> lists the entries in the order \<^verbatim>\<open>range\<close> visits them.
\<close>

fun validate_loop :: "smap \<Rightarrow> string \<Rightarrow> bool \<Rightarrow> smap \<Rightarrow> string option" where
  "validate_loop content role migratable [] = None"
| "validate_loop content role migratable ((key, value) # rest) =
     (case check_entry role key value of
        Some e \<Rightarrow> Some e
      | None \<Rightarrow>
          (case check_required content role migratable of
             Some e \<Rightarrow> Some e
           | None \<Rightarrow> validate_loop content role migratable rest))"

definition ValidateKubeConfig :: "smap \<Rightarrow> string \<Rightarrow> bool \<Rightarrow> string option" where
  "ValidateKubeConfig content role migratable = validate_loop content role migratable content"

subsection \<open>What an accepted content looks like\<close>

lemma validate_loop_ok:
  "validate_loop content role migratable rest = None \<longleftrightarrow>
     (\<forall>(k, v) \<in> set rest. check_entry role k v = None) \<and>
     (rest = [] \<or> check_required content role migratable = None)"
  by (induction rest) (auto split: option.splits)

lemma check_required_ok:
  "check_required content role migratable = None \<longleftrightarrow>
     (\<forall>k \<in> set (requiredConfigs role migratable). get0 content k \<noteq> '''')"
  by (auto simp: check_required_def find_None_iff)

lemma ValidateKubeConfig_ok:
  "ValidateKubeConfig content role migratable = None \<longleftrightarrow>
     content = [] \<or>
     (\<forall>(k, v) \<in> set content. check_entry role k v = None) \<and>
     (\<forall>k \<in> set (requiredConfigs role migratable). get0 content k \<noteq> '''')"
  by (auto simp: ValidateKubeConfig_def validate_loop_ok check_required_ok)

lemma check_entry_port:
  "has_service role \<Longrightarrow>
     check_entry role ''KUBE_SERVICE_PORT'' value = None \<longleftrightarrow> (\<forall>p \<in> set (Split CHR '','' value). port_ok p)"
  by (simp add: check_entry_def check_port_list_def find_None_iff)

lemma check_entry_replicas:
  "check_entry role ''KUBE_REPLICAS'' value = None \<longleftrightarrow> (\<exists>n. Atoi value = Some n \<and> 1 \<le> n)"
  by (auto simp: check_entry_def split: option.splits if_splits)

end
