(* ===== verification/K8s_Controller.thy ===== *)
theory K8s_Controller
  imports Go_Text Maos_Prelude "HOL-Library.AList"
begin

text \<open>
  The Kubernetes controller, \<^verbatim>\<open>k8s/controller.go\<close>. The API server is an argument: a record of its
  calls on the objects of one namespace, over a state \<open>'s\<close> of the cluster; \<open>kube_laws\<close> states what is
  used of it. A call of the controller gives an error or a value and the next state; \<open>Crashed\<close> is a
  panic. The encryption of all secrets and the set-up of the client are left out.
\<close>

subsection \<open>Parameters\<close>

text \<open>\<^verbatim>\<open>k8s.MigrationParams\<close> and \<^verbatim>\<open>k8s.DeploymentParams\<close>; \<^verbatim>\<open>Command\<close> of the latter is never set.\<close>

record migration_params =
  mp_serial :: int
  mp_name :: string
  mp_image :: string
  mp_image_pull_secrets :: string
  mp_env :: smap
  mp_command :: "string list"
  mp_memory_request :: string
  mp_memory_limit :: string

record deployment_params =
  dp_name :: string
  dp_replicas :: int
  dp_labels :: smap
  dp_image :: string
  dp_image_pull_secrets :: string
  dp_launch_command :: "string list"
  dp_env :: smap
  dp_api_key :: string
  dp_memory_request :: string
  dp_memory_limit :: string
  dp_cpu_request :: string
  dp_cpu_limit :: string
  dp_has_service :: bool
  dp_service_name :: string
  dp_service_ports :: "int list"
  dp_has_ingress :: bool
  dp_ingress_host :: string
  dp_body_limit :: string

record secret_keys =
  sk_name :: string
  sk_keys :: "string list"

subsection \<open>Objects of the cluster\<close>

text \<open>Only what the controller sets or reads. Fixed parts (pull policy, roll-out strategy, protocol) are left out.\<close>

datatype env_var = EnvValue string string | EnvFromSecret string string string

record k_deployment =
  kd_name :: string
  kd_labels :: smap
  kd_replicas :: int
  kd_selector :: smap
  kd_template_labels :: smap
  kd_annotations :: "smap option"
  kd_service_account :: string
  kd_container :: string
  kd_image :: string
  kd_env :: "env_var list"
  kd_command :: "string list"
  kd_requests :: smap
  kd_limits :: smap
  kd_pull_secrets :: "string list"

record k_service =
  ks_name :: string
  ks_labels :: smap
  ks_selector :: smap
  ks_ports :: "(string \<times> int) list"

record k_ingress =
  ki_name :: string
  ki_labels :: smap
  ki_annotations :: smap
  ki_host :: string
  ki_backend :: string
  ki_port :: int

text \<open>\<open>None\<close> is the nil map of the data.\<close>

record k_secret =
  kx_name :: string
  kx_labels :: smap
  kx_data :: "smap option"

record k_job =
  kj_name :: string
  kj_labels :: smap
  kj_image :: string
  kj_env :: "env_var list"
  kj_command :: "string list"
  kj_memory_request :: string
  kj_memory_limit :: string
  kj_pull_secrets :: "string list"
  kj_succeeded :: int
  kj_failed :: int

datatype kobject =
  KDeployment k_deployment | KService k_service | KIngress k_ingress | KSecret k_secret
| KServiceAccount string | KJob k_job

datatype kind =
  DeploymentKind | ServiceKind | IngressKind | SecretKind | ServiceAccountKind | JobKind

fun key_of :: "kobject \<Rightarrow> kind \<times> string" where
  "key_of (KDeployment x) = (DeploymentKind, kd_name x)"
| "key_of (KService x) = (ServiceKind, ks_name x)"
| "key_of (KIngress x) = (IngressKind, ki_name x)"
| "key_of (KSecret x) = (SecretKind, kx_name x)"
| "key_of (KServiceAccount n) = (ServiceAccountKind, n)"
| "key_of (KJob x) = (JobKind, kj_name x)"

fun labels_of :: "kobject \<Rightarrow> smap" where
  "labels_of (KDeployment x) = kd_labels x"
| "labels_of (KService x) = ks_labels x"
| "labels_of (KIngress x) = ki_labels x"
| "labels_of (KSecret x) = kx_labels x"
| "labels_of (KServiceAccount n) = []"
| "labels_of (KJob x) = kj_labels x"

record pod =
  pod_name :: string
  pod_running :: bool
  pod_message :: string
  pod_reason :: string
  pod_statuses :: json
  pod_conditions :: json

subsection \<open>The API server\<close>

datatype kerr = IsNotFound | KErr string

fun kerr_text :: "kerr \<Rightarrow> string" where
  "kerr_text IsNotFound = ''not found''"
| "kerr_text (KErr e) = e"

text \<open>
  A label selector is a pair of key and value. \<open>kquantity\<close> is \<^verbatim>\<open>resource.ParseQuantity\<close>, \<open>None\<close>
  when it fails; \<open>kclock\<close> the milliseconds since 1970; \<open>kwait\<close> lets time pass.
\<close>

record 's kube_api =
  kget :: "kind \<times> string \<Rightarrow> 's \<Rightarrow> kerr + kobject"
  kcreate :: "kobject \<Rightarrow> 's \<Rightarrow> kerr option \<times> 's"
  kupdate :: "kobject \<Rightarrow> 's \<Rightarrow> kerr option \<times> 's"
  kdelete :: "kind \<times> string \<Rightarrow> 's \<Rightarrow> kerr option \<times> 's"
  klist :: "kind \<Rightarrow> (string \<times> string) option \<Rightarrow> 's \<Rightarrow> kerr + kobject list"
  kpods :: "string \<times> string \<Rightarrow> 's \<Rightarrow> kerr + pod list"
  kpodlogs :: "string \<Rightarrow> 's \<Rightarrow> kerr + string"
  kmetrics :: "string \<times> string \<Rightarrow> 's \<Rightarrow> kerr + (string \<times> json) list"
  kquantity :: "string \<Rightarrow> string option"
  kclock :: "'s \<Rightarrow> int"
  kwait :: "'s \<Rightarrow> 's"

subsection \<open>Calls in sequence\<close>

datatype kfail = Failed string | Crashed

type_synonym ('s, 'a) kcall = "'s \<Rightarrow> (kfail + 'a) \<times> 's"

definition kreturn :: "'a \<Rightarrow> ('s, 'a) kcall" where
  "kreturn x s = (Inr x, s)"

definition kfail :: "kfail \<Rightarrow> ('s, 'a) kcall" where
  "kfail e s = (Inl e, s)"

definition kbind :: "('s, 'a) kcall \<Rightarrow> ('a \<Rightarrow> ('s, 'b) kcall) \<Rightarrow> ('s, 'b) kcall" where
  "kbind m f s = (case m s of (Inl e, s1) \<Rightarrow> (Inl e, s1) | (Inr x, s1) \<Rightarrow> f x s1)"

text \<open>Reading and writing; the error of the server is wrapped with a message.\<close>

definition kread :: "string \<Rightarrow> ('s \<Rightarrow> kerr + 'a) \<Rightarrow> ('s, 'a) kcall" where
  "kread msg f s = (case f s of Inl e \<Rightarrow> (Inl (Failed (msg @ kerr_text e)), s) | Inr x \<Rightarrow> (Inr x, s))"

definition kwrite :: "string \<Rightarrow> ('s \<Rightarrow> kerr option \<times> 's) \<Rightarrow> ('s, unit) kcall" where
  "kwrite msg f s =
     (case f s of (Some e, s1) \<Rightarrow> (Inl (Failed (msg @ kerr_text e)), s1) | (None, s1) \<Rightarrow> (Inr (), s1))"

definition wrap_error :: "string \<Rightarrow> ('s, 'a) kcall \<Rightarrow> ('s, 'a) kcall" where
  "wrap_error msg m s = (case m s of (Inl (Failed e), s1) \<Rightarrow> (Inl (Failed (msg @ e)), s1) | r \<Rightarrow> r)"

fun kfor :: "'a list \<Rightarrow> ('a \<Rightarrow> ('s, unit) kcall) \<Rightarrow> ('s, unit) kcall" where
  "kfor [] f = kreturn ()"
| "kfor (x # xs) f = kbind (f x) (\<lambda>_. kfor xs f)"

subsection \<open>Building objects\<close>

definition parseSecretValue :: "string \<Rightarrow> string \<Rightarrow> string \<times> string" where
  "parseSecretValue value defaultKey =
     (let secretName = TrimPrefix value ''[[SECRET]]''
      in if CHR '':'' \<in> set secretName
         then (takeWhile (\<lambda>c. c \<noteq> CHR '':'') secretName, tl (dropWhile (\<lambda>c. c \<noteq> CHR '':'') secretName))
         else (secretName, defaultKey))"

definition env_entry :: "string \<times> string \<Rightarrow> env_var" where
  "env_entry = (\<lambda>(key, value).
     if HasPrefix value ''[[SECRET]]''
     then (case parseSecretValue value key of (secretName, secretKey) \<Rightarrow> EnvFromSecret key secretName secretKey)
     else EnvValue key value)"

definition api_key_secret :: "string \<Rightarrow> string" where
  "api_key_secret name = name @ ''-api-key''"

definition createEnvVars :: "deployment_params \<Rightarrow> int \<Rightarrow> env_var list" where
  "createEnvVars params now =
     map env_entry (dp_env params) @
     [EnvFromSecret ''MAOS_API_KEY'' (api_key_secret (dp_name params)) ''MAOS_API_KEY'',
      EnvValue ''MAOS_CREATED_AT'' (FormatInt now)]"

definition createMigrationEnvVars :: "migration_params \<Rightarrow> env_var list" where
  "createMigrationEnvVars migration = map env_entry (mp_env migration)"

text \<open>The label goes into the map the parameters share; services and ingresses built later have it.\<close>

definition labelled :: "deployment_params \<Rightarrow> deployment_params" where
  "labelled params = params\<lparr>dp_labels := AList.update ''created-by'' ''maos'' (dp_labels params)\<rparr>"

text \<open>A quantity that does not parse is the zero quantity.\<close>

definition createDeploymentStruct ::
    "'s kube_api \<Rightarrow> deployment_params \<Rightarrow> string \<Rightarrow> int \<Rightarrow> k_deployment" where
  "createDeploymentStruct api params sa now =
     (let labels = dp_labels (labelled params); quantity = (\<lambda>t. from_ptr_or (kquantity api t) ''0'')
      in \<lparr>kd_name = dp_name params, kd_labels = labels, kd_replicas = dp_replicas params,
          kd_selector = labels, kd_template_labels = labels, kd_annotations = None, kd_service_account = sa,
          kd_container = dp_name params, kd_image = dp_image params, kd_env = createEnvVars params now,
          kd_command = dp_launch_command params,
          kd_requests = [(''memory'', quantity (dp_memory_request params)), (''cpu'', quantity (dp_cpu_request params))],
          kd_limits = [(''memory'', quantity (dp_memory_limit params)), (''cpu'', quantity (dp_cpu_limit params))],
          kd_pull_secrets = (if dp_image_pull_secrets params \<noteq> '''' then [dp_image_pull_secrets params] else [])\<rparr>)"

definition service_name :: "deployment_params \<Rightarrow> string" where
  "service_name params = (if dp_service_name params \<noteq> '''' then dp_service_name params else dp_name params)"

definition createServiceStruct :: "deployment_params \<Rightarrow> k_service" where
  "createServiceStruct params =
     (let servicePorts = dp_service_ports params
      in \<lparr>ks_name = service_name params, ks_labels = dp_labels params, ks_selector = dp_labels params,
          ks_ports = map (\<lambda>port. (if length servicePorts > 1 then ''port-'' @ FormatInt port else '''', port))
            servicePorts\<rparr>)"

text \<open>The first port is read without a check.\<close>

definition createIngressStruct :: "deployment_params \<Rightarrow> k_ingress option" where
  "createIngressStruct params =
     (case dp_service_ports params of
        [] \<Rightarrow> None
      | port # _ \<Rightarrow> Some
          \<lparr>ki_name = dp_name params, ki_labels = dp_labels params,
           ki_annotations = [(''nginx.ingress.kubernetes.io/proxy-body-size'', dp_body_limit params)],
           ki_host = dp_ingress_host params, ki_backend = service_name params, ki_port = port\<rparr>)"

subsection \<open>Reading typed objects\<close>

definition maos_label :: "string \<times> string" where
  "maos_label = (''created-by'', ''maos'')"

definition get_deployment :: "'s kube_api \<Rightarrow> string \<Rightarrow> 's \<Rightarrow> kerr + k_deployment" where
  "get_deployment api n s =
     (case kget api (DeploymentKind, n) s of
        Inl e \<Rightarrow> Inl e | Inr (KDeployment x) \<Rightarrow> Inr x | Inr _ \<Rightarrow> Inl (KErr ''unexpected kind''))"

definition get_secret :: "'s kube_api \<Rightarrow> string \<Rightarrow> 's \<Rightarrow> kerr + k_secret" where
  "get_secret api n s =
     (case kget api (SecretKind, n) s of
        Inl e \<Rightarrow> Inl e | Inr (KSecret x) \<Rightarrow> Inr x | Inr _ \<Rightarrow> Inl (KErr ''unexpected kind''))"

definition get_service_account :: "'s kube_api \<Rightarrow> string \<Rightarrow> 's \<Rightarrow> kerr + string" where
  "get_service_account api n s =
     (case kget api (ServiceAccountKind, n) s of
        Inl e \<Rightarrow> Inl e | Inr (KServiceAccount x) \<Rightarrow> Inr x | Inr _ \<Rightarrow> Inl (KErr ''unexpected kind''))"

definition get_job :: "'s kube_api \<Rightarrow> string \<Rightarrow> 's \<Rightarrow> kerr + k_job" where
  "get_job api n s =
     (case kget api (JobKind, n) s of
        Inl e \<Rightarrow> Inl e | Inr (KJob x) \<Rightarrow> Inr x | Inr _ \<Rightarrow> Inl (KErr ''unexpected kind''))"

fun as_deployment :: "kobject \<Rightarrow> k_deployment option" where
  "as_deployment (KDeployment x) = Some x" | "as_deployment _ = None"
fun as_service :: "kobject \<Rightarrow> k_service option" where
  "as_service (KService x) = Some x" | "as_service _ = None"
fun as_ingress :: "kobject \<Rightarrow> k_ingress option" where
  "as_ingress (KIngress x) = Some x" | "as_ingress _ = None"
fun as_secret :: "kobject \<Rightarrow> k_secret option" where
  "as_secret (KSecret x) = Some x" | "as_secret _ = None"

subsection \<open>The deployment set\<close>

definition createServiceAccount :: "'s kube_api \<Rightarrow> string \<Rightarrow> ('s, string) kcall" where
  "createServiceAccount api name s =
     (case get_service_account api name s of
        Inr sa \<Rightarrow> (Inr sa, s)
      | Inl IsNotFound \<Rightarrow>
          kbind (kwrite '''' (kcreate api (KServiceAccount name))) (\<lambda>_. kreturn name) s
      | Inl e \<Rightarrow> (Inl (Failed (''error checking service account existence: '' @ kerr_text e)), s))"

definition createOrUpdateApiKey :: "'s kube_api \<Rightarrow> deployment_params \<Rightarrow> ('s, unit) kcall" where
  "createOrUpdateApiKey api params s =
     (let name = api_key_secret (dp_name params);
          secret = KSecret \<lparr>kx_name = name, kx_labels = [(''created-by'', ''maos-internal'')],
            kx_data = Some [(''MAOS_API_KEY'', dp_api_key params)]\<rparr>;
          msg = ''failed to create/update secret: ''
      in case get_secret api name s of
           Inl IsNotFound \<Rightarrow> kwrite msg (kcreate api secret) s
         | Inl e \<Rightarrow> (Inl (Failed (msg @ kerr_text e)), s)
         | Inr _ \<Rightarrow> kwrite msg (kupdate api secret) s)"

definition checkDeploymentExists :: "'s kube_api \<Rightarrow> string \<Rightarrow> ('s, unit) kcall" where
  "checkDeploymentExists api name s =
     (case get_deployment api name s of
        Inr _ \<Rightarrow> (Inl (Failed (''deployment '' @ name @ '' already exists'')), s)
      | Inl IsNotFound \<Rightarrow> (Inr (), s)
      | Inl e \<Rightarrow> (Inl (Failed (''error checking deployment existence: '' @ kerr_text e)), s))"

definition createDeployment :: "'s kube_api \<Rightarrow> deployment_params \<Rightarrow> ('s, unit) kcall" where
  "createDeployment api params =
     kbind (checkDeploymentExists api (dp_name params)) (\<lambda>_.
     kbind (wrap_error ''failed to create service account: '' (createServiceAccount api (dp_name params))) (\<lambda>sa.
     kbind (createOrUpdateApiKey api params) (\<lambda>_ s.
       kwrite '''' (kcreate api (KDeployment (createDeploymentStruct api params sa (kclock api s)))) s)))"

text \<open>Spec and labels are replaced, the name stays.\<close>

definition updateDeployment :: "'s kube_api \<Rightarrow> k_deployment \<Rightarrow> deployment_params \<Rightarrow> ('s, unit) kcall" where
  "updateDeployment api existing params =
     kbind (createOrUpdateApiKey api params) (\<lambda>_.
     kbind (kread ''failed to get service account: '' (get_service_account api (kd_service_account existing))) (\<lambda>sa s.
       let new = createDeploymentStruct api params sa (kclock api s)
       in kwrite ''failed to update deployment: '' (kupdate api (KDeployment (new\<lparr>kd_name := kd_name existing\<rparr>))) s))"

definition createService :: "'s kube_api \<Rightarrow> deployment_params \<Rightarrow> ('s, unit) kcall" where
  "createService api params =
     kwrite ''failed to create service: '' (kcreate api (KService (createServiceStruct params)))"

definition updateService :: "'s kube_api \<Rightarrow> k_service \<Rightarrow> deployment_params \<Rightarrow> ('s, unit) kcall" where
  "updateService api existing params =
     kwrite ''failed to update service: ''
       (kupdate api (KService ((createServiceStruct params)\<lparr>ks_name := ks_name existing\<rparr>)))"

definition createIngress :: "'s kube_api \<Rightarrow> deployment_params \<Rightarrow> ('s, unit) kcall" where
  "createIngress api params =
     (case createIngressStruct params of
        None \<Rightarrow> kfail Crashed
      | Some x \<Rightarrow> kwrite ''failed to create ingress: '' (kcreate api (KIngress x)))"

definition updateIngress :: "'s kube_api \<Rightarrow> k_ingress \<Rightarrow> deployment_params \<Rightarrow> ('s, unit) kcall" where
  "updateIngress api existing params =
     (case createIngressStruct params of
        None \<Rightarrow> kfail Crashed
      | Some x \<Rightarrow> kwrite ''failed to update ingress: '' (kupdate api (KIngress (x\<lparr>ki_name := ki_name existing\<rparr>))))"

record resource_set =
  rs_deployments :: "(string \<times> k_deployment) list"
  rs_services :: "(string \<times> k_service) list"
  rs_ingresses :: "(string \<times> k_ingress) list"

definition listExistingResources :: "'s kube_api \<Rightarrow> ('s, resource_set) kcall" where
  "listExistingResources api =
     kbind (kread ''failed to list existing deployments: '' (klist api DeploymentKind (Some maos_label))) (\<lambda>ds.
     kbind (kread ''failed to list existing services: '' (klist api ServiceKind (Some maos_label))) (\<lambda>ss.
     kbind (kread ''failed to list existing ingresses: '' (klist api IngressKind (Some maos_label))) (\<lambda>is.
     kreturn
       \<lparr>rs_deployments = map (\<lambda>x. (kd_name x, x)) (List.map_filter as_deployment ds),
        rs_services = map (\<lambda>x. (ks_name x, x)) (List.map_filter as_service ss),
        rs_ingresses = map (\<lambda>x. (ki_name x, x)) (List.map_filter as_ingress is)\<rparr>)))"

definition put_deployment :: "'s kube_api \<Rightarrow> resource_set \<Rightarrow> deployment_params \<Rightarrow> ('s, unit) kcall" where
  "put_deployment api existing params =
     (case map_of (rs_deployments existing) (dp_name params) of
        Some x \<Rightarrow> wrap_error ''failed to update deployment: '' (updateDeployment api x params)
      | None \<Rightarrow> wrap_error ''failed to create deployment: '' (createDeployment api params))"

definition put_service :: "'s kube_api \<Rightarrow> resource_set \<Rightarrow> deployment_params \<Rightarrow> ('s, unit) kcall" where
  "put_service api existing params =
     (if \<not> dp_has_service params then kreturn ()
      else case map_of (rs_services existing) (service_name params) of
        Some x \<Rightarrow> wrap_error ''failed to update service: '' (updateService api x params)
      | None \<Rightarrow> wrap_error ''failed to create service: '' (createService api params))"

definition put_ingress :: "'s kube_api \<Rightarrow> resource_set \<Rightarrow> deployment_params \<Rightarrow> ('s, unit) kcall" where
  "put_ingress api existing params =
     (if \<not> dp_has_ingress params then kreturn ()
      else case map_of (rs_ingresses existing) (dp_name params) of
        Some x \<Rightarrow> wrap_error ''failed to update ingress: '' (updateIngress api x params)
      | None \<Rightarrow> wrap_error ''failed to create ingress: '' (createIngress api params))"

text \<open>What is left of the clone: an entry goes when its object has been updated.\<close>

definition without :: "deployment_params \<Rightarrow> resource_set \<Rightarrow> resource_set" where
  "without params cloned =
     \<lparr>rs_deployments = filter (\<lambda>(n, _). n \<noteq> dp_name params) (rs_deployments cloned),
      rs_services = (if dp_has_service params
        then filter (\<lambda>(n, _). n \<noteq> service_name params) (rs_services cloned) else rs_services cloned),
      rs_ingresses = (if dp_has_ingress params
        then filter (\<lambda>(n, _). n \<noteq> dp_name params) (rs_ingresses cloned) else rs_ingresses cloned)\<rparr>"

fun processDeploymentSet ::
    "'s kube_api \<Rightarrow> resource_set \<Rightarrow> deployment_params list \<Rightarrow> resource_set \<Rightarrow> ('s, resource_set) kcall" where
  "processDeploymentSet api existing [] cloned = kreturn cloned"
| "processDeploymentSet api existing (params # rest) cloned =
     kbind (put_deployment api existing params) (\<lambda>_.
     kbind (put_service api existing (labelled params)) (\<lambda>_.
     kbind (put_ingress api existing (labelled params)) (\<lambda>_.
     processDeploymentSet api existing rest (without params cloned))))"

text \<open>\<open>gone\<close>: the object is deleted, or there was none.\<close>

definition gone :: "string \<Rightarrow> ('s \<Rightarrow> kerr option \<times> 's) \<Rightarrow> ('s, unit) kcall" where
  "gone msg f s =
     (case f s of
        (None, s1) \<Rightarrow> (Inr (), s1)
      | (Some IsNotFound, s1) \<Rightarrow> (Inr (), s1)
      | (Some e, s1) \<Rightarrow> (Inl (Failed (msg @ kerr_text e)), s1))"

definition deleteDeploymentResources :: "'s kube_api \<Rightarrow> string \<Rightarrow> ('s, unit) kcall" where
  "deleteDeploymentResources api name =
     kbind (kwrite ''failed to delete deployment: '' (kdelete api (DeploymentKind, name))) (\<lambda>_.
     kbind (gone ''failed to delete secret: '' (kdelete api (SecretKind, api_key_secret name))) (\<lambda>_.
     gone ''failed to delete service account: '' (kdelete api (ServiceAccountKind, name))))"

text \<open>Errors are logged, and the loop goes on.\<close>

definition ignored :: "('s, unit) kcall \<Rightarrow> ('s, unit) kcall" where
  "ignored m s = (Inr (), snd (m s))"

definition deleteObsoleteResources :: "'s kube_api \<Rightarrow> resource_set \<Rightarrow> ('s, unit) kcall" where
  "deleteObsoleteResources api obsolete =
     kbind (kfor (map fst (rs_deployments obsolete)) (\<lambda>n. ignored (deleteDeploymentResources api n))) (\<lambda>_.
     kbind (kfor (map (ks_name \<circ> snd) (rs_services obsolete)) (\<lambda>n. ignored (gone '''' (kdelete api (ServiceKind, n))))) (\<lambda>_.
     kfor (map (ki_name \<circ> snd) (rs_ingresses obsolete)) (\<lambda>n. ignored (gone '''' (kdelete api (IngressKind, n))))))"

definition UpdateDeploymentSet :: "'s kube_api \<Rightarrow> deployment_params list \<Rightarrow> ('s, unit) kcall" where
  "UpdateDeploymentSet api deploymentSet =
     kbind (listExistingResources api) (\<lambda>existing.
     kbind (processDeploymentSet api existing deploymentSet existing) (\<lambda>obsolete.
     deleteObsoleteResources api obsolete))"

subsection \<open>Restarts, secrets and pods\<close>

text \<open>\<open>stamp\<close> prints the time.\<close>

definition TriggerRollingRestart :: "'s kube_api \<Rightarrow> (int \<Rightarrow> string) \<Rightarrow> string \<Rightarrow> ('s, unit) kcall" where
  "TriggerRollingRestart api stamp deploymentName =
     kbind (kread ''failed to get deployment: '' (get_deployment api deploymentName)) (\<lambda>d s.
       let ann = AList.update ''kubectl.kubernetes.io/restartedAt'' (stamp (kclock api s)) (from_ptr_or (kd_annotations d) [])
       in kwrite ''failed to update deployment: '' (kupdate api (KDeployment (d\<lparr>kd_annotations := Some ann\<rparr>))) s)"

definition ListSecrets :: "'s kube_api \<Rightarrow> ('s, secret_keys list) kcall" where
  "ListSecrets api =
     kbind (kread ''failed to list secrets: '' (klist api SecretKind None)) (\<lambda>xs.
       kreturn (map (\<lambda>x. \<lparr>sk_name = kx_name x, sk_keys = map fst (from_ptr_or (kx_data x) [])\<rparr>)
         (List.map_filter as_secret xs)))"

definition createSecret :: "'s kube_api \<Rightarrow> string \<Rightarrow> smap \<Rightarrow> ('s, unit) kcall" where
  "createSecret api secretName secretData =
     kwrite ''failed to create secret: '' (kcreate api (KSecret
       \<lparr>kx_name = secretName, kx_labels = [(''created-by'', ''maos'')], kx_data = Some secretData\<rparr>))"

text \<open>An empty value deletes its key.\<close>

definition set_secret_key :: "string \<times> string \<Rightarrow> smap \<Rightarrow> smap" where
  "set_secret_key = (\<lambda>(k, v) m. if v = '''' then filter (\<lambda>(k', _). k' \<noteq> k) m else AList.update k v m)"

definition updateExistingSecret :: "'s kube_api \<Rightarrow> k_secret \<Rightarrow> smap \<Rightarrow> ('s, unit) kcall" where
  "updateExistingSecret api secret secretData =
     kwrite ''failed to update secret: '' (kupdate api (KSecret
       (secret\<lparr>kx_data := Some (fold set_secret_key secretData (from_ptr_or (kx_data secret) []))\<rparr>)))"

definition UpdateSecret :: "'s kube_api \<Rightarrow> string \<Rightarrow> smap \<Rightarrow> ('s, unit) kcall" where
  "UpdateSecret api secretName secretData s =
     (case get_secret api secretName s of
        Inl IsNotFound \<Rightarrow> createSecret api secretName secretData s
      | Inl e \<Rightarrow> (Inl (Failed (''failed to get secret: '' @ kerr_text e)), s)
      | Inr x \<Rightarrow> updateExistingSecret api x secretData s)"

definition DeleteSecret :: "'s kube_api \<Rightarrow> string \<Rightarrow> ('s, unit) kcall" where
  "DeleteSecret api secretName = kwrite ''failed to delete secret: '' (kdelete api (SecretKind, secretName))"

definition ListRunningPodsWithMetrics :: "'s kube_api \<Rightarrow> ('s, (pod \<times> json) list) kcall" where
  "ListRunningPodsWithMetrics api =
     kbind (kread ''failed to list pods: '' (kpods api maos_label)) (\<lambda>pods.
     kbind (kread ''failed to get pod metrics: '' (kmetrics api maos_label)) (\<lambda>ms.
       kreturn (List.map_filter (\<lambda>p. if pod_running p then map_option (Pair p) (map_of ms (pod_name p)) else None) pods)))"

subsection \<open>Migration jobs\<close>

definition job_name :: "migration_params \<Rightarrow> string" where
  "job_name migration = ''migration-'' @ mp_name migration @ ''-'' @ FormatInt (mp_serial migration)"

text \<open>\<^verbatim>\<open>resource.MustParse\<close> panics on a quantity that does not parse.\<close>

definition createMigrationJob :: "'s kube_api \<Rightarrow> migration_params \<Rightarrow> ('s, string) kcall" where
  "createMigrationJob api migration =
     (case (kquantity api (mp_memory_request migration), kquantity api (mp_memory_limit migration)) of
        (Some req, Some lim) \<Rightarrow>
          kbind (kwrite ''failed to create migration job: '' (kcreate api (KJob
            \<lparr>kj_name = job_name migration, kj_labels = [(''created-by'', ''maos''), (''type'', ''migration'')],
             kj_image = mp_image migration, kj_env = createMigrationEnvVars migration,
             kj_command = mp_command migration, kj_memory_request = req, kj_memory_limit = lim,
             kj_pull_secrets = (if mp_image_pull_secrets migration \<noteq> '''' then [mp_image_pull_secrets migration] else []),
             kj_succeeded = 0, kj_failed = 0\<rparr>)))
          (\<lambda>_. kreturn (job_name migration))
      | _ \<Rightarrow> kfail Crashed)"

text \<open>The pods of a job write into one map, so the last pod wins.\<close>

definition pod_logs :: "'s kube_api \<Rightarrow> 's \<Rightarrow> pod \<Rightarrow> (string \<times> json) list \<Rightarrow> (string \<times> json) list" where
  "pod_logs api s p logs =
     (let l = AList.update ''Conditions'' (pod_conditions p) (AList.update ''ContainerStatuses'' (pod_statuses p)
            (AList.update ''Reason'' (JStr (pod_reason p)) (AList.update ''Message'' (JStr (pod_message p)) logs)))
      in case kpodlogs api (pod_name p) s of Inl _ \<Rightarrow> l | Inr t \<Rightarrow> AList.update ''PodLogs'' (JStr t) l)"

definition collectJobPodsLogs :: "'s kube_api \<Rightarrow> string \<Rightarrow> 's \<Rightarrow> string + (string \<times> json) list" where
  "collectJobPodsLogs api jobName s =
     (case kpods api (''job-name'', jobName) s of
        Inl e \<Rightarrow> Inl (''failed to list pods for job '' @ jobName @ '': '' @ kerr_text e)
      | Inr pods \<Rightarrow> Inr (fold (pod_logs api s) pods []))"

text \<open>
  The jobs still watched, the failures, and the last logs seen, of whichever job (\<open>None\<close> the nil map).
\<close>

record watch =
  w_jobs :: "string list"
  w_failures :: "(string \<times> json) list"
  w_last_logs :: "(string \<times> json) list option"

definition check_job :: "'s kube_api \<Rightarrow> 's \<Rightarrow> string \<Rightarrow> watch \<Rightarrow> watch" where
  "check_job api s jobName w =
     (case get_job api jobName s of
        Inl _ \<Rightarrow> w
      | Inr j \<Rightarrow>
          (let lastLogs = (case collectJobPodsLogs api jobName s of
                 Inr (l # ls) \<Rightarrow> Some (l # ls) | _ \<Rightarrow> w_last_logs w);
               w1 = w\<lparr>w_last_logs := lastLogs\<rparr>
           in if kj_succeeded j > 0 then w1\<lparr>w_jobs := removeAll jobName (w_jobs w)\<rparr>
              else if kj_failed j > 0 then
                w1\<lparr>w_jobs := removeAll jobName (w_jobs w),
                   w_failures := AList.update jobName (case lastLogs of None \<Rightarrow> JNull | Some l \<Rightarrow> JObj l) (w_failures w)\<rparr>
              else w1))"

text \<open>\<open>ticks\<close> is how often the ticker fires before the context ends.\<close>

fun watch_jobs :: "'s kube_api \<Rightarrow> nat \<Rightarrow> watch \<Rightarrow> 's \<Rightarrow> watch option \<times> 's" where
  "watch_jobs api ticks w s =
     (if w_jobs w = [] then (Some w, s)
      else case ticks of
        0 \<Rightarrow> (None, s)
      | Suc n \<Rightarrow> (let s1 = kwait api s in watch_jobs api n (fold (check_job api s1) (w_jobs w) w) s1))"

declare watch_jobs.simps [simp del]

fun create_jobs :: "'s kube_api \<Rightarrow> migration_params list \<Rightarrow> ('s, string list) kcall" where
  "create_jobs api [] = kreturn []"
| "create_jobs api (m # ms) =
     kbind (wrap_error ''failed to create migration job: '' (createMigrationJob api m)) (\<lambda>j.
     kbind (create_jobs api ms) (\<lambda>js. kreturn (j # js)))"

definition RunMigrations ::
    "'s kube_api \<Rightarrow> nat \<Rightarrow> migration_params list \<Rightarrow> 's \<Rightarrow> (json \<times> string option) outcome \<times> 's" where
  "RunMigrations api ticks migrations s =
     (case create_jobs api migrations s of
        (Inl Crashed, s1) \<Rightarrow> (Panic ''cannot parse quantity'', s1)
      | (Inl (Failed e), s1) \<Rightarrow> (Return (JNull, Some e), s1)
      | (Inr jobs, s1) \<Rightarrow>
          (case watch_jobs api ticks \<lparr>w_jobs = remdups jobs, w_failures = [], w_last_logs = None\<rparr> s1 of
             (None, s2) \<Rightarrow> (Return (JNull, Some ''context deadline exceeded''), s2)
           | (Some w, s2) \<Rightarrow>
               if w_failures w \<noteq> [] then (Return (JObj (w_failures w), Some ''migration failed''), s2)
               else (Return (JNull, None), s2)))"

subsection \<open>What is used of the API server\<close>

text \<open>
  \<open>objs s\<close> are the objects of the namespace by kind and name. Reads show them; a create that succeeds
  adds an object whose key was free, an update replaces one, a delete removes one; \<open>IsNotFound\<close> is told
  of free keys only; a list has exactly the objects of its kind with the label. Any call may fail.
\<close>

type_synonym objects = "kind \<times> string \<Rightarrow> kobject option"

definition has_label :: "string \<times> string \<Rightarrow> kobject \<Rightarrow> bool" where
  "has_label l x \<longleftrightarrow> map_of (labels_of x) (fst l) = Some (snd l)"

definition kube_laws :: "'s kube_api \<Rightarrow> ('s \<Rightarrow> objects) \<Rightarrow> bool" where
  "kube_laws api objs \<longleftrightarrow>
     (\<forall>s k x. objs s k = Some x \<longrightarrow> key_of x = k) \<and>
     (\<forall>s k x. kget api k s = Inr x \<longrightarrow> objs s k = Some x) \<and>
     (\<forall>s k. kget api k s = Inl IsNotFound \<longrightarrow> objs s k = None) \<and>
     (\<forall>s s' x. kcreate api x s = (None, s') \<longrightarrow> objs s (key_of x) = None \<and> objs s' = (objs s)(key_of x \<mapsto> x)) \<and>
     (\<forall>s s' x. kupdate api x s = (None, s') \<longrightarrow> objs s (key_of x) \<noteq> None \<and> objs s' = (objs s)(key_of x \<mapsto> x)) \<and>
     (\<forall>s s' k. kdelete api k s = (None, s') \<longrightarrow> objs s' = (objs s)(k := None)) \<and>
     (\<forall>s s' k. kdelete api k s = (Some IsNotFound, s') \<longrightarrow> objs s k = None \<and> objs s' = objs s) \<and>
     (\<forall>s kd l xs. klist api kd (Some l) s = Inr xs \<longrightarrow>
        set xs = {x. \<exists>n. objs s (kd, n) = Some x \<and> has_label l x})"

text \<open>Deletes that never fail, except on objects that are gone already.\<close>

definition deletes_work :: "'s kube_api \<Rightarrow> bool" where
  "deletes_work api \<longleftrightarrow> (\<forall>k s. fst (kdelete api k s) = None \<or> fst (kdelete api k s) = Some IsNotFound)"

definition managed :: "objects \<Rightarrow> kind \<Rightarrow> string \<Rightarrow> bool" where
  "managed objs kd n \<longleftrightarrow> (\<exists>x. objs (kd, n) = Some x \<and> has_label maos_label x)"

text \<open>
  What the cluster is to hold for one deployment of the set: its deployment, its API key, and its
  service and ingress when it has them.
\<close>

definition holds_deployment :: "'s kube_api \<Rightarrow> objects \<Rightarrow> deployment_params \<Rightarrow> bool" where
  "holds_deployment api objs p \<longleftrightarrow>
     (\<exists>sa now. objs (DeploymentKind, dp_name p) = Some (KDeployment (createDeploymentStruct api p sa now)))"

definition holds_api_key :: "objects \<Rightarrow> deployment_params \<Rightarrow> bool" where
  "holds_api_key objs p \<longleftrightarrow>
     objs (SecretKind, api_key_secret (dp_name p)) =
       Some (KSecret \<lparr>kx_name = api_key_secret (dp_name p), kx_labels = [(''created-by'', ''maos-internal'')],
         kx_data = Some [(''MAOS_API_KEY'', dp_api_key p)]\<rparr>)"

definition holds_service :: "objects \<Rightarrow> deployment_params \<Rightarrow> bool" where
  "holds_service objs p \<longleftrightarrow>
     (dp_has_service p \<longrightarrow>
       objs (ServiceKind, service_name p) = Some (KService (createServiceStruct (labelled p))))"

definition holds_ingress :: "objects \<Rightarrow> deployment_params \<Rightarrow> bool" where
  "holds_ingress objs p \<longleftrightarrow>
     (dp_has_ingress p \<longrightarrow>
       (\<exists>x. createIngressStruct (labelled p) = Some x \<and> objs (IngressKind, dp_name p) = Some (KIngress x)))"

definition holds_all :: "'s kube_api \<Rightarrow> objects \<Rightarrow> deployment_params \<Rightarrow> bool" where
  "holds_all api objs p \<longleftrightarrow>
     holds_deployment api objs p \<and> holds_api_key objs p \<and> holds_service objs p \<and> holds_ingress objs p"

definition managed_kinds :: "kind set" where
  "managed_kinds = {DeploymentKind, ServiceKind, IngressKind}"

text \<open>The names the set asks for, by kind.\<close>

fun wanted :: "deployment_params list \<Rightarrow> kind \<Rightarrow> string set" where
  "wanted ps DeploymentKind = dp_name ` set ps"
| "wanted ps ServiceKind = service_name ` {p \<in> set ps. dp_has_service p}"
| "wanted ps IngressKind = dp_name ` {p \<in> set ps. dp_has_ingress p}"
| "wanted ps _ = {}"

definition matches_set :: "'s kube_api \<Rightarrow> objects \<Rightarrow> deployment_params list \<Rightarrow> bool" where
  "matches_set api objs ps \<longleftrightarrow>
     (\<forall>p \<in> set ps. holds_all api objs p) \<and>
     (\<forall>kd \<in> managed_kinds. \<forall>n. managed objs kd n \<longleftrightarrow> n \<in> wanted ps kd)"

subsection \<open>Facts\<close>

text \<open>A successful call changes no objects outside \<open>K\<close> and ends in a state with \<open>Q\<close>.\<close>

definition writes ::
    "('s \<Rightarrow> objects) \<Rightarrow> (kind \<times> string) set \<Rightarrow> ('s, 'a) kcall \<Rightarrow> ('a \<Rightarrow> objects \<Rightarrow> bool) \<Rightarrow> bool" where
  "writes objs K m Q \<longleftrightarrow>
     (\<forall>s x s'. m s = (Inr x, s') \<longrightarrow> Q x (objs s') \<and> (\<forall>k. k \<notin> K \<longrightarrow> objs s' k = objs s k))"

lemma writesD:
  assumes "writes objs K m Q" and "m s = (Inr x, s')"
  shows "Q x (objs s')" and "k \<notin> K \<Longrightarrow> objs s' k = objs s k"
  using assms unfolding writes_def by blast+

lemma kbind_success:
  "kbind m f s = (Inr y, s') \<longleftrightarrow> (\<exists>x s1. m s = (Inr x, s1) \<and> f x s1 = (Inr y, s'))"
  by (auto simp: kbind_def split: prod.splits sum.splits)

lemma wrap_error_success [simp]: "wrap_error msg m s = (Inr y, s') \<longleftrightarrow> m s = (Inr y, s')"
  by (auto simp: wrap_error_def split: prod.splits sum.splits kfail.splits)

lemma kread_success [simp]: "kread msg f s = (Inr x, s') \<longleftrightarrow> f s = Inr x \<and> s' = s"
  by (auto simp: kread_def split: sum.splits)

lemma kwrite_success [simp]: "kwrite msg f s = (Inr x, s') \<longleftrightarrow> f s = (None, s')"
  by (auto simp: kwrite_def split: prod.splits option.splits)

lemma kreturn_success [simp]: "kreturn x s = (Inr y, s') \<longleftrightarrow> y = x \<and> s' = s"
  by (auto simp: kreturn_def)

lemma kfail_success [simp]: "kfail e s \<noteq> (Inr y, s')"
  by (simp add: kfail_def)

lemma laws_create:
  "kube_laws api objs \<Longrightarrow> kcreate api x s = (None, s') \<Longrightarrow> objs s' = (objs s)(key_of x \<mapsto> x)"
  unfolding kube_laws_def by blast

lemma laws_update:
  "kube_laws api objs \<Longrightarrow> kupdate api x s = (None, s') \<Longrightarrow> objs s' = (objs s)(key_of x \<mapsto> x)"
  unfolding kube_laws_def by blast

lemma laws_list:
  "kube_laws api objs \<Longrightarrow> klist api kd (Some l) s = Inr xs \<Longrightarrow>
   set xs = {x. \<exists>n. objs s (kd, n) = Some x \<and> has_label l x}"
  unfolding kube_laws_def by blast

lemma laws_key: "kube_laws api objs \<Longrightarrow> objs s k = Some x \<Longrightarrow> key_of x = k"
  unfolding kube_laws_def by (elim conjE) metis

lemma api_key_written:
  assumes "kube_laws api objs"
  shows "writes objs {(SecretKind, api_key_secret (dp_name p))} (createOrUpdateApiKey api p)
    (\<lambda>_ ob. holds_api_key ob p)"
  unfolding writes_def createOrUpdateApiKey_def holds_api_key_def
  by (auto simp: Let_def split: sum.splits kerr.splits dest!: laws_create [OF assms] laws_update [OF assms])

lemma service_account_written:
  assumes "kube_laws api objs"
  shows "writes objs {(ServiceAccountKind, n)} (createServiceAccount api n) (\<lambda>_ _. True)"
  unfolding writes_def createServiceAccount_def
  by (auto simp: kbind_success split: sum.splits kerr.splits dest!: laws_create [OF assms])

lemma check_deployment_success: "checkDeploymentExists api n s = (Inr x, s') \<Longrightarrow> s' = s"
  by (auto simp: checkDeploymentExists_def split: sum.splits kerr.splits)

definition own_keys :: "deployment_params \<Rightarrow> (kind \<times> string) set" where
  "own_keys p = {(DeploymentKind, dp_name p), (SecretKind, api_key_secret (dp_name p)), (ServiceAccountKind, dp_name p)}"

definition set_keys :: "deployment_params \<Rightarrow> (kind \<times> string) set" where
  "set_keys p = own_keys p \<union> (if dp_has_service p then {(ServiceKind, service_name p)} else {}) \<union>
     (if dp_has_ingress p then {(IngressKind, dp_name p)} else {})"

text \<open>The entries of a listed set are stored under their names.\<close>

definition well_named :: "resource_set \<Rightarrow> bool" where
  "well_named rs \<longleftrightarrow>
     (\<forall>(n, x) \<in> set (rs_deployments rs). kd_name x = n) \<and>
     (\<forall>(n, x) \<in> set (rs_services rs). ks_name x = n) \<and>
     (\<forall>(n, x) \<in> set (rs_ingresses rs). ki_name x = n)"

lemma struct_names [simp]:
  "kd_name (createDeploymentStruct api p sa now) = dp_name p"
  "ks_name (createServiceStruct p) = service_name p"
  by (simp_all add: createDeploymentStruct_def createServiceStruct_def Let_def)

lemma ingress_struct:
  assumes "createIngressStruct p = Some x"
  shows "ki_name x = dp_name p \<and> ki_labels x = dp_labels p"
  using assms by (cases "dp_service_ports p") (auto simp: createIngressStruct_def)

lemma labelled_simps [simp]:
  "dp_name (labelled p) = dp_name p" "dp_has_service (labelled p) = dp_has_service p"
  "dp_has_ingress (labelled p) = dp_has_ingress p" "service_name (labelled p) = service_name p"
  by (simp_all add: labelled_def service_name_def)

lemma rename_same: "kd_name x = n \<Longrightarrow> x\<lparr>kd_name := n\<rparr> = x" "ks_name y = n \<Longrightarrow> y\<lparr>ks_name := n\<rparr> = y"
  "ki_name z = n \<Longrightarrow> z\<lparr>ki_name := n\<rparr> = z"
  by auto

lemma create_deployment_written:
  assumes "kube_laws api objs"
  shows "writes objs (own_keys p) (createDeployment api p) (\<lambda>_ ob. holds_deployment api ob p \<and> holds_api_key ob p)"
  unfolding writes_def
proof (intro allI impI)
  fix s u s'
  assume "createDeployment api p s = (Inr u, s')"
  then obtain sa s2 s3 where c: "createServiceAccount api (dp_name p) s = (Inr sa, s2)"
      "createOrUpdateApiKey api p s2 = (Inr (), s3)"
      "kcreate api (KDeployment (createDeploymentStruct api p sa (kclock api s3))) s3 = (None, s')"
    by (auto simp: createDeployment_def kbind_success dest!: check_deployment_success)
  note sa = writesD(2) [OF service_account_written [OF assms] c(1)]
  note key = writesD [OF api_key_written [OF assms] c(2)]
  have last: "objs s' = (objs s3)((DeploymentKind, dp_name p) \<mapsto> KDeployment (createDeploymentStruct api p sa (kclock api s3)))"
    using laws_create [OF assms c(3)] by simp
  show "(holds_deployment api (objs s') p \<and> holds_api_key (objs s') p) \<and>
      (\<forall>k. k \<notin> own_keys p \<longrightarrow> objs s' k = objs s k)"
    using sa key unfolding last by (auto simp: own_keys_def holds_deployment_def holds_api_key_def)
qed

lemma update_deployment_written:
  assumes "kube_laws api objs" and "kd_name x = dp_name p"
  shows "writes objs (own_keys p) (updateDeployment api x p) (\<lambda>_ ob. holds_deployment api ob p \<and> holds_api_key ob p)"
  unfolding writes_def
proof (intro allI impI)
  fix s u s'
  assume "updateDeployment api x p s = (Inr u, s')"
  then obtain sa s1 where c: "createOrUpdateApiKey api p s = (Inr (), s1)"
      "kupdate api (KDeployment ((createDeploymentStruct api p sa (kclock api s1))\<lparr>kd_name := kd_name x\<rparr>)) s1 = (None, s')"
    by (auto simp: updateDeployment_def kbind_success Let_def)
  note key = writesD [OF api_key_written [OF assms(1)] c(1)]
  have last: "objs s' = (objs s1)((DeploymentKind, dp_name p) \<mapsto> KDeployment (createDeploymentStruct api p sa (kclock api s1)))"
    using laws_update [OF assms(1) c(2)] assms(2) by (simp add: rename_same)
  show "(holds_deployment api (objs s') p \<and> holds_api_key (objs s') p) \<and>
      (\<forall>k. k \<notin> own_keys p \<longrightarrow> objs s' k = objs s k)"
    using key unfolding last by (auto simp: own_keys_def holds_deployment_def holds_api_key_def)
qed

lemma put_deployment_written:
  assumes "kube_laws api objs" and "well_named existing"
  shows "writes objs (own_keys p) (put_deployment api existing p) (\<lambda>_ ob. holds_deployment api ob p \<and> holds_api_key ob p)"
proof (cases "map_of (rs_deployments existing) (dp_name p)")
  case None
  with create_deployment_written [OF assms(1), of p] show ?thesis by (simp add: put_deployment_def writes_def)
next
  case (Some x)
  then have "kd_name x = dp_name p" using assms(2) by (auto simp: well_named_def dest!: map_of_SomeD)
  with update_deployment_written [OF assms(1) this] Some show ?thesis by (simp add: put_deployment_def writes_def)
qed

lemma put_service_written:
  assumes "kube_laws api objs" and "well_named existing"
  shows "writes objs (if dp_has_service p then {(ServiceKind, service_name p)} else {})
    (put_service api existing (labelled p)) (\<lambda>_ ob. holds_service ob p)"
proof (cases "dp_has_service p")
  case False
  then show ?thesis by (simp add: put_service_def writes_def holds_service_def)
next
  case has: True
  show ?thesis
  proof (cases "map_of (rs_services existing) (service_name p)")
    case None
    then show ?thesis
      using has by (auto simp: put_service_def writes_def createService_def holds_service_def
          dest!: laws_create [OF assms(1)])
  next
    case (Some x)
    then have "ks_name x = service_name p" using assms(2) by (auto simp: well_named_def dest!: map_of_SomeD)
    with Some has show ?thesis
      by (auto simp: put_service_def writes_def updateService_def holds_service_def rename_same
          dest!: laws_update [OF assms(1)])
  qed
qed

lemma put_ingress_written:
  assumes "kube_laws api objs" and "well_named existing"
  shows "writes objs (if dp_has_ingress p then {(IngressKind, dp_name p)} else {})
    (put_ingress api existing (labelled p)) (\<lambda>_ ob. holds_ingress ob p)"
proof (cases "dp_has_ingress p")
  case False
  then show ?thesis by (simp add: put_ingress_def writes_def holds_ingress_def)
next
  case has: True
  show ?thesis
  proof (cases "map_of (rs_ingresses existing) (dp_name p)")
    case None
    then show ?thesis
      using has by (auto simp: put_ingress_def writes_def createIngress_def holds_ingress_def
          split: option.splits dest!: laws_create [OF assms(1)] dest: ingress_struct)
  next
    case (Some x)
    then have "ki_name x = dp_name p" using assms(2) by (auto simp: well_named_def dest!: map_of_SomeD)
    with Some has show ?thesis
      by (auto simp: put_ingress_def writes_def updateIngress_def holds_ingress_def rename_same
          split: option.splits dest!: laws_update [OF assms(1)] dest: ingress_struct)
  qed
qed

lemma listed_names:
  assumes laws: "kube_laws api objs" and list: "klist api kd (Some maos_label) s = Inr xs"
    and key: "\<And>x y. f x = Some y \<Longrightarrow> key_of x = (kd, nm y)" and all: "\<And>x. fst (key_of x) = kd \<Longrightarrow> f x \<noteq> None"
  shows "nm ` set (List.map_filter f xs) = {n. managed (objs s) kd n}"
proof (intro equalityI subsetI)
  fix n
  assume "n \<in> nm ` set (List.map_filter f xs)"
  then obtain x y where x: "x \<in> set xs" "f x = Some y" "nm y = n" by (auto simp: List.map_filter_def)
  with laws_list [OF laws list] key [of x y] laws_key [OF laws] show "n \<in> {n. managed (objs s) kd n}"
    by (fastforce simp: managed_def)
next
  fix n
  assume "n \<in> {n. managed (objs s) kd n}"
  then obtain x where x: "objs s (kd, n) = Some x" "has_label maos_label x" by (auto simp: managed_def)
  then have k: "key_of x = (kd, n)" and "x \<in> set xs"
    using laws_key [OF laws] laws_list [OF laws list] by auto
  moreover obtain y where "f x = Some y" using all [of x] k by auto
  ultimately show "n \<in> nm ` set (List.map_filter f xs)"
    using key [of x y] by (force simp: List.map_filter_def)
qed

lemma typed_keys:
  "as_deployment x = Some d \<Longrightarrow> key_of x = (DeploymentKind, kd_name d)"
  "as_service x = Some v \<Longrightarrow> key_of x = (ServiceKind, ks_name v)"
  "as_ingress x = Some i \<Longrightarrow> key_of x = (IngressKind, ki_name i)"
  "fst (key_of x) = DeploymentKind \<Longrightarrow> as_deployment x \<noteq> None"
  "fst (key_of x) = ServiceKind \<Longrightarrow> as_service x \<noteq> None"
  "fst (key_of x) = IngressKind \<Longrightarrow> as_ingress x \<noteq> None"
  by (cases x; simp)+

lemma list_existing:
  assumes "kube_laws api objs" and "listExistingResources api s = (Inr ex, s')"
  shows "s' = s \<and> well_named ex \<and>
    fst ` set (rs_deployments ex) = {n. managed (objs s) DeploymentKind n} \<and>
    fst ` set (rs_services ex) = {n. managed (objs s) ServiceKind n} \<and>
    fst ` set (rs_ingresses ex) = {n. managed (objs s) IngressKind n}"
proof -
  obtain ds ss ings where l: "klist api DeploymentKind (Some maos_label) s = Inr ds"
    "klist api ServiceKind (Some maos_label) s = Inr ss" "klist api IngressKind (Some maos_label) s = Inr ings"
    and s': "s' = s"
    and ex: "ex = \<lparr>rs_deployments = map (\<lambda>x. (kd_name x, x)) (List.map_filter as_deployment ds),
        rs_services = map (\<lambda>x. (ks_name x, x)) (List.map_filter as_service ss),
        rs_ingresses = map (\<lambda>x. (ki_name x, x)) (List.map_filter as_ingress ings)\<rparr>"
    using assms(2) by (auto simp: listExistingResources_def kbind_success)
  have d: "kd_name ` set (List.map_filter as_deployment ds) = {n. managed (objs s) DeploymentKind n}"
    by (rule listed_names [OF assms(1) l(1)]) (erule typed_keys)+
  have v: "ks_name ` set (List.map_filter as_service ss) = {n. managed (objs s) ServiceKind n}"
    by (rule listed_names [OF assms(1) l(2)]) (erule typed_keys)+
  have i: "ki_name ` set (List.map_filter as_ingress ings) = {n. managed (objs s) IngressKind n}"
    by (rule listed_names [OF assms(1) l(3)]) (erule typed_keys)+
  show ?thesis unfolding ex using d v i s' by (simp add: well_named_def image_image)
qed

text \<open>No two deployments of the set are for the same objects.\<close>

definition apart :: "deployment_params list \<Rightarrow> bool" where
  "apart ps \<longleftrightarrow> distinct (map dp_name ps) \<and> distinct (map service_name (filter dp_has_service ps))"

lemma api_key_secret_inj [simp]: "api_key_secret a = api_key_secret b \<longleftrightarrow> a = b"
  by (simp add: api_key_secret_def)

lemma apart_keys:
  assumes "apart (p # ps)" and "q \<in> set ps"
  shows "set_keys p \<inter> set_keys q = {}"
proof -
  have "dp_name p \<noteq> dp_name q" using assms by (auto simp: apart_def)
  moreover have "service_name p \<noteq> service_name q" if "dp_has_service p" "dp_has_service q"
    using that assms by (auto simp: apart_def)
  ultimately show ?thesis by (auto simp: set_keys_def own_keys_def split: if_splits)
qed

lemma apart_tail: "apart (p # ps) \<Longrightarrow> apart ps"
  by (simp add: apart_def split: if_splits)

lemma holds_kept:
  assumes "holds_all api ob p" and "\<And>k. k \<in> set_keys p \<Longrightarrow> ob' k = ob k"
  shows "holds_all api ob' p"
  using assms by (auto simp: holds_all_def holds_deployment_def holds_api_key_def holds_service_def
      holds_ingress_def set_keys_def own_keys_def)

lemma put_all_written:
  assumes "kube_laws api objs" and "well_named existing"
    and "put_deployment api existing p s = (Inr (), s1)"
    and "put_service api existing (labelled p) s1 = (Inr (), s2)"
    and "put_ingress api existing (labelled p) s2 = (Inr (), s3)"
  shows "holds_all api (objs s3) p" and "k \<notin> set_keys p \<Longrightarrow> objs s3 k = objs s k"
proof -
  note d = writesD [OF put_deployment_written [OF assms(1,2)] assms(3)]
  note v = writesD [OF put_service_written [OF assms(1,2)] assms(4)]
  note i = writesD [OF put_ingress_written [OF assms(1,2)] assms(5)]
  have 1: "objs s3 k = objs s1 k" if "k \<in> own_keys p" for k
    using that v(2) [of k] i(2) [of k] by (auto simp: own_keys_def split: if_splits)
  have 2: "objs s3 (ServiceKind, n) = objs s2 (ServiceKind, n)" for n
    using i(2) [of "(ServiceKind, n)"] by (auto split: if_splits)
  show "holds_all api (objs s3) p"
    using d(1) v(1) i(1) 1 2
    by (simp add: holds_all_def holds_deployment_def holds_api_key_def holds_service_def own_keys_def)
  show "objs s3 k = objs s k" if "k \<notin> set_keys p"
    using that d(2) [of k] v(2) [of k] i(2) [of k] by (auto simp: set_keys_def split: if_splits)
qed

lemma processed:
  assumes "kube_laws api objs" and "well_named existing" and "apart ps"
    and "processDeploymentSet api existing ps cloned s = (Inr left, s')"
  shows "left = fold without ps cloned \<and> (\<forall>p \<in> set ps. holds_all api (objs s') p) \<and>
    (\<forall>k. (\<forall>p \<in> set ps. k \<notin> set_keys p) \<longrightarrow> objs s' k = objs s k)"
  using assms(3,4)
proof (induction ps arbitrary: cloned s)
  case (Cons p ps)
  then obtain s1 s2 s3 where c: "put_deployment api existing p s = (Inr (), s1)"
      "put_service api existing (labelled p) s1 = (Inr (), s2)" "put_ingress api existing (labelled p) s2 = (Inr (), s3)"
      "processDeploymentSet api existing ps (without p cloned) s3 = (Inr left, s')"
    by (auto simp: kbind_success)
  note p = put_all_written [OF assms(1,2) c(1-3)]
  note rest = Cons.IH [OF apart_tail [OF Cons.prems(1)] c(4)]
  have "objs s' k = objs s3 k" if "k \<in> set_keys p" for k
    using rest apart_keys [OF Cons.prems(1)] that by blast
  with p(1) have "holds_all api (objs s') p" by (rule holds_kept)
  with rest p(2) show ?case by simp
qed simp

text \<open>A call that ends without error, leaves nothing at \<open>R\<close>, adds nothing and changes nothing outside \<open>K\<close>.\<close>

definition removes ::
    "('s \<Rightarrow> objects) \<Rightarrow> (kind \<times> string) set \<Rightarrow> (kind \<times> string) set \<Rightarrow> ('s, unit) kcall \<Rightarrow> bool" where
  "removes objs K R m \<longleftrightarrow>
     (\<forall>s. fst (m s) = Inr () \<and> (\<forall>k. (k \<in> R \<or> objs s k = None) \<longrightarrow> objs (snd (m s)) k = None) \<and>
        (\<forall>k. k \<notin> K \<longrightarrow> objs (snd (m s)) k = objs s k))"

lemma removesD:
  assumes "removes objs K R m"
  shows "fst (m s) = Inr ()" and "k \<in> R \<or> objs s k = None \<Longrightarrow> objs (snd (m s)) k = None"
    and "k \<notin> K \<Longrightarrow> objs (snd (m s)) k = objs s k"
  using assms unfolding removes_def by blast+

lemma removes_seq:
  assumes "removes objs K R m" and "removes objs K' R' m'"
  shows "removes objs (K \<union> K') (R \<union> R') (kbind m (\<lambda>_. m'))"
  unfolding removes_def
proof (intro allI conjI impI)
  fix s k
  have run: "kbind m (\<lambda>_. m') s = m' (snd (m s))"
    using removesD(1) [OF assms(1), of s] by (cases "m s") (simp add: kbind_def)
  show "fst (kbind m (\<lambda>_. m') s) = Inr ()"
    unfolding run by (rule removesD(1) [OF assms(2)])
  show "objs (snd (kbind m (\<lambda>_. m') s)) k = None" if "k \<in> R \<union> R' \<or> objs s k = None"
    unfolding run using that removesD(2) [OF assms(1)] removesD(2) [OF assms(2)] by blast
  show "objs (snd (kbind m (\<lambda>_. m') s)) k = objs s k" if "k \<notin> K \<union> K'"
    unfolding run using that removesD(3) [OF assms(1)] removesD(3) [OF assms(2)] by simp
qed

lemma removes_for:
  assumes "\<And>x. removes objs (K x) (R x) (f x)"
  shows "removes objs (\<Union>x \<in> set xs. K x) (\<Union>x \<in> set xs. R x) (kfor xs f)"
proof (induction xs)
  case Nil
  show ?case by (simp add: removes_def kreturn_def)
next
  case (Cons x xs)
  from removes_seq [OF assms this] show ?case by simp
qed

lemma removes_gone:
  assumes "kube_laws api objs" and "deletes_work api"
  shows "removes objs {k} {k} (gone msg (kdelete api k))"
proof -
  have "fst (gone msg (kdelete api k) s) = Inr () \<and> objs (snd (gone msg (kdelete api k) s)) = (objs s)(k := None)" for s
  proof (cases "kdelete api k s")
    case (Pair r s')
    with assms(2) have "r = None \<or> r = Some IsNotFound" unfolding deletes_work_def by (metis fst_conv)
    moreover have "objs s' = (objs s)(k := None)" if "r = None"
      using assms(1) Pair that unfolding kube_laws_def by blast
    moreover have "objs s k = None \<and> objs s' = objs s" if "r = Some IsNotFound"
      using assms(1) Pair that unfolding kube_laws_def by blast
    ultimately show ?thesis using Pair by (auto simp: gone_def)
  qed
  then show ?thesis by (simp add: removes_def)
qed

lemma removes_ignored: "removes objs K R m \<Longrightarrow> removes objs K R (ignored m)"
  by (simp add: removes_def ignored_def)

lemma removes_deployment:
  assumes "kube_laws api objs" and "deletes_work api"
  shows "removes objs {(DeploymentKind, n), (SecretKind, api_key_secret n), (ServiceAccountKind, n)}
    {(DeploymentKind, n)} (ignored (deleteDeploymentResources api n))"
proof -
  let ?rest = "kbind (gone ''failed to delete secret: '' (kdelete api (SecretKind, api_key_secret n)))
    (\<lambda>_. gone ''failed to delete service account: '' (kdelete api (ServiceAccountKind, n)))"
  let ?own = "{(SecretKind, api_key_secret n)} \<union> {(ServiceAccountKind, n)}"
  have rest: "removes objs ?own ?own ?rest"
    by (rule removes_seq [OF removes_gone [OF assms] removes_gone [OF assms]])
  show ?thesis
    unfolding removes_def
  proof (intro allI)
    fix s
    obtain r s1 where d: "kdelete api (DeploymentKind, n) s = (r, s1)" by fastforce
    with assms(2) have r: "r = None \<or> r = Some IsNotFound" unfolding deletes_work_def by (metis fst_conv)
    then have o1: "objs s1 = (objs s)((DeploymentKind, n) := None)"
      using assms(1) d unfolding kube_laws_def by (elim disjE) (fastforce simp: fun_upd_idem)+
    have "snd (deleteDeploymentResources api n s) = (if r = None then snd (?rest s1) else s1)"
      using d r by (auto simp: deleteDeploymentResources_def kbind_def kwrite_def)
    with o1 removesD(2) [OF rest, of _ s1] removesD(3) [OF rest, of _ s1]
    show "fst (ignored (deleteDeploymentResources api n) s) = Inr () \<and>
        (\<forall>k. (k \<in> {(DeploymentKind, n)} \<or> objs s k = None) \<longrightarrow>
          objs (snd (ignored (deleteDeploymentResources api n) s)) k = None) \<and>
        (\<forall>k. k \<notin> {(DeploymentKind, n), (SecretKind, api_key_secret n), (ServiceAccountKind, n)} \<longrightarrow>
          objs (snd (ignored (deleteDeploymentResources api n) s)) k = objs s k)"
      by (auto simp: ignored_def)
  qed
qed

fun listed :: "resource_set \<Rightarrow> kind \<Rightarrow> string set" where
  "listed rs DeploymentKind = fst ` set (rs_deployments rs)"
| "listed rs ServiceKind = fst ` set (rs_services rs)"
| "listed rs IngressKind = fst ` set (rs_ingresses rs)"
| "listed rs _ = {}"

lemma names_filtered: "fst ` {x \<in> set xs. case x of (n, _) \<Rightarrow> n \<noteq> m} = fst ` set xs - {m}"
  by force

lemma just_one: "{q. q = p \<and> P q} = (if P p then {p} else {})"
  by auto

lemma listed_without: "listed (without p rs) kd = listed rs kd - wanted [p] kd"
  by (cases kd) (simp_all add: without_def names_filtered just_one)

lemma wanted_Cons: "wanted (p # ps) kd = wanted [p] kd \<union> wanted ps kd"
  by (cases kd) auto

lemma fold_without: "listed (fold without ps rs) kd = listed rs kd - wanted ps kd"
proof (induction ps arbitrary: rs)
  case Nil
  show ?case by (cases kd) auto
next
  case (Cons p ps)
  then show ?case by (simp add: listed_without wanted_Cons [of p ps] Diff_eq Int_assoc)
qed

lemma well_named_fold: "well_named rs \<Longrightarrow> well_named (fold without ps rs)"
proof (induction ps arbitrary: rs)
  case (Cons p ps)
  have "well_named (without p rs)"
    using Cons.prems by (simp add: without_def well_named_def)
  then show ?case by (simp add: Cons.IH)
qed simp

lemma labelled_maos: "map_of (dp_labels (labelled p)) ''created-by'' = Some ''maos''"
  by (simp add: labelled_def AList.update_conv)

lemma struct_labels:
  "kd_labels (createDeploymentStruct api p sa now) = dp_labels (labelled p)"
  "ks_labels (createServiceStruct q) = dp_labels q"
  by (simp_all add: createDeploymentStruct_def createServiceStruct_def Let_def)

lemma structs_labelled:
  "has_label maos_label (KDeployment (createDeploymentStruct api p sa now))"
  "has_label maos_label (KService (createServiceStruct (labelled p)))"
  "createIngressStruct (labelled p) = Some x \<Longrightarrow> has_label maos_label (KIngress x)"
  by (simp_all add: has_label_def maos_label_def struct_labels labelled_maos ingress_struct)

lemma holds_managed:
  assumes "holds_all api ob p" and "n \<in> wanted [p] kd"
  shows "managed ob kd n"
proof (cases kd)
  case DeploymentKind
  with assms structs_labelled(1) show ?thesis
    by (auto simp: holds_all_def holds_deployment_def managed_def)
next
  case ServiceKind
  with assms structs_labelled(2) show ?thesis
    by (auto simp: holds_all_def holds_service_def managed_def)
next
  case IngressKind
  with assms structs_labelled(3) show ?thesis
    by (auto simp: holds_all_def holds_ingress_def managed_def)
qed (use assms(2) in simp_all)

lemma set_keys_wanted: "(kd, n) \<in> set_keys p \<Longrightarrow> kd \<in> managed_kinds \<Longrightarrow> n \<in> wanted [p] kd"
  by (cases kd) (auto simp: set_keys_def own_keys_def managed_kinds_def split: if_splits)

lemma wanted_iff: "n \<in> wanted ps kd \<longleftrightarrow> (\<exists>p \<in> set ps. n \<in> wanted [p] kd)"
proof (induction ps)
  case Nil
  show ?case by (cases kd) auto
next
  case (Cons p ps)
  then show ?case by (auto simp: wanted_Cons [of p ps])
qed

text \<open>The keys a clean-up empties, and all it may touch.\<close>

definition obsolete_keys :: "resource_set \<Rightarrow> (kind \<times> string) set" where
  "obsolete_keys rs = {(kd, n). kd \<in> managed_kinds \<and> n \<in> listed rs kd}"

definition cleaned_keys :: "resource_set \<Rightarrow> (kind \<times> string) set" where
  "cleaned_keys rs = obsolete_keys rs \<union>
     (\<Union>n \<in> listed rs DeploymentKind. {(SecretKind, api_key_secret n), (ServiceAccountKind, n)})"

lemma removes_obsolete:
  assumes "kube_laws api objs" and "deletes_work api" and "well_named rs"
  shows "removes objs (cleaned_keys rs) (obsolete_keys rs) (deleteObsoleteResources api rs)"
proof -
  have names: "map (ks_name \<circ> snd) (rs_services rs) = map fst (rs_services rs)"
    "map (ki_name \<circ> snd) (rs_ingresses rs) = map fst (rs_ingresses rs)"
    using assms(3) by (auto simp: well_named_def)
  note d = removes_for [where f = "\<lambda>n. ignored (deleteDeploymentResources api n)", OF removes_deployment [OF assms(1,2)],
      of "map fst (rs_deployments rs)"]
  note v = removes_for [where f = "\<lambda>n. ignored (gone '''' (kdelete api (ServiceKind, n)))",
      OF removes_ignored [OF removes_gone [OF assms(1,2)]], of "map fst (rs_services rs)"]
  note i = removes_for [where f = "\<lambda>n. ignored (gone '''' (kdelete api (IngressKind, n)))",
      OF removes_ignored [OF removes_gone [OF assms(1,2)]], of "map fst (rs_ingresses rs)"]
  have K: "(\<Union>n \<in> set (map fst (rs_deployments rs)).
        {(DeploymentKind, n), (SecretKind, api_key_secret n), (ServiceAccountKind, n)}) \<union>
      ((\<Union>n \<in> set (map fst (rs_services rs)). {(ServiceKind, n)}) \<union>
       (\<Union>n \<in> set (map fst (rs_ingresses rs)). {(IngressKind, n)})) = cleaned_keys rs"
    unfolding set_map listed.simps [symmetric] cleaned_keys_def
    by (auto simp: obsolete_keys_def managed_kinds_def simp del: listed.simps)
  have R: "(\<Union>n \<in> set (map fst (rs_deployments rs)). {(DeploymentKind, n)}) \<union>
      ((\<Union>n \<in> set (map fst (rs_services rs)). {(ServiceKind, n)}) \<union>
       (\<Union>n \<in> set (map fst (rs_ingresses rs)). {(IngressKind, n)})) = obsolete_keys rs"
    unfolding set_map listed.simps [symmetric]
    by (auto simp: obsolete_keys_def managed_kinds_def simp del: listed.simps)
  from removes_seq [OF d removes_seq [OF v i]]
  show ?thesis unfolding deleteObsoleteResources_def names K R .
qed

lemma cleaned_not_wanted:
  assumes "k \<in> set_keys p" and "p \<in> set ps"
  shows "k \<notin> cleaned_keys (fold without ps rs)"
proof -
  obtain kd n where k: "k = (kd, n)" by fastforce
  let ?rs = "fold without ps rs"
  have own: "dp_name p \<notin> listed ?rs DeploymentKind"
    using assms(2) by (simp only: fold_without) simp
  have "n \<in> wanted ps kd" if "kd \<in> managed_kinds"
    using set_keys_wanted [OF _ that] assms k wanted_iff by blast
  then have "k \<notin> obsolete_keys ?rs" by (auto simp: k obsolete_keys_def fold_without)
  moreover have "k \<noteq> (SecretKind, api_key_secret m) \<and> k \<noteq> (ServiceAccountKind, m)"
    if "m \<in> listed ?rs DeploymentKind" for m
  proof -
    have "m \<noteq> dp_name p" using that own by blast
    with assms(1) show ?thesis unfolding k set_keys_def own_keys_def by (auto split: if_splits)
  qed
  ultimately show ?thesis unfolding cleaned_keys_def by blast
qed

lemma update_set_matches:
  assumes "kube_laws api objs" and "deletes_work api" and "apart ps"
    and "UpdateDeploymentSet api ps s = (Inr (), s')"
  shows "matches_set api (objs s') ps"
proof -
  obtain ex s1 lf s2 where c: "listExistingResources api s = (Inr ex, s1)"
      "processDeploymentSet api ex ps ex s1 = (Inr lf, s2)" "deleteObsoleteResources api lf s2 = (Inr (), s')"
    using assms(4) by (auto simp: UpdateDeploymentSet_def kbind_success)
  note ex = list_existing [OF assms(1) c(1)]
  then have wn: "well_named ex" and s1: "s1 = s" by simp_all
  have listed: "listed ex kd = {n. managed (objs s) kd n}" if "kd \<in> managed_kinds" for kd
    using ex that by (auto simp: managed_kinds_def)
  note pr = processed [OF assms(1) wn assms(3) c(2)]
  then have lf: "lf = fold without ps ex" by simp
  note rem = removes_obsolete [OF assms(1,2) well_named_fold [OF wn, of ps], folded lf]
  have s': "snd (deleteObsoleteResources api lf s2) = s'" using c(3) by simp
  note gone_at = removesD(2) [OF rem, of _ s2, unfolded s'] and kept_at = removesD(3) [OF rem, of _ s2, unfolded s']
  have holds: "holds_all api (objs s') p" if "p \<in> set ps" for p
  proof (rule holds_kept)
    show "holds_all api (objs s2) p" using pr that by blast
    show "objs s' k = objs s2 k" if "k \<in> set_keys p" for k
      using cleaned_not_wanted [OF that \<open>p \<in> set ps\<close>, of ex, folded lf] by (rule kept_at)
  qed
  have "managed (objs s') kd n \<longleftrightarrow> n \<in> wanted ps kd" if kd: "kd \<in> managed_kinds" for kd n
  proof (cases "n \<in> wanted ps kd")
    case True
    with holds holds_managed wanted_iff show ?thesis by metis
  next
    case False
    have "\<not> managed (objs s') kd n"
    proof (cases "managed (objs s) kd n")
      case True
      with False kd have "(kd, n) \<in> obsolete_keys lf"
        by (simp add: obsolete_keys_def lf fold_without listed)
      with gone_at show ?thesis by (simp add: managed_def)
    next
      case unmanaged: False
      with kd have "(kd, n) \<notin> cleaned_keys lf"
        by (auto simp: cleaned_keys_def obsolete_keys_def lf fold_without listed managed_kinds_def)
      then have "objs s' (kd, n) = objs s2 (kd, n)" by (rule kept_at)
      also have "\<dots> = objs s (kd, n)"
        using pr False set_keys_wanted [OF _ kd] wanted_iff unfolding s1 by blast
      finally show ?thesis using unmanaged by (simp add: managed_def)
    qed
    with False show ?thesis by simp
  qed
  with holds show ?thesis by (simp add: matches_set_def)
qed

subsection \<open>Watching jobs\<close>

definition seen_succeeded :: "'s kube_api \<Rightarrow> 's \<Rightarrow> string \<Rightarrow> bool" where
  "seen_succeeded api s n \<longleftrightarrow> (\<exists>j. get_job api n s = Inr j \<and> 0 < kj_succeeded j)"

lemma check_job_jobs:
  "set (w_jobs (check_job api s n w)) \<subseteq> set (w_jobs w)"
  "w_failures w \<noteq> [] \<Longrightarrow> w_failures (check_job api s n w) \<noteq> []"
  "m \<in> set (w_jobs w) \<Longrightarrow> m \<notin> set (w_jobs (check_job api s n w)) \<Longrightarrow>
     m = n \<and> (seen_succeeded api s m \<or> w_failures (check_job api s n w) \<noteq> [])"
  by (auto simp: check_job_def seen_succeeded_def Let_def split: sum.splits if_splits)

lemma fold_check_jobs:
  "set (w_jobs (fold (check_job api s) ns w)) \<subseteq> set (w_jobs w)"
  "w_failures w \<noteq> [] \<Longrightarrow> w_failures (fold (check_job api s) ns w) \<noteq> []"
  "m \<in> set (w_jobs w) \<Longrightarrow> m \<notin> set (w_jobs (fold (check_job api s) ns w)) \<Longrightarrow>
     seen_succeeded api s m \<or> w_failures (fold (check_job api s) ns w) \<noteq> []"
proof (induction ns arbitrary: w)
  case (Cons n ns)
  {
    case 1
    show ?case using Cons.IH(1) [of "check_job api s n w"] check_job_jobs(1) [of api s n w] by auto
  next
    case 2
    then show ?case using Cons.IH(2) [of "check_job api s n w"] check_job_jobs(2) [of w api s n] by simp
  next
    case 3
    then show ?case
      using Cons.IH(2,3) [of "check_job api s n w"] check_job_jobs(3) [of m w api s n]
      by (cases "m \<in> set (w_jobs (check_job api s n w))") auto
  }
qed simp_all

lemma watch_keeps_failures:
  "w_failures w \<noteq> [] \<Longrightarrow> watch_jobs api ticks w s = (Some w', s') \<Longrightarrow> w_failures w' \<noteq> []"
proof (induction ticks arbitrary: w s)
  case 0
  then show ?case by (subst (asm) watch_jobs.simps) (auto split: if_splits)
next
  case (Suc n)
  show ?case
  proof (cases "w_jobs w = []")
    case True
    with Suc.prems show ?thesis by (subst (asm) watch_jobs.simps) simp
  next
    case False
    let ?w1 = "fold (check_job api (kwait api s)) (w_jobs w) w"
    have "watch_jobs api n ?w1 (kwait api s) = (Some w', s')"
      using Suc.prems(2) False by (subst (asm) watch_jobs.simps) (simp add: Let_def)
    from Suc.IH [OF fold_check_jobs(2) [OF Suc.prems(1)] this] show ?thesis .
  qed
qed

lemma watched_all_succeeded:
  assumes "watch_jobs api ticks w s = (Some w', s')" and "w_failures w' = []" and "m \<in> set (w_jobs w)"
  shows "\<exists>i \<le> ticks. seen_succeeded api ((kwait api ^^ i) s) m"
  using assms
proof (induction ticks arbitrary: w s)
  case 0
  then show ?case by (subst (asm) watch_jobs.simps) (auto split: if_splits)
next
  case (Suc n)
  let ?s1 = "kwait api s" and ?w1 = "fold (check_job api (kwait api s)) (w_jobs w) w"
  have ne: "w_jobs w \<noteq> []" using Suc.prems(3) by auto
  have rest: "watch_jobs api n ?w1 ?s1 = (Some w', s')"
    using Suc.prems(1) ne by (subst (asm) watch_jobs.simps) (simp add: Let_def)
  show ?case
  proof (cases "m \<in> set (w_jobs ?w1)")
    case True
    from Suc.IH [OF rest Suc.prems(2) True] obtain i where "i \<le> n" "seen_succeeded api ((kwait api ^^ i) ?s1) m"
      by blast
    then show ?thesis by (intro exI [of _ "Suc i"]) (simp add: funpow_swap1)
  next
    case False
    have "w_failures ?w1 = []" using watch_keeps_failures [OF _ rest] Suc.prems(2) by blast
    then have "seen_succeeded api ?s1 m"
      using fold_check_jobs(3) [of m w api ?s1 "w_jobs w"] Suc.prems(3) False by blast
    then show ?thesis by (intro exI [of _ 1]) simp
  qed
qed

lemma created_job_names:
  "create_jobs api ms s = (Inr js, s') \<Longrightarrow> js = map job_name ms"
  by (induction ms arbitrary: s js)
     (auto simp: kbind_success createMigrationJob_def split: option.splits)

subsection \<open>Concrete data\<close>

text \<open>A server that keeps a list of objects.\<close>

definition find_object :: "kobject list \<Rightarrow> kind \<times> string \<Rightarrow> kobject option" where
  "find_object s k = find (\<lambda>x. key_of x = k) s"

definition list_server :: "kobject list kube_api" where
  "list_server =
     \<lparr>kget = (\<lambda>k s. case find_object s k of None \<Rightarrow> Inl IsNotFound | Some x \<Rightarrow> Inr x),
      kcreate = (\<lambda>x s. if find_object s (key_of x) = None then (None, x # s) else (Some (KErr ''already exists''), s)),
      kupdate = (\<lambda>x s. if find_object s (key_of x) = None then (Some IsNotFound, s) else (None, x # s)),
      kdelete = (\<lambda>k s. if find_object s k = None then (Some IsNotFound, s) else (None, filter (\<lambda>x. key_of x \<noteq> k) s)),
      klist = (\<lambda>kd l s. Inr (filter (\<lambda>x. fst (key_of x) = kd \<and> find_object s (key_of x) = Some x \<and>
         (case l of None \<Rightarrow> True | Some q \<Rightarrow> has_label q x)) s)),
      kpods = (\<lambda>_ _. Inr []), kpodlogs = (\<lambda>_ _. Inr ''''), kmetrics = (\<lambda>_ _. Inr []),
      kquantity = Some, kclock = (\<lambda>_. 0),
      kwait = map (\<lambda>x. case x of KJob j \<Rightarrow> KJob (j\<lparr>kj_succeeded := 1\<rparr>) | _ \<Rightarrow> x)\<rparr>"

lemma find_object_Cons: "find_object (x # s) = (find_object s)(key_of x \<mapsto> x)"
  by (auto simp: find_object_def fun_eq_iff)

lemma find_object_filter: "find_object (filter (\<lambda>x. key_of x \<noteq> k) s) = (find_object s)(k := None)"
  by (induction s) (auto simp: find_object_def fun_eq_iff)

lemma find_object_key: "find_object s k = Some x \<Longrightarrow> x \<in> set s \<and> key_of x = k"
  unfolding find_object_def by (drule find_SomeD) simp

lemma list_server_laws: "kube_laws list_server find_object"
  unfolding kube_laws_def
  by (auto simp: list_server_def find_object_Cons find_object_filter dest: find_object_key
      split: option.splits if_splits) (metis find_object_key fst_conv prod.collapse)+

lemma list_server_deletes: "deletes_work list_server"
  by (simp add: deletes_work_def list_server_def)

definition web_params :: deployment_params where
  "web_params = \<lparr>dp_name = ''maos-web'', dp_replicas = 2, dp_labels = [(''app'', ''web'')], dp_image = ''web:2'',
     dp_image_pull_secrets = '''', dp_launch_command = [''run''], dp_env = [(''PASS'', ''[[SECRET]]db:pw'')],
     dp_api_key = ''ma-1'', dp_memory_request = ''1Gi'', dp_memory_limit = ''2Gi'', dp_cpu_request = '''',
     dp_cpu_limit = '''', dp_has_service = True, dp_service_name = '''', dp_service_ports = [8080],
     dp_has_ingress = True, dp_ingress_host = ''web.example'', dp_body_limit = ''1m''\<rparr>"

text \<open>A cluster with one obsolete deployment and its service.\<close>

definition old_params :: deployment_params where
  "old_params = web_params\<lparr>dp_name := ''maos-old'', dp_has_ingress := False\<rparr>"

definition old_cluster :: "kobject list" where
  "old_cluster = [KDeployment (createDeploymentStruct list_server old_params ''maos-old'' 0),
     KService (createServiceStruct (labelled old_params))]"

lemma sample_update: "fst (UpdateDeploymentSet list_server [web_params] old_cluster) = Inr ()"
  by code_simp

definition sample_migration :: migration_params where
  "sample_migration = \<lparr>mp_serial = 7, mp_name = ''web'', mp_image = ''web:2'', mp_image_pull_secrets = '''',
     mp_env = [], mp_command = [''migrate''], mp_memory_request = ''1Gi'', mp_memory_limit = ''1Gi''\<rparr>"

lemma sample_run: "fst (RunMigrations list_server 3 [sample_migration] []) = Return (JNull, None)"
  by code_simp

subsection \<open>Properties\<close>



text \<open>Migrations are reported as done only when each of them is: if running them gives no error, every
  job was seen with a successful pod at one of the ticks after all jobs had been created.
\<close>
lemma migrations_done_when_all_succeeded:
  assumes "RunMigrations api ticks ms s = (Return (logs, None), s')"
  shows "\<exists>s0. create_jobs api ms s = (Inr (map job_name ms), s0) \<and>
    (\<forall>m \<in> set ms. \<exists>i \<le> ticks. seen_succeeded api ((kwait api ^^ i) s0) (job_name m))"
proof -
  obtain js s0 where js: "create_jobs api ms s = (Inr js, s0)"
    using assms by (auto simp: RunMigrations_def split: prod.splits sum.splits kfail.splits)
  let ?w = "\<lparr>w_jobs = remdups js, w_failures = [], w_last_logs = None\<rparr>"
  obtain w where w: "watch_jobs api ticks ?w s0 = (Some w, s')" "w_failures w = []"
    using assms js by (auto simp: RunMigrations_def split: prod.splits option.splits if_splits)
  have "\<exists>i \<le> ticks. seen_succeeded api ((kwait api ^^ i) s0) (job_name m)" if "m \<in> set ms" for m
    using that created_job_names [OF js] by (intro watched_all_succeeded [OF w]) simp
  with js created_job_names [OF js] show ?thesis by auto
qed

end
