(* ===== verification/Deployment_Admin.thy ===== *)
theory Deployment_Admin
  imports Deployment_Store Actor_Store Kube_Config K8s_Controller
begin

text \<open>
  The request handlers of \<^verbatim>\<open>admin/deployment_manage.go\<close>, and the background run that \<^verbatim>\<open>PublishDeployment\<close>
  starts: migrations, switching over in one transaction, the suite store, fresh API keys and the
  cluster. The Kubernetes controller and the suite store are arguments: functions on a state \<open>'w\<close>
  of the world outside the database.
\<close>

subsection \<open>What is sent to the cluster\<close>

text \<open>
  Each service returns its error, if any; \<^verbatim>\<open>RunMigrations\<close> also the logs, \<open>JNull\<close> for the nil map.
\<close>

record 'w services =
  call_RunMigrations :: "migration_params list \<Rightarrow> 'w \<Rightarrow> (json \<times> string option) \<times> 'w"
  call_UpdateDeploymentSet :: "deployment_params list \<Rightarrow> 'w \<Rightarrow> string option \<times> 'w"
  WriteSuite :: "(string \<times> smap) list \<Rightarrow> 'w \<Rightarrow> string option \<times> 'w"

definition filterNonKubeConfigs :: "smap \<Rightarrow> smap" where
  "filterNonKubeConfigs content = filter (\<lambda>(k, v). \<not> HasPrefix k ''KUBE_'') content"

text \<open>The conversion to \<^verbatim>\<open>int32\<close> keeps the low 32 bits.\<close>

definition int32 :: "int \<Rightarrow> int" where
  "int32 n = signed_take_bit 31 n"

definition getReplicasFromContent :: "smap \<Rightarrow> int" where
  "getReplicasFromContent content =
     (case map_of content ''KUBE_REPLICAS'' of
        None \<Rightarrow> 1
      | Some s \<Rightarrow>
          (case Atoi s of
             None \<Rightarrow> 1
           | Some replicas \<Rightarrow> if replicas < 1 then 1 else int32 replicas))"

fun token_error_text :: "token_error \<Rightarrow> string" where
  "token_error_text UnclosedQuotes = ''unclosed quotes in KUBE_MIGRATE_COMMAND''"

fun migrationParams :: "int \<Rightarrow> (config \<times> actor) list \<Rightarrow> string + migration_params list" where
  "migrationParams did [] = Inr []"
| "migrationParams did ((c, a) # rows) =
     (if \<not> a_migratable a then migrationParams did rows
      else case unmarshal_smap (c_content c) of
        (m, True) \<Rightarrow> Inl ''failed to unmarshal config content''
      | (m, False) \<Rightarrow>
          (let content = nil_as_empty m
           in if get0 content ''KUBE_MIGRATE_DOCKER_IMAGE'' = '''' then Inl ''KUBE_MIGRATE_DOCKER_IMAGE is blank''
              else case TokenizeCommand (get0 content ''KUBE_MIGRATE_COMMAND'') of
                Inl e \<Rightarrow> Inl (''failed to tokenize KUBE_MIGRATE_COMMAND: '' @ token_error_text e)
              | Inr command \<Rightarrow>
                  (case migrationParams did rows of
                     Inl e \<Rightarrow> Inl e
                   | Inr ps \<Rightarrow> Inr (\<lparr>mp_serial = did, mp_name = ''maos-'' @ a_name a,
                       mp_image = get0 content ''KUBE_MIGRATE_DOCKER_IMAGE'',
                       mp_image_pull_secrets = get0 content ''KUBE_MIGRATE_IMAGE_PULL_SECRET'',
                       mp_env = filterNonKubeConfigs content, mp_command = command,
                       mp_memory_request = get0 content ''KUBE_MIGRATE_MEMORY_REQUEST'',
                       mp_memory_limit = get0 content ''KUBE_MIGRATE_MEMORY_LIMIT''\<rparr> # ps))))"

fun parse_ports :: "string list \<Rightarrow> string + int list" where
  "parse_ports [] = Inr []"
| "parse_ports (p # ps) =
     (case ParseInt 32 (TrimSpace p) of
        None \<Rightarrow> Inl ''failed to parse KUBE_SERVICE_PORT''
      | Some port \<Rightarrow> map_sum id (\<lambda>ports. port # ports) (parse_ports ps))"

definition servicePorts :: "smap \<Rightarrow> string \<Rightarrow> string + int list" where
  "servicePorts content role =
     (if has_service role then parse_ports (Split CHR '','' (get0 content ''KUBE_SERVICE_PORT'')) else Inr [])"

text \<open>The body of the loop of \<^verbatim>\<open>updateKubernetesDeployments\<close> for a deployable actor with an image.\<close>

definition deployment_param :: "smap \<Rightarrow> actor \<Rightarrow> (int \<times> string) list \<Rightarrow> string + deployment_params" where
  "deployment_param content a apiTokens =
     (let role = role_text (a_role a)
      in case servicePorts content role of
           Inl e \<Rightarrow> Inl e
         | Inr ports \<Rightarrow>
             (case TokenizeCommand (get0 content ''KUBE_LAUNCH_COMMAND'') of
                Inl e \<Rightarrow> Inl (''failed to tokenize KUBE_LAUNCH_COMMAND: '' @ token_error_text e)
              | Inr command \<Rightarrow> Inr
                  \<lparr>dp_name = ''maos-'' @ a_name a, dp_replicas = getReplicasFromContent content,
                   dp_labels = [(''app'', a_name a)], dp_image = get0 content ''KUBE_DOCKER_IMAGE'',
                   dp_image_pull_secrets = get0 content ''KUBE_IMAGE_PULL_SECRET'',
                   dp_launch_command = command, dp_env = filterNonKubeConfigs content,
                   dp_api_key = from_ptr_or (map_of apiTokens (a_id a)) '''',
                   dp_memory_request = get0 content ''KUBE_MEMORY_REQUEST'',
                   dp_memory_limit = get0 content ''KUBE_MEMORY_LIMIT'',
                   dp_cpu_request = '''', dp_cpu_limit = '''',
                   dp_has_service = has_service role, dp_service_name = get0 content ''KUBE_SERVICE_NAME'',
                   dp_service_ports = ports, dp_has_ingress = (role = ''portal''),
                   dp_ingress_host = get0 content ''KUBE_INGRESS_HOST'',
                   dp_body_limit = get0 content ''KUBE_INGRESS_BODY_LIMIT''\<rparr>))"

fun deploymentSet :: "(config \<times> actor) list \<Rightarrow> (int \<times> string) list \<Rightarrow> string + deployment_params list" where
  "deploymentSet [] apiTokens = Inr []"
| "deploymentSet ((c, a) # rows) apiTokens =
     (case unmarshal_smap (c_content c) of
        (m, True) \<Rightarrow> Inl ''failed to unmarshal config content''
      | (m, False) \<Rightarrow>
          (let content = nil_as_empty m
           in if \<not> a_deployable a \<or> get0 content ''KUBE_DOCKER_IMAGE'' = '''' then deploymentSet rows apiTokens
              else case deployment_param content a apiTokens of
                Inl e \<Rightarrow> Inl e
              | Inr p \<Rightarrow> map_sum id (\<lambda>ps. p # ps) (deploymentSet rows apiTokens)))"

definition updateKubernetesDeployments ::
    "'w services \<Rightarrow> (config \<times> actor) list \<Rightarrow> (int \<times> string) list \<Rightarrow> 'w \<Rightarrow> string option \<times> 'w" where
  "updateKubernetesDeployments svc rows apiTokens w =
     (case deploymentSet rows apiTokens of
        Inl e \<Rightarrow> (Some e, w)
      | Inr ps \<Rightarrow>
          (case call_UpdateDeploymentSet svc ps w of
             (None, w') \<Rightarrow> (None, w')
           | (Some e, w') \<Rightarrow> (Some (''failed to update deployment set: '' @ e), w')))"

subsection \<open>API keys\<close>

definition token_bytes :: nat where
  "token_bytes = 32 * 3 div 4 + 1"

text \<open>\<^verbatim>\<open>GenerateAPIToken\<close> of \<^verbatim>\<open>admin/token_manage.go\<close>; \<open>random\<close> is what \<^verbatim>\<open>rand.Read\<close> gives.\<close>

definition GenerateAPIToken :: "nat list option \<Rightarrow> string outcome" where
  "GenerateAPIToken random =
     (case random of
        None \<Rightarrow> Panic ''failed to generate random bytes''
      | Some bs \<Rightarrow> Return (''ma-'' @ take 32 (raw_url_base64 (take token_bytes bs))))"

definition deployableRoles :: "string list" where
  "deployableRoles = [''agent'', ''service'', ''portal'']"

definition gets_key :: "actor \<Rightarrow> bool" where
  "gets_key a \<longleftrightarrow> a_deployable a \<and> role_text (a_role a) \<in> set deployableRoles"

text \<open>
  \<open>k\<close> counts the keys made so far; it numbers the random draws and the database calls. \<open>wall\<close> is
  \<^verbatim>\<open>time.Now().Unix()\<close>, and a key lives for 60 days.
\<close>

fun rotateActorApiKeys ::
    "faults \<Rightarrow> int \<Rightarrow> int \<Rightarrow> (nat \<Rightarrow> nat list option) \<Rightarrow> nat \<Rightarrow> (config \<times> actor) list \<Rightarrow>
     (int \<times> string) list \<Rightarrow> db \<Rightarrow> (string + (int \<times> string) list) outcome \<times> db" where
  "rotateActorApiKeys flt now wall random k [] apiTokens d = (Return (Inr apiTokens), d)"
| "rotateActorApiKeys flt now wall random k ((c, a) # rows) apiTokens d =
     (if \<not> gets_key a then rotateActorApiKeys flt now wall random k rows apiTokens d
      else case GenerateAPIToken (random k) of
        Panic e \<Rightarrow> (Panic e, d)
      | Return tok \<Rightarrow>
          (case run_query flt k (ApiTokenRotate now tok (a_id a) (wall + 60 * 24 * 3600) ''maos-core'') d of
             (Inl e, d1) \<Rightarrow>
               (Return (Inl (''failed to rotate API key for actor '' @ a_name a @ '': '' @ err_text e)), d1)
           | (Inr _, d1) \<Rightarrow>
               rotateActorApiKeys flt now wall random (Suc k) rows (AList.update (a_id a) tok apiTokens) d1))"

subsection \<open>The background run\<close>

text \<open>
  \<open>no_row_text\<close> etc.: the first read reports a missing row with a text of its own. Database calls
  are numbered: 0 and 1 the reads, 2 the logs, 3 to 8 the transaction from \<^verbatim>\<open>Begin\<close> to \<^verbatim>\<open>Commit\<close>, 9 the
  final error, from 10 on the key rotations.
\<close>

definition runDeploymentMigrations ::
    "'w services \<Rightarrow> faults \<Rightarrow> (db \<Rightarrow> db) \<Rightarrow> int \<Rightarrow> (config \<times> actor) list \<Rightarrow> 'w \<times> db \<Rightarrow>
     string option \<times> 'w \<times> db" where
  "runDeploymentMigrations svc flt others did rows = (\<lambda>(w, d).
     case migrationParams did rows of
       Inl e \<Rightarrow> (Some e, w, d)
     | Inr ps \<Rightarrow>
         (case call_RunMigrations svc ps w of
            ((migrationLogs, err), w1) \<Rightarrow>
              (case marshal migrationLogs of
                 None \<Rightarrow> (err, w1, others d)
               | Some logs \<Rightarrow>
                   (err, w1, snd (run_query flt 2 (UpdateDeploymentMigrationLogs logs did) (others d))))))"

fun publishingConfigs :: "(config \<times> actor) list \<Rightarrow> (string \<times> smap) list option" where
  "publishingConfigs [] = Some []"
| "publishingConfigs ((c, a) # rows) =
     (case unmarshal_smap (c_content c) of
        (m, True) \<Rightarrow> None
      | (m, False) \<Rightarrow>
          map_option (\<lambda>ps. if a_configurable a then (a_name a, nil_as_empty m) # ps else ps)
            (publishingConfigs rows))"

definition publishConfigSuiteToS3 ::
    "'w services \<Rightarrow> faults \<Rightarrow> int \<Rightarrow> 'w \<times> db \<Rightarrow> string option \<times> 'w" where
  "publishConfigSuiteToS3 svc flt sid = (\<lambda>(w, d).
     case fst (run_query flt 7 (ConfigListBySuiteIdGroupByActor sid) d) of
       Inl e \<Rightarrow> (Some (err_text e), w)
     | Inr rows \<Rightarrow>
         (case publishingConfigs rows of
            None \<Rightarrow> (Some ''cannot unmarshal config'', w)
          | Some ps \<Rightarrow> WriteSuite svc ps w))"

text \<open>
  The transaction that follows the migrations, from \<^verbatim>\<open>Begin\<close> on: a returned error or a panic rolls
  the database back, not the outside world. \<open>rows\<close> are the configs read before the migrations.
\<close>

definition switch_over ::
    "'w services \<Rightarrow> faults \<Rightarrow> int \<Rightarrow> int \<Rightarrow> (nat \<Rightarrow> nat list option) \<Rightarrow> (config \<times> actor) list \<Rightarrow>
     int \<Rightarrow> string \<Rightarrow> 'w \<times> db \<Rightarrow> string option outcome \<times> 'w \<times> db" where
  "switch_over svc flt now wall random rows did user = (\<lambda>(w, d).
     if flt 3 \<noteq> None then
       (Return (Some (''Cannot publish deployment. Cannot start transaction: '' @ the (flt 3))), w, d)
     else case fst (run_query flt 4 (DeploymentGetById did) d) of
       Inl e \<Rightarrow> (Return (Some (''Cannot get deployment: '' @ err_text e)), w, d)
     | Inr x \<Rightarrow>
         if d_status x \<noteq> DeploymentStatusDeploying then
           (Return (Some ''deployment must be in deploying status to be deployed''), w, d)
         else case d_config_suite_id x of
           None \<Rightarrow> (Return (Some ''Cannot publish deployment. Deployment has no config suite''), w, d)
         | Some sid \<Rightarrow>
             (case run_query flt 5 (ConfigSuiteActivate now user sid) d of
                (Inl e, _) \<Rightarrow> (Return (Some (''Cannot activate config suite: '' @ err_text e)), w, d)
              | (Inr suiteId, d1) \<Rightarrow>
                  (case run_query flt 6 (DeploymentPublish now user did) d1 of
                     (Inl e, _) \<Rightarrow> (Return (Some (''Cannot publish deployment: '' @ err_text e)), w, d)
                   | (Inr _, d2) \<Rightarrow>
                       (case publishConfigSuiteToS3 svc flt suiteId (w, d2) of
                          (Some e, w1) \<Rightarrow> (Return (Some (''Cannot publish config suite to S3: '' @ e)), w1, d)
                        | (None, w1) \<Rightarrow>
                            (case rotateActorApiKeys (\<lambda>k. flt (10 + k)) now wall random 0 rows [] d2 of
                               (Panic e, _) \<Rightarrow> (Panic e, w1, d)
                             | (Return (Inl e), _) \<Rightarrow>
                                 (Return (Some (''Cannot rotate actor api keys: '' @ e)), w1, d)
                             | (Return (Inr apiTokens), d3) \<Rightarrow>
                                 (case updateKubernetesDeployments svc rows apiTokens w1 of
                                    (Some e, w2) \<Rightarrow>
                                      (Return (Some (''Cannot update kubernetes deployments: '' @ e)), w2, d)
                                  | (None, w2) \<Rightarrow>
                                      (case flt 8 of
                                         Some e \<Rightarrow> (Return (Some e), w2, d)
                                       | None \<Rightarrow> (Return None, w2, d3))))))))"

text \<open>
  \<open>others\<close> is what the rest of the server does to the database while the migrations run. The suite
  of the deployment is dereferenced before it is checked.
\<close>

definition doRunDeploymentMigrationsAndUpdateDeployment ::
    "'w services \<Rightarrow> faults \<Rightarrow> (db \<Rightarrow> db) \<Rightarrow> int \<Rightarrow> int \<Rightarrow> (nat \<Rightarrow> nat list option) \<Rightarrow> int \<Rightarrow> string \<Rightarrow>
     'w \<times> db \<Rightarrow> string option outcome \<times> 'w \<times> db" where
  "doRunDeploymentMigrationsAndUpdateDeployment svc flt others now wall random did user = (\<lambda>(w, d).
     case fst (run_query flt 0 (DeploymentGetById did) d) of
       Inl ErrNoRows \<Rightarrow> (Return (Some notFoundText), w, d)
     | Inl e \<Rightarrow> (Return (Some (''Cannot get deployment: '' @ err_text e)), w, d)
     | Inr x \<Rightarrow>
         (case d_config_suite_id x of
            None \<Rightarrow> (nil_panic, w, d)
          | Some sid \<Rightarrow>
              (case fst (run_query flt 1 (ConfigListBySuiteIdGroupByActor sid) d) of
                 Inl e \<Rightarrow> (Return (Some (''Cannot get configs: '' @ err_text e)), w, d)
               | Inr rows \<Rightarrow>
                   (case runDeploymentMigrations svc flt others did rows (w, d) of
                      (Some e, w1, d1) \<Rightarrow>
                        (Return (Some (''Cannot run deployment migrations: '' @ e)), w1, d1)
                    | (None, w1, d1) \<Rightarrow> switch_over svc flt now wall random rows did user (w1, d1)))))"

definition runDeploymentMigrationsAndUpdateDeployment ::
    "'w services \<Rightarrow> faults \<Rightarrow> (db \<Rightarrow> db) \<Rightarrow> int \<Rightarrow> int \<Rightarrow> (nat \<Rightarrow> nat list option) \<Rightarrow> int \<Rightarrow> string \<Rightarrow>
     'w \<times> db \<Rightarrow> unit outcome \<times> 'w \<times> db" where
  "runDeploymentMigrationsAndUpdateDeployment svc flt others now wall random did user st =
     (case doRunDeploymentMigrationsAndUpdateDeployment svc flt others now wall random did user st of
        (Panic e, w, d) \<Rightarrow> (Panic e, w, d)
      | (Return None, w, d) \<Rightarrow> (Return (), w, d)
      | (Return (Some e), w, d) \<Rightarrow>
          (Return (), w, snd (run_query flt 9 (UpdateDeploymentLastError e did) d)))"

subsection \<open>Request handlers\<close>

text \<open>
  Where the answer is an \<^verbatim>\<open>api.Deployment\<close> built field by field from a row, \<open>Success\<close> carries the row.
\<close>

record config_view =
  cv_id :: int
  cv_actor_id :: int
  cv_actor_name :: string
  cv_min_actor_version :: "string option"
  cv_created_at :: int
  cv_created_by :: string
  cv_content :: smap

record deployment_detail =
  dd_id :: int
  dd_name :: string
  dd_status :: DeploymentStatus
  dd_reviewers :: "string list"
  dd_notes :: "json option"
  dd_created_by :: string
  dd_created_at :: int
  dd_approved_by :: "string option"
  dd_approved_at :: "int option"
  dd_finished_by :: "string option"
  dd_finished_at :: "int option"
  dd_configs :: "config_view list option"

definition detail_of :: "deployment \<Rightarrow> config_view list option \<Rightarrow> deployment_detail" where
  "detail_of x cs =
     \<lparr>dd_id = d_id x, dd_name = d_name x, dd_status = d_status x, dd_reviewers = d_reviewers x,
      dd_notes = deserializeNotes (d_notes x), dd_created_by = d_created_by x, dd_created_at = d_created_at x,
      dd_approved_by = d_approved_by x, dd_approved_at = d_approved_at x, dd_finished_by = d_finished_by x,
      dd_finished_at = d_finished_at x, dd_configs = cs\<rparr>"

text \<open>
  One config of the answer: what \<^verbatim>\<open>json.Unmarshal\<close> leaves, its error only logged, and for a
  deployable actor the missing Kubernetes settings, which are written into the map. The answer's
  JSON shows a nil map like an empty one.
\<close>

definition result_config :: "config \<times> actor \<Rightarrow> config_view outcome" where
  "result_config = (\<lambda>(c, a).
     (let m = fst (unmarshal_smap (c_content c));
          view = (\<lambda>content. \<lparr>cv_id = c_id c, cv_actor_id = c_actor_id c, cv_actor_name = a_name a,
            cv_min_actor_version = SerializeActorVersion (from_ptr_or (c_min_actor_version c) []),
            cv_created_at = c_created_at c, cv_created_by = c_created_by c, cv_content = content\<rparr>)
      in if a_deployable a then
           (case InsertMissingKubeConfigsWithDefault m (role_text (a_role a)) (a_migratable a) of
              Panic e \<Rightarrow> Panic e
            | Return content \<Rightarrow> Return (view content))
         else Return (view (nil_as_empty m))))"

definition GetDeployment :: "faults \<Rightarrow> int \<Rightarrow> db \<Rightarrow> deployment_detail reply outcome" where
  "GetDeployment flt did d =
     (case fst (run_query flt 0 (DeploymentGetById did) d) of
        Inl ErrNoRows \<Rightarrow> Return NotFound
      | Inl e \<Rightarrow> Return (ServerError (''Cannot get deployment: '' @ err_text e))
      | Inr x \<Rightarrow>
          (case d_config_suite_id x of
             None \<Rightarrow> Return (Success (detail_of x None))
           | Some sid \<Rightarrow>
               (case fst (run_query flt 1 (ConfigListBySuiteIdGroupByActor sid) d) of
                  Inl e \<Rightarrow> Return (ServerError (''Cannot get configs: '' @ err_text e))
                | Inr rows \<Rightarrow>
                    (case traverse_outcome result_config (filter (\<lambda>(c, a). a_configurable a) rows) of
                       Panic e \<Rightarrow> Panic e
                     | Return cs \<Rightarrow> Return (Success (detail_of x (Some cs)))))))"

text \<open>The logs of a failed run: a map of maps, where anything else leaves a nil map.\<close>

fun decode_log_entry :: "json \<Rightarrow> json" where
  "decode_log_entry (JObj kvs) = JObj kvs"
| "decode_log_entry _ = JNull"

fun decode_logs :: "json option \<Rightarrow> json" where
  "decode_logs (Some (JObj kvs)) = JObj (map (\<lambda>(k, v). (k, decode_log_entry v)) kvs)"
| "decode_logs _ = JNull"

definition GetDeploymentResult ::
    "faults \<Rightarrow> int \<Rightarrow> db \<Rightarrow> (DeploymentStatus \<times> string option \<times> json) reply" where
  "GetDeploymentResult flt did d =
     (case fst (run_query flt 0 (DeploymentGetById did) d) of
        Inl _ \<Rightarrow> NotFound
      | Inr x \<Rightarrow> Success (d_status x, d_last_error x, decode_logs (d_migration_logs x)))"

definition CreateDeployment ::
    "faults \<Rightarrow> int \<Rightarrow> string \<Rightarrow> string \<Rightarrow> string list option \<Rightarrow> int option \<Rightarrow> db \<Rightarrow> deployment reply \<times> db" where
  "CreateDeployment flt now name user reviewers clone_from d =
     (if name = '''' \<or> user = '''' then (BadRequest ''Missing required field'', d)
      else case clone_from of
        Some src \<Rightarrow>
          (case run_query flt 0 (DeploymentCloneFrom now src name None user) d of
             (Inl ErrNoRows, d1) \<Rightarrow> (BadRequest ''Cannot clone from deployment: deployment not found'', d1)
           | (Inl e, d1) \<Rightarrow> (ServerError (''Cannot create deployment: '' @ err_text e), d1)
           | (Inr x, d1) \<Rightarrow> (Success x, d1))
      | None \<Rightarrow>
          (case run_query flt 0 (DeploymentInsertWithConfigSuite now name reviewers user) d of
             (Inl e, d1) \<Rightarrow> (ServerError (''Cannot create deployment: '' @ err_text e), d1)
           | (Inr x, d1) \<Rightarrow> (Success x, d1)))"

definition UpdateDeployment ::
    "faults \<Rightarrow> int \<Rightarrow> string option \<Rightarrow> string list option \<Rightarrow> db \<Rightarrow> deployment reply \<times> db" where
  "UpdateDeployment flt did name reviewers d =
     (case run_query flt 0 (DeploymentUpdate name reviewers did) d of
        (Inl ErrNoRows, d1) \<Rightarrow> (NotFound, d1)
      | (Inl e, d1) \<Rightarrow> (ServerError (''Cannot update deployment: '' @ err_text e), d1)
      | (Inr x, d1) \<Rightarrow> (Success x, d1))"

text \<open>
  Reading, checking and submitting are one transaction (call 0 is \<^verbatim>\<open>Begin\<close>, call 3 \<^verbatim>\<open>Commit\<close>, whose
  error is not looked at: the answer is 200, the row a draft still).
\<close>

definition SubmitDeployment :: "faults \<Rightarrow> int \<Rightarrow> db \<Rightarrow> unit reply \<times> db" where
  "SubmitDeployment flt did d =
     (if flt 0 \<noteq> None then (ServerError (''Cannot start transaction: '' @ the (flt 0)), d)
      else case fst (run_query flt 1 (DeploymentGetById did) d) of
        Inl ErrNoRows \<Rightarrow> (NotFound, d)
      | Inl e \<Rightarrow> (ServerError (''Cannot get deployment: '' @ err_text e), d)
      | Inr x \<Rightarrow>
          if d_status x \<noteq> DeploymentStatusDraft then
            (BadRequest ''Deployment must be in draft status to be submitted'', d)
          else if d_config_suite_id x = None then
            (BadRequest ''Deployment must have a config suite to be submitted'', d)
          else if d_reviewers x = [] then (BadRequest ''Deployment must have at least one reviewer'', d)
          else (case run_query flt 2 (DeploymentSubmitForReview did) d of
             (Inl ErrNoRows, _) \<Rightarrow> (NotFound, d)
           | (Inl e, _) \<Rightarrow> (ServerError (''Cannot submit deployment: '' @ err_text e), d)
           | (Inr _, d1) \<Rightarrow> (Success (), if flt 3 = None then d1 else d)))"

text \<open>
  The log line reads the user before the check for a missing body. The reason is put between
  quotes as it is; \<open>parse\<close> is the server's reading of the notes.
\<close>

definition reject_notes :: "string \<Rightarrow> string" where
  "reject_notes reason = ''{'' @ [CHR 0x22] @ ''reason'' @ [CHR 0x22] @ '': '' @ [CHR 0x22] @ reason @ [CHR 0x22] @ ''}''"

definition RejectDeployment ::
    "faults \<Rightarrow> (string \<Rightarrow> json option) \<Rightarrow> int \<Rightarrow> int \<Rightarrow> (string \<times> string) option \<Rightarrow> db \<Rightarrow>
     unit reply outcome \<times> db" where
  "RejectDeployment flt parse now did body d =
     (case body of
        None \<Rightarrow> (nil_panic, d)
      | Some (user, reason) \<Rightarrow>
          if user = '''' then (Return (BadRequest ''Missing required field''), d)
          else (case run_query flt 0 (DeploymentReject parse now user (reject_notes reason) did) d of
             (Inl ErrNoRows, d1) \<Rightarrow> (Return NotFound, d1)
           | (Inl e, d1) \<Rightarrow> (Return (ServerError (''Cannot reject deployment: '' @ err_text e)), d1)
           | (Inr _, d1) \<Rightarrow> (Return (Success ()), d1)))"

text \<open>The second result: the deployment and user of the background run that is started, if one is.\<close>

definition PublishDeployment ::
    "faults \<Rightarrow> int \<Rightarrow> int \<Rightarrow> string option \<Rightarrow> db \<Rightarrow> unit reply outcome \<times> (int \<times> string) option \<times> db" where
  "PublishDeployment flt now did body d =
     (case body of
        None \<Rightarrow> (nil_panic, None, d)
      | Some user \<Rightarrow>
          if user = '''' then (Return (BadRequest ''Missing required field''), None, d)
          else (case run_query flt 0 (SetDeploymentDeploying now user did) d of
             (Inl e, d1) \<Rightarrow>
               (Return (ServerError (''Cannot publish deployment. Cannot set deployment to deploying: '' @ err_text e)), None, d1)
           | (Inr errMessage, d1) \<Rightarrow>
               if errMessage \<noteq> '''' then
                 (Return (BadRequest (''Cannot publish deployment. Cannot set deployment to deploying: '' @ errMessage)), None, d1)
               else (Return (Success ()), Some (did, user), d1)))"

definition DeleteDeployment :: "faults \<Rightarrow> int \<Rightarrow> db \<Rightarrow> unit reply \<times> db" where
  "DeleteDeployment flt did d =
     (case run_query flt 0 (DeploymentDelete did) d of
        (Inl ErrNoRows, d1) \<Rightarrow> (NotFound, d1)
      | (Inl e, d1) \<Rightarrow> (ServerError (''Cannot delete deployment: '' @ err_text e), d1)
      | (Inr _, d1) \<Rightarrow> (Success (), d1))"

text \<open>Call 0 is \<^verbatim>\<open>Begin\<close>, call 3 \<^verbatim>\<open>Commit\<close> (its error is not looked at), from 10 on the rotations.\<close>

definition RestartDeployment ::
    "'w services \<Rightarrow> faults \<Rightarrow> int \<Rightarrow> int \<Rightarrow> (nat \<Rightarrow> nat list option) \<Rightarrow> int \<Rightarrow> string option \<Rightarrow> 'w \<times> db \<Rightarrow>
     unit reply outcome \<times> 'w \<times> db" where
  "RestartDeployment svc flt now wall random did body = (\<lambda>(w, d).
     case body of
       None \<Rightarrow> (nil_panic, w, d)
     | Some user \<Rightarrow>
         if user = '''' then (Return Unauthorized, w, d)
         else if flt 0 \<noteq> None then
           (Return (ServerError (''Cannot restart deployment. Cannot start transaction: '' @ the (flt 0))), w, d)
         else case fst (run_query flt 1 (DeploymentGetById did) d) of
           Inl ErrNoRows \<Rightarrow> (Return NotFound, w, d)
         | Inl e \<Rightarrow> (Return (ServerError (''Cannot restart deployment. Cannot get deployment: '' @ err_text e)), w, d)
         | Inr x \<Rightarrow>
             if d_status x \<noteq> DeploymentStatusDeployed then (Return NotFound, w, d)
             else case d_config_suite_id x of
               None \<Rightarrow> (Return (ServerError ''Cannot restart deployment. Deployment has no config suite''), w, d)
             | Some sid \<Rightarrow>
                 (case fst (run_query flt 2 (ConfigListBySuiteIdGroupByActor sid) d) of
                    Inl e \<Rightarrow> (Return (ServerError (''Cannot get configs: '' @ err_text e)), w, d)
                  | Inr rows \<Rightarrow>
                      (case rotateActorApiKeys (\<lambda>k. flt (10 + k)) now wall random 0 rows [] d of
                         (Panic e, _) \<Rightarrow> (Panic e, w, d)
                       | (Return (Inl e), _) \<Rightarrow> (Return (ServerError (''Cannot rotate actor api keys: '' @ e)), w, d)
                       | (Return (Inr apiTokens), d1) \<Rightarrow>
                           (case updateKubernetesDeployments svc rows apiTokens w of
                              (Some e, w1) \<Rightarrow>
                                (Return (ServerError (''Cannot update kubernetes deployments: '' @ e)), w1, d)
                            | (None, w1) \<Rightarrow>
                                (Return (Success ()), w1, if flt 3 = None then d1 else d)))))"

lemmas deployment_handlers [handler_simps] =
  GetDeployment_def GetDeploymentResult_def CreateDeployment_def UpdateDeployment_def
  SubmitDeployment_def RejectDeployment_def PublishDeployment_def DeleteDeployment_def
  RestartDeployment_def

subsection \<open>Facts on the run\<close>

lemma switch_over_rollback:
  "switch_over svc flt now wall random rows did user (w, d) = (r, w', d') \<Longrightarrow> r \<noteq> Return None \<Longrightarrow> d' = d"
  unfolding switch_over_def
  by (simp split: if_splits sum.splits option.splits prod.splits outcome.splits)

lemma run_query_InrD: "run_query flt k q d = (Inr r, d') \<Longrightarrow> q d = (Inr r, d')"
  by (simp add: run_query_def split: option.splits)

lemma run_query_fst_InrD: "fst (run_query flt k q d) = Inr r \<Longrightarrow> fst (q d) = Inr r"
  by (simp add: run_query_def split: option.splits)

lemma switch_over_ok:
  assumes "switch_over svc flt now wall random rows did user (w, d) = (Return None, w', d')"
  obtains x sid suiteId d1 y d2 w1 apiTokens where
    "fst (DeploymentGetById did d) = Inr x" "d_status x = DeploymentStatusDeploying"
    "d_config_suite_id x = Some sid" "ConfigSuiteActivate now user sid d = (Inr suiteId, d1)"
    "DeploymentPublish now user did d1 = (Inr y, d2)"
    "publishConfigSuiteToS3 svc flt suiteId (w, d2) = (None, w1)"
    "rotateActorApiKeys (\<lambda>k. flt (10 + k)) now wall random 0 rows [] d2 = (Return (Inr apiTokens), d')"
    "updateKubernetesDeployments svc rows apiTokens w1 = (None, w')"
  using assms unfolding switch_over_def
  by (simp split: if_splits sum.splits option.splits prod.splits outcome.splits)
    (meson run_query_InrD run_query_fst_InrD)

lemma rotate_other_tables:
  assumes "ApiTokenRotate now tid aid expire creator d = (Inr r, d')"
  shows "d' = d\<lparr>api_tokens := api_tokens d'\<rparr>"
  using assms by (auto simp: ApiTokenRotate_def Let_def split: sum.splits prod.splits)

lemma rotations_other_tables:
  "rotateActorApiKeys flt now wall random k rows acc d = (r, d') \<Longrightarrow> d' = d\<lparr>api_tokens := api_tokens d'\<rparr>"
proof (induction flt now wall random k rows acc d rule: rotateActorApiKeys.induct)
  case (2 flt now wall random k c a rows apiTokens d)
  show ?case
  proof (cases "gets_key a")
    case False
    with 2 show ?thesis by simp
  next
    case True
    show ?thesis
    proof (cases "GenerateAPIToken (random k)")
      case (Panic e)
      with 2 True show ?thesis by simp
    next
      case (Return tok)
      obtain q d1 where q: "run_query flt k (ApiTokenRotate now tok (a_id a) (wall + 60 * 24 * 3600) ''maos-core'') d = (q, d1)"
        by (cases "run_query flt k (ApiTokenRotate now tok (a_id a) (wall + 60 * 24 * 3600) ''maos-core'') d")
      have d1: "d1 = d\<lparr>api_tokens := api_tokens d1\<rparr>"
        by (rule run_query_keeps [OF q]) (auto simp: ApiTokenRotate_def Let_def split: sum.splits prod.splits)
      show ?thesis
      proof (cases q)
        case (Inl e)
        with 2 True Return q d1 show ?thesis by auto
      next
        case (Inr t)
        with 2 True Return q have "d' = d1\<lparr>api_tokens := api_tokens d'\<rparr>" by simp
        with d1 show ?thesis by (metis db.update_convs(3) db.surjective)
      qed
    qed
  qed
qed simp

text \<open>
  The state of one actor's tokens after a rotation: the new key lives until \<open>expiry\<close>, every other
  token of the actor ends five minutes after \<open>now\<close>.
\<close>

definition rotated_to :: "int \<Rightarrow> int \<Rightarrow> db \<Rightarrow> int \<Rightarrow> string \<Rightarrow> bool" where
  "rotated_to now expiry d aid tok \<longleftrightarrow>
     (\<exists>t \<in> set (api_tokens d). t_id t = tok \<and> t_actor_id t = aid \<and> t_expire_at t = expiry) \<and>
     (\<forall>t \<in> set (api_tokens d). t_actor_id t = aid \<longrightarrow>
        (if t_id t = tok then t_expire_at t = expiry else t_expire_at t = now + 300))"

lemma rotate_rotated_to:
  assumes "ApiTokenRotate now tok aid expiry creator d = (Inr r, d')"
  shows "rotated_to now expiry d' aid tok"
    and "rotated_to now expiry d b t' \<Longrightarrow> b \<noteq> aid \<Longrightarrow> rotated_to now expiry d' b t'"
    and "rotated_to now' expiry' d b t' \<Longrightarrow> tok \<noteq> t'"
    and "\<And>t. t_actor_id t \<noteq> aid \<Longrightarrow> t \<in> set (api_tokens d') \<longleftrightarrow> t \<in> set (api_tokens d)"
proof -
  obtain a where a: "actor_of d aid = Some a" and fresh: "tok \<notin> t_id ` set (api_tokens d)"
    by (rule rotate_cases [of now tok aid expiry creator d]) (use assms in auto)
  have d': "api_tokens d' = update_where (\<lambda>x. t_actor_id x = aid) (rotated_away now) (api_tokens d) @
      [\<lparr>t_id = tok, t_actor_id = aid, t_expire_at = expiry, t_created_by = creator, t_created_at = now,
        t_permissions = a_permissions a\<rparr>]"
    using assms rotate_result [OF a fresh, of now expiry creator] by auto
  show "rotated_to now expiry d' aid tok"
    using fresh by (auto simp: rotated_to_def d' set_update_where rotated_away_def)
  show other: "\<And>t. t_actor_id t \<noteq> aid \<Longrightarrow> t \<in> set (api_tokens d') \<longleftrightarrow> t \<in> set (api_tokens d)"
    by (auto simp: d' set_update_where rotated_away_def)
  show "rotated_to now expiry d b t' \<Longrightarrow> b \<noteq> aid \<Longrightarrow> rotated_to now expiry d' b t'"
    using other unfolding rotated_to_def by metis
  show "rotated_to now' expiry' d b t' \<Longrightarrow> tok \<noteq> t'"
    using fresh by (auto simp: rotated_to_def)
qed

lemma rotations_rotated_to:
  assumes "rotateActorApiKeys flt now wall random k rows acc d = (Return (Inr toks), d')"
    and "distinct (map (a_id \<circ> snd) rows)" and "fst ` set acc \<inter> (a_id \<circ> snd) ` set rows = {}"
    and "\<And>b t. map_of acc b = Some t \<Longrightarrow> rotated_to now (wall + 5184000) d b t"
  shows "(\<forall>b t. map_of toks b = Some t \<longrightarrow> rotated_to now (wall + 5184000) d' b t) \<and>
    fst ` set toks = fst ` set acc \<union> {a_id a | c a. (c, a) \<in> set rows \<and> gets_key a}"
  using assms
proof (induction flt now wall random k rows acc d rule: rotateActorApiKeys.induct)
  case (2 flt now wall random k c a rows acc d)
  show ?case
  proof (cases "gets_key a")
    case False
    then have "{a_id b | e b. (e, b) \<in> set ((c, a) # rows) \<and> gets_key b} =
        {a_id b | e b. (e, b) \<in> set rows \<and> gets_key b}" by auto
    with 2 False show ?thesis by simp
  next
    case True
    with 2(3) obtain tok where tok: "GenerateAPIToken (random k) = Return tok"
      by (cases "GenerateAPIToken (random k)") auto
    with 2(3) True obtain r d1 where q: "run_query flt k (ApiTokenRotate now tok (a_id a)
        (wall + 60 * 24 * 3600) ''maos-core'') d = (Inr r, d1)"
      and rest: "rotateActorApiKeys flt now wall random (Suc k) rows (AList.update (a_id a) tok acc) d1 =
        (Return (Inr toks), d')"
      by (simp split: prod.splits sum.splits)
    have step: "ApiTokenRotate now tok (a_id a) (wall + 5184000) ''maos-core'' d = (Inr r, d1)"
      using run_query_InrD [OF q] by simp
    have disj: "a_id a \<notin> fst ` set acc" "a_id a \<notin> (a_id \<circ> snd) ` set rows"
      using 2(4,5) by auto
    have keys: "fst ` set (AList.update (a_id a) tok acc) = insert (a_id a) (fst ` set acc)"
      using AList.dom_update [of "a_id a" tok acc] by simp
    have "\<And>b t. map_of (AList.update (a_id a) tok acc) b = Some t \<Longrightarrow> rotated_to now (wall + 5184000) d1 b t"
      using rotate_rotated_to(1,2) [OF step] 2(6)
      by (auto simp: update_conv split: if_splits)
    moreover have "fst ` set (AList.update (a_id a) tok acc) \<inter> (a_id \<circ> snd) ` set rows = {}"
      using keys disj 2(5) by auto
    moreover have "distinct (map (a_id \<circ> snd) rows)" using 2(4) by (simp add: comp_def)
    ultimately have "(\<forall>b t. map_of toks b = Some t \<longrightarrow> rotated_to now (wall + 5184000) d' b t) \<and>
        fst ` set toks = fst ` set (AList.update (a_id a) tok acc) \<union> {a_id a | c a. (c, a) \<in> set rows \<and> gets_key a}"
      using 2(2) [OF _ tok q [symmetric] refl rest] True by blast
    with keys True show ?thesis by auto
  qed
qed simp

lemma listed_rows:
  assumes "fst (ConfigListBySuiteIdGroupByActor sid d) = Inr rows"
  shows "distinct (map (a_id \<circ> snd) rows)"
    and "\<And>c a. (c, a) \<in> set rows \<Longrightarrow> c \<in> set (configs d) \<and> a \<in> set (actors d) \<and>
      c_actor_id c = a_id a \<and> c_config_suite_id c = Some sid"
proof -
  let ?rows = "filter (\<lambda>c. c_config_suite_id c = Some sid) (configs d)"
  let ?f = "\<lambda>aid. Option.bind (newest (filter (\<lambda>c. c_actor_id c = aid) ?rows)) (with_actor d)"
  have f: "c \<in> set ?rows \<and> c_actor_id c = aid \<and> a \<in> set (actors d) \<and> a_id a = aid"
    if bound: "?f aid = Some (c, a)" for aid c a
  proof -
    obtain b where b: "newest (filter (\<lambda>c. c_actor_id c = aid) ?rows) = Some b" "with_actor d b = Some (c, a)"
      using bound unfolding bind_eq_Some_conv by blast
    then have "b = c" "actor_of d (c_actor_id c) = Some a" by (auto simp: with_actor_def)
    with newest_in [OF b(1)] find_SomeD [of "\<lambda>a. a_id a = c_actor_id c" "actors d" a] show ?thesis
      by (simp add: actor_of_def)
  qed
  have rows: "rows = List.map_filter ?f (sort (remdups (map c_actor_id ?rows)))"
    using assms by (simp add: ConfigListBySuiteIdGroupByActor_def Let_def)
  have ids: "set (List.map_filter ?f xs) \<subseteq> {(c, a). ?f (a_id a) = Some (c, a) \<and> a_id a \<in> set xs}" for xs
  proof (induction xs)
    case (Cons x xs)
    have "a_id (snd r) = x" if "?f x = Some r" for r
      using f [of x "fst r" "snd r"] that by simp
    with Cons show ?case by (auto split: option.split)
  qed simp
  have "distinct xs \<Longrightarrow> distinct (map (a_id \<circ> snd) (List.map_filter ?f xs))" for xs
  proof (induction xs)
    case (Cons x xs)
    show ?case
    proof (cases "?f x")
      case None
      with Cons show ?thesis by simp
    next
      case (Some ca)
      then have "a_id (snd ca) = x" using f [of x "fst ca" "snd ca"] by simp
      moreover have "\<And>r. r \<in> set (List.map_filter ?f xs) \<Longrightarrow> a_id (snd r) \<in> set xs"
        using ids [of xs] by auto
      ultimately have "a_id (snd ca) \<notin> (a_id \<circ> snd) ` set (List.map_filter ?f xs)"
        using Cons.prems by auto
      with Cons Some show ?thesis by simp
    qed
  qed simp
  then show "distinct (map (a_id \<circ> snd) rows)" by (simp add: rows)
  fix c a assume "(c, a) \<in> set rows"
  then have "?f (a_id a) = Some (c, a)" using ids rows by auto
  with f [OF this] show "c \<in> set (configs d) \<and> a \<in> set (actors d) \<and>
      c_actor_id c = a_id a \<and> c_config_suite_id c = Some sid" by auto
qed

lemma deploymentSet_keys:
  assumes "deploymentSet rows toks = Inr ps" and "p \<in> set ps"
  shows "\<exists>a \<in> snd ` set rows. a_deployable a \<and> dp_name p = ''maos-'' @ a_name a \<and>
    dp_api_key p = from_ptr_or (map_of toks (a_id a)) []"
  using assms
proof (induction rows arbitrary: ps)
  case (Cons r rows)
  obtain c a where r: "r = (c, a)" by (cases r)
  obtain m bad where m0: "unmarshal_smap (c_content c) = (m, bad)"
    by (cases "unmarshal_smap (c_content c)")
  with Cons.prems(1) r have m: "unmarshal_smap (c_content c) = (m, False)" by (cases bad) simp_all
  show ?case
  proof (cases "\<not> a_deployable a \<or> get0 (nil_as_empty m) ''KUBE_DOCKER_IMAGE'' = ''''")
    case True
    with Cons.prems(1) r m have "deploymentSet rows toks = Inr ps" by auto
    from Cons.IH [OF this Cons.prems(2)] show ?thesis by auto
  next
    case False
    with Cons.prems(1) r m obtain q qs where q: "deployment_param (nil_as_empty m) a toks = Inr q"
        "deploymentSet rows toks = Inr qs" "ps = q # qs"
      by (cases "deployment_param (nil_as_empty m) a toks"; cases "deploymentSet rows toks") auto
    have "dp_name q = ''maos-'' @ a_name a \<and> dp_api_key q = from_ptr_or (map_of toks (a_id a)) []"
      using q(1) by (auto simp: deployment_param_def Let_def split: sum.splits)
    then show ?thesis
      using q Cons.IH [OF q(2)] Cons.prems(2) False r by auto
  qed
qed simp

text \<open>What a successful transaction leaves, over a well formed database.\<close>

lemma switch_over_effect:
  assumes inv: "deployments_inv d" and rows: "fst (ConfigListBySuiteIdGroupByActor sid' d0) = Inr rows"
    and ok: "switch_over svc flt now wall random rows did user (w, d) = (Return None, w', e)"
  shows "\<exists>x sid s. x \<in> set (deployments d) \<and> d_id x = did \<and> d_config_suite_id x = Some sid \<and>
      with_status DeploymentStatusDeployed (deployments e) = [deployed now x] \<and>
      deployments e = map (publish_row now user did) (deployments d) \<and>
      filter s_active (config_suites e) = [s] \<and> s_id s = sid \<and>
      configs e = configs d \<and> actors e = actors d"
    and "\<exists>toks ps w1. deploymentSet rows toks = Inr ps \<and> call_UpdateDeploymentSet svc ps w1 = (None, w') \<and>
      (\<forall>p \<in> set ps. \<exists>a \<in> snd ` set rows. dp_name p = ''maos-'' @ a_name a \<and>
        (if gets_key a then rotated_to now (wall + 5184000) e (a_id a) (dp_api_key p) else dp_api_key p = []))"
proof -
  obtain x sid suiteId d1 y d2 w1 toks where
    x: "fst (DeploymentGetById did d) = Inr x" "d_status x = DeploymentStatusDeploying"
      "d_config_suite_id x = Some sid"
    and act: "ConfigSuiteActivate now user sid d = (Inr suiteId, d1)"
    and pub: "DeploymentPublish now user did d1 = (Inr y, d2)"
    and rot: "rotateActorApiKeys (\<lambda>k. flt (10 + k)) now wall random 0 rows [] d2 = (Return (Inr toks), e)"
    and upd: "updateKubernetesDeployments svc rows toks w1 = (None, w')"
    using switch_over_ok [OF ok] by metis
  have e: "e = d2\<lparr>api_tokens := api_tokens e\<rparr>"
    by (rule rotations_other_tables [OF rot])
  have x_in: "x \<in> set (deployments d)" "d_id x = did"
    using x(1) by (auto simp: DeploymentGetById_def one_row_def filter_eq_Cons_iff split: list.splits)
  have d1: "d1 = d\<lparr>config_suites := map (activate_row now user sid) (config_suites d)\<rparr>"
    using act by (simp add: ConfigSuiteActivate_def)
  have inv1: "deployments_inv d1"
    using deploy_step_inv [OF deploy_step.activate inv, of now user sid] act by simp
  have d2: "d2 = d1\<lparr>deployments := map (publish_row now user did) (deployments d)\<rparr>"
    using publish_result [OF inv1, of now user did] pub d1 by simp
  have "with_status DeploymentStatusDeployed (map (publish_row now user did) xs) =
      map (deployed now) (filter (is_deploying did) xs)" for xs
    by (induction xs) (auto simp: publish_row_def retired_def deployed_def is_deploying_def)
  then have dep: "with_status DeploymentStatusDeployed (deployments d2) = [deployed now x]"
    using filter_deploying [OF inv x_in(1) x(2)] x_in(2) d2 by simp
  have "length (filter (\<lambda>s. s_id s = sid) (config_suites d)) = 1"
  proof -
    have "sid \<in> s_id ` set (config_suites d)" "distinct (map s_id (config_suites d))"
      using inv x_in(1) x(3) by (auto simp: deployments_inv_def configs_inv_def)
    then obtain s where "s \<in> set (config_suites d)" "s_id s = sid" by blast
    then show ?thesis
      using filter_key_unique [of s_id "config_suites d" s] \<open>distinct (map s_id (config_suites d))\<close> by simp
  qed
  then obtain s0 where "filter (\<lambda>s. s_id s = sid) (config_suites d) = [s0]"
    by (auto simp: length_Suc_conv)
  then have act_suite: "filter s_active (config_suites d1) = [activate_row now user sid s0]" "s_id s0 = sid"
    by (auto simp: d1 filter_map comp_def filter_eq_Cons_iff)
  have "configs e = configs d" "actors e = actors d" "config_suites e = config_suites d1"
      "deployments e = map (publish_row now user did) (deployments d)"
    by (subst e, simp add: d2 d1)+
  with x_in x(3) dep act_suite d2 show "\<exists>x sid s. x \<in> set (deployments d) \<and> d_id x = did \<and>
      d_config_suite_id x = Some sid \<and> with_status DeploymentStatusDeployed (deployments e) = [deployed now x] \<and>
      deployments e = map (publish_row now user did) (deployments d) \<and>
      filter s_active (config_suites e) = [s] \<and> s_id s = sid \<and> configs e = configs d \<and> actors e = actors d"
    by (intro exI [of _ x] exI [of _ sid] exI [of _ "activate_row now user sid s0"]) simp
  have keys: "\<And>b t. map_of toks b = Some t \<Longrightarrow> rotated_to now (wall + 5184000) e b t"
      "fst ` set toks = {a_id a | c a. (c, a) \<in> set rows \<and> gets_key a}"
    using rotations_rotated_to [OF rot listed_rows(1) [OF rows]] by auto
  obtain ps where ps: "deploymentSet rows toks = Inr ps" "call_UpdateDeploymentSet svc ps w1 = (None, w')"
    using upd by (auto simp: updateKubernetesDeployments_def split: sum.splits prod.splits option.splits)
  have "\<exists>a \<in> snd ` set rows. dp_name p = ''maos-'' @ a_name a \<and>
      (if gets_key a then rotated_to now (wall + 5184000) e (a_id a) (dp_api_key p) else dp_api_key p = [])"
    if p: "p \<in> set ps" for p
  proof -
    obtain a where a: "a \<in> snd ` set rows" "dp_name p = ''maos-'' @ a_name a"
        "dp_api_key p = from_ptr_or (map_of toks (a_id a)) []"
      using deploymentSet_keys [OF ps(1) p] by blast
    show ?thesis
    proof (cases "gets_key a")
      case True
      then have "a_id a \<in> fst ` set toks" unfolding keys(2) using a(1) by force
      then obtain t where "map_of toks (a_id a) = Some t" by (metis map_of_eq_None_iff option.exhaust)
      with a True keys(1) show ?thesis by auto
    next
      case False
      have "a_id a \<notin> fst ` set toks"
      proof
        assume "a_id a \<in> fst ` set toks"
        then obtain c b where b: "(c, b) \<in> set rows" "gets_key b" "a_id b = a_id a"
          using keys(2) by auto
        obtain c' where a': "(c', a) \<in> set rows" using a(1) by auto
        have "(c, b) = (c', a)"
          by (rule distinct_key_unique [OF listed_rows(1) [OF rows] b(1) a']) (simp add: b(3))
        with b False show False by simp
      qed
      with a False show ?thesis by (auto simp: map_of_eq_None_iff [symmetric])
    qed
  qed
  with ps show "\<exists>toks ps w1. deploymentSet rows toks = Inr ps \<and> call_UpdateDeploymentSet svc ps w1 = (None, w') \<and>
      (\<forall>p \<in> set ps. \<exists>a \<in> snd ` set rows. dp_name p = ''maos-'' @ a_name a \<and>
        (if gets_key a then rotated_to now (wall + 5184000) e (a_id a) (dp_api_key p) else dp_api_key p = []))"
    by blast
qed

lemma last_error_result:
  assumes "deployments_inv d"
  shows "UpdateDeploymentLastError msg did d = (Inr (), d\<lparr>deployments :=
    update_where (\<lambda>x. d_id x = did) (\<lambda>x. x\<lparr>d_last_error := Some msg, d_status := DeploymentStatusFailed\<rparr>)
      (deployments d)\<rparr>)"
proof -
  let ?rows = "update_where (\<lambda>x. d_id x = did)
    (\<lambda>x. x\<lparr>d_last_error := Some msg, d_status := DeploymentStatusFailed\<rparr>) (deployments d)"
  have "map d_name ?rows = map d_name (deployments d)" by (rule map_update_where) simp
  moreover have "length (with_status st ?rows) \<le> 1"
    if "st \<noteq> DeploymentStatusFailed" "length (with_status st (deployments d)) \<le> 1" for st
    using that unfolding with_status_def by (intro filter_at_most_one_update) simp_all
  ultimately have "deployment_indexes ?rows"
    using assms by (simp add: deployments_inv_def deployment_indexes_def)
  then show ?thesis by (simp add: UpdateDeploymentLastError_def put_deployments_def)
qed

text \<open>The logs are written or not, and nothing else of the database changes before the transaction.\<close>

lemma migrations_db:
  assumes "runDeploymentMigrations svc flt others did rows (w, d) = (r, w1, d1)"
  shows "d1 = d \<and> r \<noteq> None \<or> d1 = others d \<or>
    (\<exists>logs. d1 = snd (UpdateDeploymentMigrationLogs logs did (others d)))"
  using assms
  by (auto simp: runDeploymentMigrations_def run_query_def split: sum.splits prod.splits option.splits)

lemma logs_tables [simp]:
  "config_suites (snd (UpdateDeploymentMigrationLogs l did d)) = config_suites d"
  "configs (snd (UpdateDeploymentMigrationLogs l did d)) = configs d"
  "actors (snd (UpdateDeploymentMigrationLogs l did d)) = actors d"
  "api_tokens (snd (UpdateDeploymentMigrationLogs l did d)) = api_tokens d"
  "map d_id (deployments (snd (UpdateDeploymentMigrationLogs l did d))) = map d_id (deployments d)"
  by (simp_all add: UpdateDeploymentMigrationLogs_def map_update_where)

lemma logs_rows:
  "y \<in> set (deployments (snd (UpdateDeploymentMigrationLogs l did d))) \<Longrightarrow>
     d_id y \<noteq> did \<Longrightarrow> y \<in> set (deployments d)"
  by (auto simp: UpdateDeploymentMigrationLogs_def set_update_where)

lemma doRun_ok:
  assumes "doRunDeploymentMigrationsAndUpdateDeployment svc flt others now wall random did user (w, d) =
      (Return None, w', e)"
  obtains sid rows w1 d1 where "fst (ConfigListBySuiteIdGroupByActor sid d) = Inr rows"
    "runDeploymentMigrations svc flt others did rows (w, d) = (None, w1, d1)"
    "switch_over svc flt now wall random rows did user (w1, d1) = (Return None, w', e)"
proof -
  obtain x where x: "fst (run_query flt 0 (DeploymentGetById did) d) = Inr x"
    using assms by (simp add: doRunDeploymentMigrationsAndUpdateDeployment_def nil_panic_def
        split: sum.splits pgerr.splits)
  obtain sid where sid: "d_config_suite_id x = Some sid"
    using assms x by (cases "d_config_suite_id x")
      (simp_all add: doRunDeploymentMigrationsAndUpdateDeployment_def nil_panic_def)
  obtain rows where rows: "fst (run_query flt 1 (ConfigListBySuiteIdGroupByActor sid) d) = Inr rows"
    using assms x sid by (cases "fst (run_query flt 1 (ConfigListBySuiteIdGroupByActor sid) d)")
      (simp_all add: doRunDeploymentMigrationsAndUpdateDeployment_def)
  obtain r w1 d1 where m: "runDeploymentMigrations svc flt others did rows (w, d) = (r, w1, d1)"
    by (cases "runDeploymentMigrations svc flt others did rows (w, d)")
  then have "r = None" "switch_over svc flt now wall random rows did user (w1, d1) = (Return None, w', e)"
    using assms x sid rows by (cases r; simp add: doRunDeploymentMigrationsAndUpdateDeployment_def)+
  with m that run_query_fst_InrD [OF rows] show ?thesis by blast
qed

text \<open>On failure the database is one that was reached before the transaction.\<close>

lemma doRun_failed_db:
  assumes "doRunDeploymentMigrationsAndUpdateDeployment svc flt others now wall random did user (w, d) =
      (r, w', e)" and "r \<noteq> Return None"
  shows "e = d \<or> e = others d \<or> (\<exists>logs. e = snd (UpdateDeploymentMigrationLogs logs did (others d)))"
proof -
  have m: "d1 = d \<or> d1 = others d \<or> (\<exists>logs. d1 = snd (UpdateDeploymentMigrationLogs logs did (others d)))"
    if "runDeploymentMigrations svc flt others did rows (w, d) = (q, w1, d1)" for rows q w1 d1
    using migrations_db [OF that] by blast
  show ?thesis
    using assms
    unfolding doRunDeploymentMigrationsAndUpdateDeployment_def
    by (auto split: sum.splits pgerr.splits option.splits prod.splits dest!: switch_over_rollback m)
qed

lemma failed_rows:
  assumes "deployments_inv d" and "y \<in> set (deployments (snd (UpdateDeploymentLastError msg did d)))"
  shows "if d_id y = did then d_status y = DeploymentStatusFailed \<and> d_last_error y = Some msg
    else y \<in> set (deployments d)"
  using assms(2) by (auto simp: last_error_result [OF assms(1)] set_update_where)

lemma publish_run_failed_db:
  assumes inv: "deployments_inv d" "deployments_inv (others d)" and fault: "flt 9 = None"
    and failed: "doRunDeploymentMigrationsAndUpdateDeployment svc flt others now wall random did user (w, d) =
      (Return (Some msg), w', d1)"
  shows "\<exists>base e. base \<in> {d, others d} \<and>
    runDeploymentMigrationsAndUpdateDeployment svc flt others now wall random did user (w, d) = (Return (), w', e) \<and>
    config_suites e = config_suites base \<and> configs e = configs base \<and> actors e = actors base \<and>
    api_tokens e = api_tokens base \<and> map d_id (deployments e) = map d_id (deployments base) \<and>
    (\<forall>y \<in> set (deployments e). if d_id y = did
       then d_status y = DeploymentStatusFailed \<and> d_last_error y = Some msg
       else y \<in> set (deployments base))"
proof -
  let ?e = "snd (UpdateDeploymentLastError msg did d1)"
  obtain base where base: "base \<in> {d, others d}" "deployments_inv d1" "config_suites d1 = config_suites base"
      "configs d1 = configs base" "actors d1 = actors base" "api_tokens d1 = api_tokens base"
      "map d_id (deployments d1) = map d_id (deployments base)"
      "\<And>y. y \<in> set (deployments d1) \<Longrightarrow> d_id y \<noteq> did \<Longrightarrow> y \<in> set (deployments base)"
  proof -
    have "d1 = d \<or> d1 = others d \<or> (\<exists>logs. d1 = snd (UpdateDeploymentMigrationLogs logs did (others d)))"
      using doRun_failed_db [OF failed] by simp
    then show thesis
    proof (elim disjE exE)
      assume "d1 = d" with inv that [of d] show thesis by simp
    next
      assume "d1 = others d" with inv that [of "others d"] show thesis by simp
    next
      fix logs assume "d1 = snd (UpdateDeploymentMigrationLogs logs did (others d))"
      with inv that [of "others d"] logs_inv logs_rows show thesis by simp
    qed
  qed
  note e = last_error_result [OF base(2), of msg did]
  have "runDeploymentMigrationsAndUpdateDeployment svc flt others now wall random did user (w, d) = (Return (), w', ?e)"
    using failed fault by (simp add: runDeploymentMigrationsAndUpdateDeployment_def)
  moreover have "map d_id (deployments ?e) = map d_id (deployments d1)"
    by (simp add: e map_update_where)
  moreover have "\<forall>y \<in> set (deployments ?e). if d_id y = did
       then d_status y = DeploymentStatusFailed \<and> d_last_error y = Some msg
       else y \<in> set (deployments base)"
    using failed_rows [OF base(2)] base(8) by (metis (full_types))
  moreover have "config_suites ?e = config_suites d1" "configs ?e = configs d1" "actors ?e = actors d1"
      "api_tokens ?e = api_tokens d1"
    by (simp_all add: e)
  ultimately show ?thesis using base by (intro exI [of _ base] exI [of _ ?e]) simp
qed

lemma publish_run_ok_db:
  assumes inv: "deployments_inv (others d)"
    and ok: "doRunDeploymentMigrationsAndUpdateDeployment svc flt others now wall random did user (w, d) =
      (Return None, w', e)"
  shows "\<exists>x s. with_status DeploymentStatusDeployed (deployments e) = [x] \<and>
    with_status DeploymentStatusDeploying (deployments e) = [] \<and> d_id x = did \<and>
    filter s_active (config_suites e) = [s] \<and> d_config_suite_id x = Some (s_id s) \<and>
    configs e = configs (others d) \<and>
    (\<exists>sid rows toks ps w1. fst (ConfigListBySuiteIdGroupByActor sid d) = Inr rows \<and>
      deploymentSet rows toks = Inr ps \<and> call_UpdateDeploymentSet svc ps w1 = (None, w') \<and>
      (\<forall>p \<in> set ps. \<exists>a \<in> set (actors d). dp_name p = ''maos-'' @ a_name a \<and>
        (if gets_key a then rotated_to now (wall + 5184000) e (a_id a) (dp_api_key p) else dp_api_key p = [])))"
proof -
  obtain sid rows w1 d1 where rows: "fst (ConfigListBySuiteIdGroupByActor sid d) = Inr rows"
    and m: "runDeploymentMigrations svc flt others did rows (w, d) = (None, w1, d1)"
    and so: "switch_over svc flt now wall random rows did user (w1, d1) = (Return None, w', e)"
    by (rule doRun_ok [OF ok])
  have inv1: "deployments_inv d1" and same: "configs d1 = configs (others d)"
    using migrations_db [OF m] inv logs_inv by auto
  note eff = switch_over_effect [OF inv1 rows so]
  obtain x sid' s where x: "x \<in> set (deployments d1)" "d_id x = did" "d_config_suite_id x = Some sid'"
    and dep: "with_status DeploymentStatusDeployed (deployments e) = [deployed now x]"
    and rows_e: "deployments e = map (publish_row now user did) (deployments d1)"
    and s: "filter s_active (config_suites e) = [s]" "s_id s = sid'" and cfg: "configs e = configs d1"
    using eff(1) by blast
  have x_deploying: "d_status x = DeploymentStatusDeploying"
  proof -
    obtain x0 where "fst (DeploymentGetById did d1) = Inr x0" "d_status x0 = DeploymentStatusDeploying"
      using switch_over_ok [OF so] by metis
    moreover from this have "x0 \<in> set (deployments d1)" "d_id x0 = did"
      by (auto simp: DeploymentGetById_def one_row_def filter_eq_Cons_iff split: list.splits)
    ultimately show ?thesis
      using x inv1 by (metis deployments_inv_def distinct_key_unique)
  qed
  have "z = x" if "z \<in> set (deployments d1)" "d_status z = DeploymentStatusDeploying" for z
  proof -
    have "length (with_status DeploymentStatusDeploying (deployments d1)) \<le> 1"
      using inv1 by (simp add: deployments_inv_def deployment_indexes_def)
    moreover have "x \<in> set (with_status DeploymentStatusDeploying (deployments d1))"
        "z \<in> set (with_status DeploymentStatusDeploying (deployments d1))"
      using x x_deploying that by (simp_all add: with_status_def)
    ultimately show ?thesis
      by (cases "with_status DeploymentStatusDeploying (deployments d1)") auto
  qed
  then have "with_status DeploymentStatusDeploying (deployments e) = []"
    using x(2) by (auto simp: with_status_empty rows_e publish_row_status is_deploying_def split: if_splits)
  moreover have "\<exists>sid rows toks ps w1. fst (ConfigListBySuiteIdGroupByActor sid d) = Inr rows \<and>
      deploymentSet rows toks = Inr ps \<and> call_UpdateDeploymentSet svc ps w1 = (None, w') \<and>
      (\<forall>p \<in> set ps. \<exists>a \<in> set (actors d). dp_name p = ''maos-'' @ a_name a \<and>
        (if gets_key a then rotated_to now (wall + 5184000) e (a_id a) (dp_api_key p) else dp_api_key p = []))"
  proof -
    have "snd ` set rows \<subseteq> set (actors d)" using listed_rows(2) [OF rows] by auto
    with eff(2) rows show ?thesis by (meson subsetD)
  qed
  ultimately show ?thesis
    using x s dep cfg same by (intro exI [of _ "deployed now x"] exI [of _ s]) (simp add: deployed_def)
qed

subsection \<open>Accepted settings and what is made of them\<close>

lemma ParseInt_narrow:
  assumes "ParseInt 64 s = Some p" and "1 \<le> p" and "p \<le> 65535"
  shows "ParseInt 32 s = Some p"
  using assms by (auto simp: ParseInt_def Let_def split: list.splits option.splits if_splits)

lemma parse_ports_ok:
  "\<forall>p \<in> set ps. port_ok p \<Longrightarrow> \<exists>ports. parse_ports ps = Inr ports \<and> list_all (\<lambda>n. 1 \<le> n \<and> n \<le> 65535) ports"
proof (induction ps)
  case (Cons p ps)
  then obtain ports n where "parse_ports ps = Inr ports" "list_all (\<lambda>n. 1 \<le> n \<and> n \<le> 65535) ports"
      "ParseInt 64 (TrimSpace p) = Some n" "1 \<le> n" "n \<le> 65535"
    by (auto simp: port_ok_def split: option.splits)
  moreover from this have "ParseInt 32 (TrimSpace p) = Some n" by (intro ParseInt_narrow)
  ultimately show ?case by simp
qed simp

lemma TrimSpace_Nil [simp]: "TrimSpace [] = []"
  by (simp add: TrimSpace_def trim_by.simps)

lemma missing_port:
  "has_service role \<Longrightarrow> get0 content ''KUBE_SERVICE_PORT'' = '''' \<Longrightarrow>
     servicePorts content role = Inl ''failed to parse KUBE_SERVICE_PORT''"
  by (simp add: servicePorts_def ParseInt_def)

lemma accepted_config:
  assumes ok: "ValidateKubeConfig content role migratable = None" and "content \<noteq> []"
  shows "get0 content ''KUBE_DOCKER_IMAGE'' \<noteq> '''' \<and>
    (case map_of content ''KUBE_REPLICAS'' of
       None \<Rightarrow> getReplicasFromContent content = 1
     | Some v \<Rightarrow> \<exists>n \<ge> 1. Atoi v = Some n \<and> getReplicasFromContent content = int32 n) \<and>
    (if role = ''portal'' \<and> map_of content ''KUBE_SERVICE_PORT'' = None
     then servicePorts content role = Inl ''failed to parse KUBE_SERVICE_PORT''
     else \<exists>ports. servicePorts content role = Inr ports \<and> list_all (\<lambda>n. 1 \<le> n \<and> n \<le> 65535) ports)"
proof -
  have entries: "check_entry role k v = None" if "map_of content k = Some v" for k v
    using ok assms(2) map_of_SomeD [OF that] by (auto simp: ValidateKubeConfig_ok)
  have required: "get0 content k \<noteq> ''''" if "k \<in> set (requiredConfigs role migratable)" for k
    using ok assms(2) that by (simp add: ValidateKubeConfig_ok)
  have img: "get0 content ''KUBE_DOCKER_IMAGE'' \<noteq> ''''"
    by (rule required) (simp add: requiredConfigs_def)
  have replicas: "case map_of content ''KUBE_REPLICAS'' of
       None \<Rightarrow> getReplicasFromContent content = 1
     | Some v \<Rightarrow> \<exists>n \<ge> 1. Atoi v = Some n \<and> getReplicasFromContent content = int32 n"
  proof (cases "map_of content ''KUBE_REPLICAS''")
    case (Some v)
    then obtain n where "Atoi v = Some n" "1 \<le> n"
      using entries [OF Some] by (auto simp: check_entry_replicas)
    with Some show ?thesis by (auto simp: getReplicasFromContent_def)
  qed (simp add: getReplicasFromContent_def)
  have "if role = ''portal'' \<and> map_of content ''KUBE_SERVICE_PORT'' = None
     then servicePorts content role = Inl ''failed to parse KUBE_SERVICE_PORT''
     else \<exists>ports. servicePorts content role = Inr ports \<and> list_all (\<lambda>n. 1 \<le> n \<and> n \<le> 65535) ports"
  proof (cases "has_service role")
    case False
    then show ?thesis by (auto simp: servicePorts_def has_service_def)
  next
    case True
    show ?thesis
    proof (cases "map_of content ''KUBE_SERVICE_PORT''")
      case None
      then have "get0 content ''KUBE_SERVICE_PORT'' = ''''" by (simp add: get0_def)
      moreover from this have "role = ''portal''"
        using True required [of "''KUBE_SERVICE_PORT''"] by (auto simp: has_service_def requiredConfigs_def)
      ultimately show ?thesis using None True by (simp add: missing_port)
    next
      case (Some v)
      then have "\<forall>p \<in> set (Split CHR '','' v). port_ok p"
        using entries [OF Some] check_entry_port [OF True] by simp
      with parse_ports_ok [OF this] Some True show ?thesis
        by (auto simp: servicePorts_def get0_def)
    qed
  qed
  with img replicas show ?thesis by blast
qed

subsection \<open>A sample run\<close>

text \<open>The draft of \<open>deploy_db\<close> started by bob, and services that always succeed.\<close>

definition quiet_services :: "unit services" where
  "quiet_services = \<lparr>call_RunMigrations = (\<lambda>_ w. ((JNull, None), w)), call_UpdateDeploymentSet = (\<lambda>_ w. (None, w)),
     WriteSuite = (\<lambda>_ w. (None, w))\<rparr>"

definition broken_store :: "unit services" where
  "broken_store = quiet_services\<lparr>WriteSuite := (\<lambda>_ w. (Some ''no bucket'', w))\<rparr>"

definition started_db :: db where
  "started_db = deploy_db\<lparr>deployments := [sample_live, set_deploying 50 ''bob'' sample_draft]\<rparr>"

lemma started_db_inv: "deployments_inv started_db"
  using set_deploying_inv [OF deploy_db_inv, of 50 "''bob''" 2] by (simp add: deploy_db_starts started_db_def)

lemma started_reads:
  "DeploymentGetById 2 started_db = (Inr (set_deploying 50 ''bob'' sample_draft), started_db)"
  "d_config_suite_id (set_deploying 50 ''bob'' sample_draft) = Some 2"
  "d_status (set_deploying 50 ''bob'' sample_draft) = DeploymentStatusDeploying"
  "fst (ConfigListBySuiteIdGroupByActor 2 started_db) =
     Inr [(new_config 40 2 1 (Some 2) (smap_json [(''MODEL'', ''large'')]) None ''ops'', sample_actor)]"
  by (simp_all add: DeploymentGetById_def started_db_def set_deploying_def sample_draft_def new_deployment_def
      ConfigListBySuiteIdGroupByActor_def sample_configs_def new_config_def newest_def with_actor_def
      actor_of_def sample_actor_def Let_def)

definition started_logs_db :: db where
  "started_logs_db = snd (UpdateDeploymentMigrationLogs JNull 2 started_db)"

lemma started_migrations:
  assumes "\<And>ms. call_RunMigrations svc ms w = ((JNull, None), w)"
  shows "runDeploymentMigrations svc no_faults id 2
     [(new_config 40 2 1 (Some 2) (smap_json [(''MODEL'', ''large'')]) None ''ops'', sample_actor)] (w, started_db) =
   (None, w, started_logs_db)"
  by (auto simp: runDeploymentMigrations_def assms marshal_def started_logs_db_def sample_actor_def)

lemma started_logs_tables [simp]:
  "deployments started_logs_db =
     [sample_live, (set_deploying 50 ''bob'' sample_draft)\<lparr>d_migration_logs := Some JNull\<rparr>]"
  "config_suites started_logs_db = sample_suites" "configs started_logs_db = sample_configs"
  "actors started_logs_db = [sample_actor]" "api_tokens started_logs_db = api_tokens sample_db"
  by (simp_all add: started_logs_db_def UpdateDeploymentMigrationLogs_def started_db_def set_deploying_def deploy_db_def sample_db_def)

lemma started_logs_inv: "deployments_inv started_logs_db"
  unfolding started_logs_db_def by (rule logs_inv [OF started_db_inv])

definition switched_db :: db where
  "switched_db = started_logs_db\<lparr>
     config_suites := map (activate_row 60 ''bob'' 2) sample_suites,
     deployments := [retired 60 ''bob'' sample_live,
       deployed 60 ((set_deploying 50 ''bob'' sample_draft)\<lparr>d_migration_logs := Some JNull\<rparr>)]\<rparr>"

lemma started_switch:
  "ConfigSuiteActivate 60 ''bob'' 2 started_logs_db =
     (Inr 2, started_logs_db\<lparr>config_suites := map (activate_row 60 ''bob'' 2) sample_suites\<rparr>)"
  "DeploymentPublish 60 ''bob'' 2
     (started_logs_db\<lparr>config_suites := map (activate_row 60 ''bob'' 2) sample_suites\<rparr>) =
   (Inr (deployed 60 ((set_deploying 50 ''bob'' sample_draft)\<lparr>d_migration_logs := Some JNull\<rparr>)), switched_db)"
proof -
  show act: "ConfigSuiteActivate 60 ''bob'' 2 started_logs_db =
     (Inr 2, started_logs_db\<lparr>config_suites := map (activate_row 60 ''bob'' 2) sample_suites\<rparr>)"
    by (simp add: ConfigSuiteActivate_def sample_suites_def new_suite_def activate_suite_def)
  have "deployments_inv (started_logs_db\<lparr>config_suites := map (activate_row 60 ''bob'' 2) sample_suites\<rparr>)"
    using deploy_step_inv [OF deploy_step.activate started_logs_inv, of 60 "''bob''" 2] act by simp
  from publish_result [OF this, of 60 "''bob''" 2]
  show "DeploymentPublish 60 ''bob'' 2
     (started_logs_db\<lparr>config_suites := map (activate_row 60 ''bob'' 2) sample_suites\<rparr>) =
   (Inr (deployed 60 ((set_deploying 50 ''bob'' sample_draft)\<lparr>d_migration_logs := Some JNull\<rparr>)), switched_db)"
    by (simp add: is_deploying_def publish_row_def switched_db_def)
      (simp add: set_deploying_def sample_draft_def new_deployment_def)
qed

definition sample_random :: "nat \<Rightarrow> nat list option" where
  "sample_random k = Some [k]"

lemma sample_token: "GenerateAPIToken (sample_random 0) = Return ''ma-AA''"
  by code_simp

lemma switched_list:
  "fst (ConfigListBySuiteIdGroupByActor 2 switched_db) =
     Inr [(new_config 40 2 1 (Some 2) (smap_json [(''MODEL'', ''large'')]) None ''ops'', sample_actor)]"
  by (simp add: switched_db_def ConfigListBySuiteIdGroupByActor_def sample_configs_def new_config_def newest_def
      with_actor_def actor_of_def sample_actor_def Let_def)

lemma sample_gets_key: "gets_key sample_actor"
  by (simp add: gets_key_def sample_actor_def deployableRoles_def)

lemma sample_rotation:
  "rotateActorApiKeys (\<lambda>k. None) 60 61 sample_random 0
     [(new_config 40 2 1 (Some 2) (smap_json [(''MODEL'', ''large'')]) None ''ops'', sample_actor)] [] switched_db =
   (Return (Inr [(1, ''ma-AA'')]), snd (ApiTokenRotate 60 ''ma-AA'' 1 5184061 ''maos-core'' switched_db))"
proof -
  obtain e where "ApiTokenRotate 60 ''ma-AA'' 1 5184061 ''maos-core'' switched_db = (Inr ''ma-AA'', e)"
    by (simp add: ApiTokenRotate_def add_token_def switched_db_def actor_of_def sample_actor_def sample_db_def Let_def)
  moreover have "a_id sample_actor = 1" by (simp add: sample_actor_def)
  ultimately show ?thesis by (simp add: sample_gets_key sample_token)
qed

lemma service_simps [simp]:
  "WriteSuite quiet_services ps w = (None, w)" "call_UpdateDeploymentSet quiet_services qs w = (None, w)"
  "WriteSuite broken_store ps w = (Some ''no bucket'', w)"
  "call_RunMigrations quiet_services ms w = ((JNull, None), w)"
  "call_RunMigrations broken_store ms w = ((JNull, None), w)"
  by (simp_all add: quiet_services_def broken_store_def)

lemma started_logs_get:
  "DeploymentGetById 2 started_logs_db =
     (Inr ((set_deploying 50 ''bob'' sample_draft)\<lparr>d_migration_logs := Some JNull\<rparr>), started_logs_db)"
  by (simp add: DeploymentGetById_def) (simp add: set_deploying_def)

lemma started_to_switch:
  assumes "\<And>ms. call_RunMigrations svc ms w = ((JNull, None), w)"
  shows "doRunDeploymentMigrationsAndUpdateDeployment svc no_faults id 60 61 sample_random 2 ''bob'' (w, started_db) =
    switch_over svc no_faults 60 61 sample_random
     [(new_config 40 2 1 (Some 2) (smap_json [(''MODEL'', ''large'')]) None ''ops'', sample_actor)] 2 ''bob''
     (w, started_logs_db)"
  by (simp add: doRunDeploymentMigrationsAndUpdateDeployment_def started_reads started_migrations [OF assms])

lemma sample_publishing:
  "publishingConfigs [(new_config 40 2 1 (Some 2) (smap_json [(''MODEL'', ''large'')]) None ''ops'', sample_actor)] =
     Some [(''bot'', [(''MODEL'', ''large'')])]"
  by (simp add: new_config_def sample_actor_def nil_as_empty_def)

lemma sample_deployment_set:
  "deploymentSet [(new_config 40 2 1 (Some 2) (smap_json [(''MODEL'', ''large'')]) None ''ops'', sample_actor)] toks =
     Inr []"
  by (simp add: new_config_def nil_as_empty_def get0_def)

lemma started_run_with:
  assumes "\<And>ms. call_RunMigrations svc ms w = ((JNull, None), w)" and "\<And>ps. WriteSuite svc ps w = (None, w)"
    and "call_UpdateDeploymentSet svc [] w = (None, w')"
  shows "\<exists>e. doRunDeploymentMigrationsAndUpdateDeployment svc no_faults id 60 61 sample_random 2 ''bob''
     (w, started_db) = (Return None, w', e)"
  by (simp add: started_to_switch [OF assms(1)] assms(2,3) switch_over_def started_switch switched_list publishConfigSuiteToS3_def
      started_logs_get started_reads sample_rotation sample_publishing updateKubernetesDeployments_def
      sample_deployment_set del: deploymentSet.simps publishingConfigs.simps rotateActorApiKeys.simps)

lemma started_run:
  "\<exists>e. doRunDeploymentMigrationsAndUpdateDeployment quiet_services no_faults id 60 61 sample_random 2 ''bob''
     ((), started_db) = (Return None, (), e)"
  by (rule started_run_with) simp_all

lemma started_broken_run:
  "doRunDeploymentMigrationsAndUpdateDeployment broken_store no_faults id 60 61 sample_random 2 ''bob''
     ((), started_db) = (Return (Some ''Cannot publish config suite to S3: no bucket''), (), started_logs_db)"
  by (simp add: started_to_switch switch_over_def started_switch switched_list publishConfigSuiteToS3_def
      started_logs_get started_reads sample_publishing
      del: deploymentSet.simps publishingConfigs.simps rotateActorApiKeys.simps)

subsection \<open>Properties\<close>





text \<open>C37.
  What the validation of Kubernetes settings buys the publishing that reads them: for an accepted,
  non-empty content there is an image, the replicas are the validated number (cut to 32 bits) or 1,
  and the service ports parse, all between 1 and 65535. The exception is a portal without the key
  \<^verbatim>\<open>KUBE_SERVICE_PORT\<close>: it is accepted, and publishing it fails.
\<close>
theorem validated_config_deploys:
  assumes "ValidateKubeConfig content role migratable = None" and "content \<noteq> []"
  shows "get0 content ''KUBE_DOCKER_IMAGE'' \<noteq> '''' \<and>
    (case map_of content ''KUBE_REPLICAS'' of
       None \<Rightarrow> getReplicasFromContent content = 1
     | Some v \<Rightarrow> \<exists>n \<ge> 1. Atoi v = Some n \<and> getReplicasFromContent content = int32 n) \<and>
    (if role = ''portal'' \<and> map_of content ''KUBE_SERVICE_PORT'' = None
     then servicePorts content role = Inl ''failed to parse KUBE_SERVICE_PORT''
     else \<exists>ports. servicePorts content role = Inr ports \<and> list_all (\<lambda>n. 1 \<le> n \<and> n \<le> 65535) ports)"
  using assms by (rule accepted_config)

definition portal_content :: smap where
  "portal_content = [(''KUBE_DOCKER_IMAGE'', ''web''), (''KUBE_MEMORY_REQUEST'', ''1Mi''), (''KUBE_MEMORY_LIMIT'', ''1Mi''),
     (''KUBE_CPU_REQUEST'', ''1m''), (''KUBE_CPU_LIMIT'', ''1m''), (''KUBE_INGRESS_HOST'', ''a.io''),
     (''KUBE_INGRESS_BODY_LIMIT'', ''1m'')]"

theorem validated_config_deploys_witness:
  "ValidateKubeConfig portal_content ''portal'' False = None \<and>
   servicePorts portal_content ''portal'' = Inl ''failed to parse KUBE_SERVICE_PORT''"
proof -
  have ok: "ValidateKubeConfig portal_content ''portal'' False = None"
    by code_simp
  have "map_of portal_content ''KUBE_SERVICE_PORT'' = None" "portal_content \<noteq> []"
    by (simp_all add: portal_content_def)
  with validated_config_deploys [OF ok] ok show ?thesis by simp
qed

end
