(* ===== verification/Access.thy ===== *)
theory Access
  imports Actor_Store
begin

text \<open>
  Who may call what: fetching and caching API tokens (\<^verbatim>\<open>middleware/token_fetch.go\<close>,
  \<^verbatim>\<open>middleware/token_cache.go\<close>), the bearer middleware (\<^verbatim>\<open>middleware/auth.go\<close>), the permissions of the
  operations (\<^verbatim>\<open>handler/permissions.go\<close>) and the guards of the handlers (\<^verbatim>\<open>handler/handler.go\<close>). Times
  are Unix seconds.
\<close>

subsection \<open>Fetching a token\<close>

record token =
  k_id :: string
  k_actor_id :: int
  k_queue_id :: int
  k_expire_at :: int
  k_permissions :: "string list"

definition token_of :: "api_token \<times> actor \<Rightarrow> token" where
  "token_of = (\<lambda>(t, a). \<lparr>k_id = t_id t, k_actor_id = a_id a, k_queue_id = a_queue_id a,
     k_expire_at = t_expire_at t, k_permissions = t_permissions t\<rparr>)"

definition bootstrap_token :: "int \<Rightarrow> token" where
  "bootstrap_token now = \<lparr>k_id = ''bootstraping'', k_actor_id = 0, k_queue_id = 0,
     k_expire_at = now + 60, k_permissions = [''admin'']\<rparr>"

text \<open>
  \<open>boot\<close> is the package variable \<^verbatim>\<open>bootstrapping\<close>, which the function clears for good once it has
  seen a token. \<open>None\<close> on the right is the nil token.
\<close>

definition fetch_token ::
    "faults \<Rightarrow> string \<Rightarrow> int \<Rightarrow> string \<Rightarrow> bool \<Rightarrow> db \<Rightarrow> (string + token option) \<times> bool" where
  "fetch_token flt bootstrapApiToken now apiToken boot d =
     (let find_it = (case fst (run_query flt 1 (ApiTokenFindByID apiToken) d) of
            Inr row \<Rightarrow> Inr (Some (token_of row))
          | Inl ErrNoRows \<Rightarrow> Inr None
          | Inl e \<Rightarrow> Inl (err_text e))
      in if boot then
           (case fst (run_query flt 0 ApiTokenCount d) of
              Inl e \<Rightarrow> (Inl (err_text e), boot)
            | Inr count \<Rightarrow>
                if count = 0 \<and> bootstrapApiToken \<noteq> '''' \<and> apiToken = bootstrapApiToken
                then (Inr (Some (bootstrap_token now)), boot)
                else (find_it, count = 0))
         else (find_it, boot))"

subsection \<open>The cache\<close>

text \<open>
  The cache library is an argument: \<open>cget c now k\<close> finds a value or not, and \<open>cset c now ttl k v\<close>
  stores one. \<open>cache_laws\<close> is its documented behaviour: what a look-up finds was stored under that
  key and has not outlived its time to live; it may drop any entry at any time. \<open>stored c\<close> are the
  entries with the second they end.
\<close>

definition cache_laws ::
    "('c \<Rightarrow> int \<Rightarrow> string \<Rightarrow> token option option) \<Rightarrow> ('c \<Rightarrow> int \<Rightarrow> int \<Rightarrow> string \<Rightarrow> token option \<Rightarrow> 'c) \<Rightarrow>
     ('c \<Rightarrow> (string \<times> token option \<times> int) set) \<Rightarrow> bool" where
  "cache_laws cget cset stored \<longleftrightarrow>
     (\<forall>c now k v. cget c now k = Some v \<longrightarrow> (\<exists>e. (k, v, e) \<in> stored c \<and> now \<le> e)) \<and>
     (\<forall>c now ttl k v. stored (cset c now ttl k v) \<subseteq> insert (k, v, now + ttl) (stored c))"

text \<open>
  \<^verbatim>\<open>GetToken\<close>. The singleflight group only lets concurrent requests for the same token share one
  fetch; one request is one call here. The tokens the database does not have are cached too.
\<close>

definition GetToken ::
    "('c \<Rightarrow> int \<Rightarrow> string \<Rightarrow> token option option) \<Rightarrow> ('c \<Rightarrow> int \<Rightarrow> int \<Rightarrow> string \<Rightarrow> token option \<Rightarrow> 'c) \<Rightarrow>
     int \<Rightarrow> faults \<Rightarrow> string \<Rightarrow> int \<Rightarrow> string \<Rightarrow> db \<Rightarrow> 'c \<times> bool \<Rightarrow> token option \<times> 'c \<times> bool" where
  "GetToken cget cset ttl flt bootstrapApiToken now apiToken d = (\<lambda>(c, boot).
     case cget c now apiToken of
       Some v \<Rightarrow> (v, c, boot)
     | None \<Rightarrow>
         (case fetch_token flt bootstrapApiToken now apiToken boot d of
            (Inl _, boot') \<Rightarrow> (None, c, boot')
          | (Inr v, boot') \<Rightarrow> (v, cset c now ttl apiToken v, boot')))"

subsection \<open>The middleware\<close>

text \<open>A refused request is answered with its status; a request without a header goes on without token.\<close>

datatype auth_result = Refused nat string | Anonymous | Accepted token

definition bearer_prefix :: string where
  "bearer_prefix = ''Bearer ''"

definition BearerAuth ::
    "('c \<Rightarrow> int \<Rightarrow> string \<Rightarrow> token option option) \<Rightarrow> ('c \<Rightarrow> int \<Rightarrow> int \<Rightarrow> string \<Rightarrow> token option \<Rightarrow> 'c) \<Rightarrow>
     int \<Rightarrow> faults \<Rightarrow> string \<Rightarrow> int \<Rightarrow> string \<Rightarrow> db \<Rightarrow> 'c \<times> bool \<Rightarrow> auth_result \<times> 'c \<times> bool" where
  "BearerAuth cget cset ttl flt bootstrapApiToken now auth d st =
     (if auth = '''' then (Anonymous, st)
      else if \<not> HasPrefix auth bearer_prefix then (Refused 401 ''Invalid authorization header'', st)
      else case GetToken cget cset ttl flt bootstrapApiToken now (drop (length bearer_prefix) auth) d st of
        (None, st') \<Rightarrow> (Refused 401 ''Invalid token'', st')
      | (Some tk, st') \<Rightarrow>
          if k_expire_at tk < now then (Refused 403 ''Token expired'', st') else (Accepted tk, st'))"

definition maskAuthToken :: "string \<Rightarrow> string" where
  "maskAuthToken tok =
     (let s = TrimSpace tok
      in if s = '''' then ''''
         else if length s \<le> 6 then ''******''
         else ''******'' @ drop (length s - 6) s)"

subsection \<open>Permissions\<close>

definition Permissions :: "(string \<times> string list) list" where
  "Permissions =
     [(''CreateInvocationAsync'', [''create:invocation'']), (''CreateInvocationSync'', [''create:invocation'']),
      (''GetNextInvocation'', [''read:invocation'']), (''ReturnInvocationResponse'', [''read:invocation'']),
      (''ListEmbeddingModels'', [''read:completion'']), (''CreateCompletion'', [''create:completion'']),
      (''GetMCPServers'', [''read:mcp'']), (''AdminListActors'', [''admin'']), (''AdminGetActors'', [''admin'']),
      (''AdminCreateActor'', [''admin'']), (''AdminUpdateActor'', [''admin'']), (''AdminDeleteActor'', [''admin'']),
      (''AdminGetActorConfig'', [''admin'']), (''AdminListApiTokens'', [''admin'']),
      (''AdminCreateApiToken'', [''admin'']), (''AdminDeleteApiToken'', [''admin'']),
      (''AdminUpdateConfig'', [''admin'']), (''AdminListDeployments'', [''admin'']),
      (''AdminGetDeployment'', [''admin'']), (''AdminGetDeploymentResult'', [''admin'']),
      (''AdminCreateDeployment'', [''admin'']), (''AdminUpdateDeployment'', [''admin'']),
      (''AdminDeleteDeployment'', [''admin'']), (''AdminSubmitDeployment'', [''admin'']),
      (''AdminPublishDeployment'', [''admin'']), (''AdminRejectDeployment'', [''admin'']),
      (''AdminRestartDeployment'', [''admin'']), (''AdminListPodMetrics'', [''admin'']),
      (''AdminListReferenceConfigSuites'', [''admin'']), (''AdminSyncReferenceConfigSuites'', [''admin'']),
      (''AdminGetSetting'', [''admin'']), (''AdminUpdateSetting'', [''admin'']), (''AdminListSecrets'', [''admin'']),
      (''AdminUpdateSecret'', [''admin'']), (''AdminDeleteSecret'', [''admin''])]"

text \<open>An operation without an entry is refused to everybody.\<close>

definition ValidatePermissions :: "token option \<Rightarrow> string \<Rightarrow> token option" where
  "ValidatePermissions tok operationID =
     (case tok of
        None \<Rightarrow> None
      | Some tk \<Rightarrow>
          (case map_of Permissions operationID of
             None \<Rightarrow> None
           | Some required \<Rightarrow> if list_all (\<lambda>p. p \<in> set (k_permissions tk)) required then Some tk else None))"

subsection \<open>Guarded operations\<close>

text \<open>The operations of \<^verbatim>\<open>APIHandler\<close> that check permissions, and the id each of them checks.\<close>

datatype operation =
  OpCreateInvocationAsync | OpCreateInvocationSync | OpGetInvocationById | OpGetNextInvocation
| OpReturnInvocationResponse | OpReturnInvocationError | OpCreateCompletion | OpListCompletionModels
| OpGetMCPServers | OpAdminListActors | OpAdminCreateActor | OpAdminGetActor | OpAdminUpdateActor
| OpAdminDeleteActor | OpAdminListApiTokens | OpAdminCreateApiToken | OpAdminDeleteApiToken
| OpAdminListDeployments | OpAdminGetDeployment | OpAdminGetDeploymentResult | OpAdminCreateDeployment
| OpAdminUpdateDeployment | OpAdminSubmitDeployment | OpAdminPublishDeployment | OpAdminRejectDeployment
| OpAdminDeleteDeployment | OpAdminRestartDeployment | OpAdminListPodMetrics | OpAdminUpdateConfig
| OpAdminGetSetting | OpAdminUpdateSetting | OpAdminListReferenceConfigSuites
| OpAdminSyncReferenceConfigSuites | OpAdminListSecrets | OpAdminUpdateSecret | OpAdminDeleteSecret

fun checked_id :: "operation \<Rightarrow> string" where
  "checked_id OpCreateInvocationAsync = ''CreateInvocationAsync''"
| "checked_id OpCreateInvocationSync = ''CreateInvocationSync''"
| "checked_id OpGetInvocationById = ''CreateInvocationSync''"
| "checked_id OpGetNextInvocation = ''GetNextInvocation''"
| "checked_id OpReturnInvocationResponse = ''ReturnInvocationResponse''"
| "checked_id OpReturnInvocationError = ''ReturnInvocationResponse''"
| "checked_id OpCreateCompletion = ''CreateCompletion''"
| "checked_id OpListCompletionModels = ''ListEmbeddingModels''"
| "checked_id OpGetMCPServers = ''GetMCPServers''"
| "checked_id OpAdminListActors = ''AdminListActors''"
| "checked_id OpAdminCreateActor = ''AdminCreateActor''"
| "checked_id OpAdminGetActor = ''AdminGetActors''"
| "checked_id OpAdminUpdateActor = ''AdminUpdateActor''"
| "checked_id OpAdminDeleteActor = ''AdminDeleteActor''"
| "checked_id OpAdminListApiTokens = ''AdminListApiTokens''"
| "checked_id OpAdminCreateApiToken = ''AdminCreateApiToken''"
| "checked_id OpAdminDeleteApiToken = ''AdminDeleteApiToken''"
| "checked_id OpAdminListDeployments = ''AdminListDeployments''"
| "checked_id OpAdminGetDeployment = ''AdminGetDeployment''"
| "checked_id OpAdminGetDeploymentResult = ''AdminGetDeploymentResult''"
| "checked_id OpAdminCreateDeployment = ''AdminCreateDeployment''"
| "checked_id OpAdminUpdateDeployment = ''AdminUpdateDeployment''"
| "checked_id OpAdminSubmitDeployment = ''AdminSubmitDeployment''"
| "checked_id OpAdminPublishDeployment = ''AdminPublishDeployment''"
| "checked_id OpAdminRejectDeployment = ''AdminRejectDeployment''"
| "checked_id OpAdminDeleteDeployment = ''AdminDeleteDeployment''"
| "checked_id OpAdminRestartDeployment = ''AdminRestartDeployment''"
| "checked_id OpAdminListPodMetrics = ''AdminListPodMetrics''"
| "checked_id OpAdminUpdateConfig = ''AdminUpdateConfig''"
| "checked_id OpAdminGetSetting = ''AdminGetSetting''"
| "checked_id OpAdminUpdateSetting = ''AdminUpdateSetting''"
| "checked_id OpAdminListReferenceConfigSuites = ''AdminListReferenceConfigSuites''"
| "checked_id OpAdminSyncReferenceConfigSuites = ''AdminSyncReferenceConfigSuites''"
| "checked_id OpAdminListSecrets = ''AdminListSecrets''"
| "checked_id OpAdminUpdateSecret = ''AdminUpdateSecret''"
| "checked_id OpAdminDeleteSecret = ''AdminDeleteSecret''"

text \<open>A handler method: refuse, or go on with the caller's token.\<close>

definition guarded :: "operation \<Rightarrow> token option \<Rightarrow> (token \<Rightarrow> 'a reply) \<Rightarrow> 'a reply" where
  "guarded op tok handler =
     (case ValidatePermissions tok (checked_id op) of None \<Rightarrow> Unauthorized | Some tk \<Rightarrow> handler tk)"

text \<open>A request as the server sees it: the second, the database, the faults, the header.\<close>

record request =
  q_now :: int
  q_db :: db
  q_faults :: faults
  q_auth :: string

text \<open>The middleware over a sequence of requests; the database may change in any way in between.\<close>

fun authenticate_all ::
    "('c \<Rightarrow> int \<Rightarrow> string \<Rightarrow> token option option) \<Rightarrow> ('c \<Rightarrow> int \<Rightarrow> int \<Rightarrow> string \<Rightarrow> token option \<Rightarrow> 'c) \<Rightarrow>
     int \<Rightarrow> string \<Rightarrow> request list \<Rightarrow> 'c \<times> bool \<Rightarrow> auth_result list" where
  "authenticate_all cget cset ttl boot_tok [] st = []"
| "authenticate_all cget cset ttl boot_tok (r # rs) st =
     (let (a, st') = BearerAuth cget cset ttl (q_faults r) boot_tok (q_now r) (q_auth r) (q_db r) st
      in a # authenticate_all cget cset ttl boot_tok rs st')"

subsection \<open>What an accepted token stands for\<close>

text \<open>
  The reference without cache: the database holds the token with its actor, or it holds no token at
  all and the text is the configured bootstrap token.
\<close>

definition issued :: "string \<Rightarrow> int \<Rightarrow> string \<Rightarrow> db \<Rightarrow> token \<Rightarrow> bool" where
  "issued boot_tok now text d tk \<longleftrightarrow>
     (\<exists>t \<in> set (api_tokens d). \<exists>a. t_id t = text \<and> actor_of d (t_actor_id t) = Some a \<and> tk = token_of (t, a)) \<or>
     api_tokens d = [] \<and> boot_tok \<noteq> '''' \<and> text = boot_tok \<and> tk = bootstrap_token now"

lemma find_token:
  assumes "fst (ApiTokenFindByID text d) = Inr row"
  shows "\<exists>t \<in> set (api_tokens d). \<exists>a. t_id t = text \<and> actor_of d (t_actor_id t) = Some a \<and> row = (t, a)"
proof -
  have "row \<in> set (List.map_filter (\<lambda>t. map_option (\<lambda>a. (t, a)) (actor_of d (t_actor_id t)))
      (filter (\<lambda>t. t_id t = text) (api_tokens d)))"
    using assms by (auto simp: ApiTokenFindByID_def one_row_def split: list.splits)
  then show ?thesis by (auto simp: List.map_filter_def)
qed

lemma fetched_issued:
  assumes "fetch_token flt boot_tok now text boot d = (Inr (Some tk), boot')"
  shows "issued boot_tok now text d tk"
proof -
  have found: "issued boot_tok now text d tk"
    if row: "fst (run_query flt 1 (ApiTokenFindByID text) d) = Inr row" and tk: "tk = token_of row" for row
    using find_token [of "text" d row] row tk
    by (auto simp: issued_def run_query_def split: option.splits)
  have count: "c = length (api_tokens d)" if "fst (run_query flt 0 ApiTokenCount d) = Inr c" for c
    using that by (auto simp: run_query_def ApiTokenCount_def split: option.splits)
  show ?thesis
    using assms found count
    by (auto simp: fetch_token_def Let_def issued_def split: if_splits sum.splits pgerr.splits)
qed

text \<open>Every cached token was issued in some request seen so far, and ends at most \<open>ttl\<close> after it.\<close>

definition cache_inv :: "(string \<times> token option \<times> int) set \<Rightarrow> int \<Rightarrow> string \<Rightarrow> request set \<Rightarrow> bool" where
  "cache_inv entries ttl boot_tok past \<longleftrightarrow>
     (\<forall>k tk e. (k, Some tk, e) \<in> entries \<longrightarrow>
        (\<exists>r \<in> past. issued boot_tok (q_now r) k (q_db r) tk \<and> e \<le> q_now r + ttl))"

lemma cache_inv_mono: "cache_inv es ttl b past \<Longrightarrow> past \<subseteq> past' \<Longrightarrow> cache_inv es ttl b past'"
  unfolding cache_inv_def by blast

lemma GetToken_issued:
  assumes laws: "cache_laws cget cset stored" and "0 \<le> ttl"
    and inv: "cache_inv (stored c) ttl boot_tok past"
    and get: "GetToken cget cset ttl flt boot_tok (q_now r) text (q_db r) (c, boot) = (v, c', boot')"
  shows "cache_inv (stored c') ttl boot_tok (insert r past)"
    and "v = Some tk \<Longrightarrow> \<exists>r' \<in> insert r past. issued boot_tok (q_now r') text (q_db r') tk \<and>
      q_now r \<le> q_now r' + ttl"
proof -
  have inv': "cache_inv (stored c) ttl boot_tok (insert r past)"
    using inv by (rule cache_inv_mono) blast
  show "cache_inv (stored c') ttl boot_tok (insert r past)"
  proof (cases "cget c (q_now r) text")
    case (Some u)
    with get inv' show ?thesis by (simp add: GetToken_def)
  next
    case None
    obtain q b where q: "fetch_token flt boot_tok (q_now r) text boot (q_db r) = (q, b)"
      by (cases "fetch_token flt boot_tok (q_now r) text boot (q_db r)")
    show ?thesis
    proof (cases q)
      case (Inl e)
      with None q get inv' show ?thesis by (simp add: GetToken_def)
    next
      case (Inr u)
      with None q get have "c' = cset c (q_now r) ttl text u" by (auto simp: GetToken_def)
      then have sub: "stored c' \<subseteq> insert (text, u, q_now r + ttl) (stored c)"
        using laws by (simp add: cache_laws_def)
      have "issued boot_tok (q_now r) text (q_db r) t" if "u = Some t" for t
        using fetched_issued q Inr that by blast
      with inv' sub show ?thesis unfolding cache_inv_def by blast
    qed
  qed
  show "\<exists>r' \<in> insert r past. issued boot_tok (q_now r') text (q_db r') tk \<and> q_now r \<le> q_now r' + ttl"
    if v: "v = Some tk"
  proof (cases "cget c (q_now r) text")
    case (Some u)
    with get v have "u = Some tk" by (simp add: GetToken_def)
    with Some laws obtain e where "(text, Some tk, e) \<in> stored c" "q_now r \<le> e"
      unfolding cache_laws_def by blast
    with inv' show ?thesis unfolding cache_inv_def by (meson order_trans)
  next
    case None
    with get v obtain b where "fetch_token flt boot_tok (q_now r) text boot (q_db r) = (Inr (Some tk), b)"
      by (auto simp: GetToken_def split: prod.splits sum.splits)
    with fetched_issued \<open>0 \<le> ttl\<close> show ?thesis by fastforce
  qed
qed

lemma BearerAuth_issued:
  assumes laws: "cache_laws cget cset stored" and "0 \<le> ttl"
    and inv: "cache_inv (stored c) ttl boot_tok past"
    and auth: "BearerAuth cget cset ttl flt boot_tok (q_now r) hdr (q_db r) (c, boot) = (a, c', boot')"
  shows "cache_inv (stored c') ttl boot_tok (insert r past)"
    and "a = Accepted tk \<Longrightarrow> hdr = bearer_prefix @ drop (length bearer_prefix) hdr \<and> q_now r \<le> k_expire_at tk \<and>
      (\<exists>r' \<in> insert r past. issued boot_tok (q_now r') (drop (length bearer_prefix) hdr) (q_db r') tk \<and>
        q_now r \<le> q_now r' + ttl)"
proof -
  let ?text = "drop (length bearer_prefix) hdr"
  obtain v c1 b1 where g: "GetToken cget cset ttl flt boot_tok (q_now r) ?text (q_db r) (c, boot) = (v, c1, b1)"
    by (cases "GetToken cget cset ttl flt boot_tok (q_now r) ?text (q_db r) (c, boot)")
  note got = GetToken_issued [OF laws assms(2) inv g]
  have c': "c' = c \<or> c' = c1"
    using auth g by (auto simp: BearerAuth_def split: if_splits option.splits)
  have "cache_inv (stored c) ttl boot_tok (insert r past)"
    using inv by (rule cache_inv_mono) blast
  with c' got(1) show "cache_inv (stored c') ttl boot_tok (insert r past)" by blast
  assume a: "a = Accepted tk"
  then have "v = Some tk" "HasPrefix hdr bearer_prefix" "q_now r \<le> k_expire_at tk"
    using auth g by (auto simp: BearerAuth_def split: if_splits option.splits)
  with got(2) show "hdr = bearer_prefix @ ?text \<and> q_now r \<le> k_expire_at tk \<and>
      (\<exists>r' \<in> insert r past. issued boot_tok (q_now r') ?text (q_db r') tk \<and> q_now r \<le> q_now r' + ttl)"
    by (auto simp: HasPrefix_def prefix_def)
qed

lemma authenticate_all_issued:
  assumes laws: "cache_laws cget cset stored" and "0 \<le> ttl"
    and "cache_inv (stored (fst st)) ttl boot_tok past" and "i < length rs"
    and "authenticate_all cget cset ttl boot_tok rs st ! i = Accepted tk"
  shows "q_auth (rs ! i) = bearer_prefix @ drop (length bearer_prefix) (q_auth (rs ! i)) \<and>
    q_now (rs ! i) \<le> k_expire_at tk \<and>
    (\<exists>r \<in> past \<union> set (take (Suc i) rs).
      issued boot_tok (q_now r) (drop (length bearer_prefix) (q_auth (rs ! i))) (q_db r) tk \<and>
      q_now (rs ! i) \<le> q_now r + ttl)"
  using assms(3-)
proof (induction rs arbitrary: st past i)
  case (Cons r rs)
  obtain c boot where st: "st = (c, boot)" by (cases st)
  obtain a c' boot' where b: "BearerAuth cget cset ttl (q_faults r) boot_tok (q_now r) (q_auth r) (q_db r) (c, boot) =
      (a, c', boot')"
    by (cases "BearerAuth cget cset ttl (q_faults r) boot_tok (q_now r) (q_auth r) (q_db r) (c, boot)")
  have inv: "cache_inv (stored c) ttl boot_tok past" using Cons.prems(1) st by simp
  note step = BearerAuth_issued [OF laws assms(2) inv b]
  show ?case
  proof (cases i)
    case 0
    with Cons.prems(3) st b have "a = Accepted tk" by simp
    from step(2) [OF this] 0 show ?thesis by auto
  next
    case (Suc j)
    have "cache_inv (stored (fst (c', boot'))) ttl boot_tok (insert r past)" using step(1) by simp
    from Cons.IH [OF this, of j] Cons.prems Suc st b show ?thesis by auto
  qed
qed simp

subsection \<open>The permission an operation needs\<close>

fun needed_permission :: "operation \<Rightarrow> string" where
  "needed_permission OpCreateInvocationAsync = ''create:invocation''"
| "needed_permission OpCreateInvocationSync = ''create:invocation''"
| "needed_permission OpGetInvocationById = ''create:invocation''"
| "needed_permission OpGetNextInvocation = ''read:invocation''"
| "needed_permission OpReturnInvocationResponse = ''read:invocation''"
| "needed_permission OpReturnInvocationError = ''read:invocation''"
| "needed_permission OpCreateCompletion = ''create:completion''"
| "needed_permission OpListCompletionModels = ''read:completion''"
| "needed_permission OpGetMCPServers = ''read:mcp''"
| "needed_permission _ = ''admin''"

definition guarded_operations :: "operation list" where
  "guarded_operations =
     [OpCreateInvocationAsync, OpCreateInvocationSync, OpGetInvocationById, OpGetNextInvocation,
      OpReturnInvocationResponse, OpReturnInvocationError, OpCreateCompletion, OpListCompletionModels,
      OpGetMCPServers, OpAdminListActors, OpAdminCreateActor, OpAdminGetActor, OpAdminUpdateActor,
      OpAdminDeleteActor, OpAdminListApiTokens, OpAdminCreateApiToken, OpAdminDeleteApiToken,
      OpAdminListDeployments, OpAdminGetDeployment, OpAdminGetDeploymentResult, OpAdminCreateDeployment,
      OpAdminUpdateDeployment, OpAdminSubmitDeployment, OpAdminPublishDeployment,
      OpAdminRejectDeployment, OpAdminDeleteDeployment, OpAdminRestartDeployment, OpAdminListPodMetrics,
      OpAdminUpdateConfig, OpAdminGetSetting, OpAdminUpdateSetting, OpAdminListReferenceConfigSuites,
      OpAdminSyncReferenceConfigSuites, OpAdminListSecrets, OpAdminUpdateSecret, OpAdminDeleteSecret]"

lemma every_operation_guarded: "op \<in> set guarded_operations"
  by (cases op) (simp_all add: guarded_operations_def)

lemma guarded_permissions:
  "list_all (\<lambda>op. map_of Permissions (checked_id op) = Some [needed_permission op]) guarded_operations"
  by code_simp

lemma required_permissions: "map_of Permissions (checked_id op) = Some [needed_permission op]"
  using guarded_permissions every_operation_guarded [of op] by (simp add: list_all_iff)

subsection \<open>A sample cache\<close>

type_synonym alist_cache = "(string \<times> token option \<times> int) list"

definition alist_get :: "alist_cache \<Rightarrow> int \<Rightarrow> string \<Rightarrow> token option option" where
  "alist_get c now k = map_option (\<lambda>(_, v, _). v) (find (\<lambda>(k', _, e). k' = k \<and> now \<le> e) c)"

definition alist_set :: "alist_cache \<Rightarrow> int \<Rightarrow> int \<Rightarrow> string \<Rightarrow> token option \<Rightarrow> alist_cache" where
  "alist_set c now ttl k v = (k, v, now + ttl) # c"

lemma alist_cache_laws: "cache_laws alist_get alist_set set"
  by (auto simp: cache_laws_def alist_get_def alist_set_def dest!: find_SomeD)

text \<open>The token is deleted between the two requests; the cache answers the second.\<close>

definition sample_requests :: "request list" where
  "sample_requests =
     [\<lparr>q_now = 100, q_db = sample_db, q_faults = no_faults, q_auth = ''Bearer tok''\<rparr>,
      \<lparr>q_now = 105, q_db = sample_db\<lparr>api_tokens := []\<rparr>, q_faults = no_faults, q_auth = ''Bearer tok''\<rparr>]"

definition sample_token_view :: token where
  "sample_token_view = \<lparr>k_id = ''tok'', k_actor_id = 1, k_queue_id = 3, k_expire_at = 1000,
     k_permissions = [''read:invocation'']\<rparr>"

lemma sample_fetch:
  "fetch_token no_faults '''' 100 ''tok'' True sample_db = (Inr (Some sample_token_view), False)"
  by (simp add: fetch_token_def ApiTokenCount_def ApiTokenFindByID_def sample_db_def actor_of_def sample_actor_def
      token_of_def sample_token_view_def Let_def)

lemma sample_answers:
  "authenticate_all alist_get alist_set 10 '''' sample_requests ([], True) =
     [Accepted sample_token_view, Accepted sample_token_view]"
  by (simp add: sample_requests_def BearerAuth_def GetToken_def alist_get_def alist_set_def HasPrefix_def
      bearer_prefix_def sample_fetch) (simp add: sample_token_view_def)

subsection \<open>Properties\<close>



text \<open>Every operation the server guards is allowed exactly to the tokens that carry the permission it
  is meant to need: each id a handler checks has an entry, no operation is open to requests without
  token, and all administration needs \<^verbatim>\<open>admin\<close>. Reading one invocation needs \<^verbatim>\<open>create:invocation\<close>, as it
  shares the id of the synchronous call.
\<close>
lemma operations_need_permission:
  "ValidatePermissions tok (checked_id op) =
     (case tok of
        None \<Rightarrow> None
      | Some tk \<Rightarrow> if needed_permission op \<in> set (k_permissions tk) then Some tk else None)"
  by (simp add: ValidatePermissions_def required_permissions split: option.split)

end
