(* ===== verification/Actor_Admin.thy ===== *)
theory Actor_Admin
  imports Actor_Store Kube_Config Access
begin

text \<open>
  The handlers on actors, API tokens, configs and settings: \<^verbatim>\<open>admin/actor_manage.go\<close>,
  \<^verbatim>\<open>admin/token_manage.go\<close>, \<^verbatim>\<open>admin/config_manage.go\<close>, \<^verbatim>\<open>admin/setting_manage.go\<close>,
  \<^verbatim>\<open>handler/get_config.go\<close> and \<^verbatim>\<open>mcp/mcp_agent_list.go\<close>, and the transaction helper of
  \<^verbatim>\<open>dbaccess/helper.go\<close>. \<open>Success\<close> carries the row the answer copies its fields from.
\<close>

subsection \<open>Transactions\<close>

text \<open>\<^verbatim>\<open>WithTxV\<close>; \<open>kb\<close> and \<open>kc\<close> are the numbers of the calls \<^verbatim>\<open>Begin\<close> and \<^verbatim>\<open>Commit\<close>.\<close>

definition WithTxV ::
    "faults \<Rightarrow> nat \<Rightarrow> nat \<Rightarrow> (db \<Rightarrow> (pgerr + 'a) \<times> db) \<Rightarrow> db \<Rightarrow> (pgerr + 'a) \<times> db" where
  "WithTxV flt kb kc innerFunc d =
     (case flt kb of
        Some e \<Rightarrow> (Inl (DbError (''error beginning transaction: '' @ e)), d)
      | None \<Rightarrow>
          (case innerFunc d of
             (Inl e, _) \<Rightarrow> (Inl e, d)
           | (Inr res, d1) \<Rightarrow>
               (case flt kc of
                  Some e \<Rightarrow> (Inl (DbError (''error committing transaction: '' @ e)), d)
                | None \<Rightarrow> (Inr res, d1))))"

subsection \<open>Actors\<close>

record actor_create =
  ac_name :: string
  ac_role :: ActorRole
  ac_enabled :: "bool option"
  ac_deployable :: "bool option"
  ac_configurable :: "bool option"
  ac_migratable :: "bool option"
  ac_mcp_enabled :: "bool option"
  ac_permissions :: "string list option"

text \<open>The check both handlers make of the fields the request gives, absent ones counting as false.\<close>

definition flags_error :: "bool option \<Rightarrow> bool option \<Rightarrow> bool option \<Rightarrow> string option" where
  "flags_error migratable deployable configurable =
     (if from_ptr_or migratable False \<and> (\<not> from_ptr_or deployable False \<or> \<not> from_ptr_or configurable False)
      then Some ''Migratable actors must also be deployable and configurable''
      else if from_ptr_or deployable False \<and> \<not> from_ptr_or configurable False
      then Some ''Deployable actors must also be configurable''
      else None)"

definition create_actor_tx :: "faults \<Rightarrow> int \<Rightarrow> actor_create \<Rightarrow> db \<Rightarrow> (pgerr + actor) \<times> db" where
  "create_actor_tx flt now req d =
     (case run_query flt 1 (QueueInsert now (ac_name req) (Some (JObj [(''type'', JStr ''actor'')]))) d of
        (Inl e, d1) \<Rightarrow> (Inl e, d1)
      | (Inr q, d1) \<Rightarrow>
          run_query flt 2 (ActorInsert now
            \<lparr>ai_name = ac_name req, ai_queue_id = q_id q, ai_role = ac_role req,
             ai_enabled = from_ptr_or (ac_enabled req) True,
             ai_deployable = from_ptr_or (ac_deployable req) False,
             ai_configurable = from_ptr_or (ac_configurable req) False,
             ai_migratable = from_ptr_or (ac_migratable req) False,
             ai_mcp_enabled = from_ptr_or (ac_mcp_enabled req) False,
             ai_permissions = ac_permissions req\<rparr>) d1)"

definition CreateActor :: "faults \<Rightarrow> int \<Rightarrow> actor_create \<Rightarrow> db \<Rightarrow> actor reply \<times> db" where
  "CreateActor flt now req d =
     (if ac_name req = '''' then (BadRequest ''Missing required field: name'', d)
      else case flags_error (ac_migratable req) (ac_deployable req) (ac_configurable req) of
        Some e \<Rightarrow> (BadRequest e, d)
      | None \<Rightarrow>
          (case WithTxV flt 0 3 (create_actor_tx flt now req) d of
             (Inl e, d1) \<Rightarrow> (ServerError (''Cannot create actors: '' @ err_text e), d1)
           | (Inr a, d1) \<Rightarrow> (Success a, d1)))"

definition GetActor :: "faults \<Rightarrow> int \<Rightarrow> db \<Rightarrow> (actor \<times> nat \<times> bool) reply" where
  "GetActor flt aid d =
     (case fst (run_query flt 0 (ActorFindById aid) d) of
        Inl ErrNoRows \<Rightarrow> NotFound
      | Inl e \<Rightarrow> ServerError (''Cannot get actor: '' @ err_text e)
      | Inr r \<Rightarrow> Success r)"

definition UpdateActor :: "faults \<Rightarrow> int \<Rightarrow> actor_update_params \<Rightarrow> db \<Rightarrow> actor reply \<times> db" where
  "UpdateActor flt aid p d =
     (case flags_error (au_migratable p) (au_deployable p) (au_configurable p) of
        Some e \<Rightarrow> (BadRequest e, d)
      | None \<Rightarrow>
          (case run_query flt 0 (ActorUpdate p aid) d of
             (Inl ErrNoRows, d1) \<Rightarrow> (NotFound, d1)
           | (Inl e, d1) \<Rightarrow> (ServerError (''Cannot update actor: '' @ err_text e), d1)
           | (Inr a, d1) \<Rightarrow> (Success a, d1)))"

definition DeleteActor :: "faults \<Rightarrow> int \<Rightarrow> db \<Rightarrow> unit reply \<times> db" where
  "DeleteActor flt aid d =
     (case run_query flt 0 (ActorDelete aid) d of
        (Inl e, d1) \<Rightarrow> (ServerError (''Cannot delete actor: '' @ err_text e), d1)
      | (Inr NOTFOUND, d1) \<Rightarrow> (NotFound, d1)
      | (Inr REFERENCED, d1) \<Rightarrow> (Conflict, d1)
      | (Inr DONE, d1) \<Rightarrow> (Success (), d1))"

definition GetMCPServers :: "faults \<Rightarrow> db \<Rightarrow> (string \<times> string) list reply" where
  "GetMCPServers flt d =
     (case fst (run_query flt 0 ActorFindByMCPEnabled d) of
        Inl e \<Rightarrow> ServerError (''Cannot list agents: '' @ err_text e)
      | Inr agents \<Rightarrow> Success (map (\<lambda>(i, n). (FormatInt i, n)) agents))"

subsection \<open>API tokens\<close>

text \<open>\<open>tok\<close> is what \<^verbatim>\<open>GenerateAPIToken\<close> drew.\<close>

definition CreateApiToken ::
    "faults \<Rightarrow> int \<Rightarrow> string \<Rightarrow> int \<Rightarrow> string \<Rightarrow> int \<Rightarrow> string list option \<Rightarrow> db \<Rightarrow> api_token reply \<times> db" where
  "CreateApiToken flt now tok aid creator expire perms d =
     (if aid = 0 \<or> creator = '''' \<or> expire = 0 then (BadRequest ''Missing required fields'', d)
      else case run_query flt 0 (ApiTokenInsert now tok aid expire creator perms) d of
        (Inl e, d1) \<Rightarrow> (ServerError (''Cannot insert API tokens: '' @ err_text e), d1)
      | (Inr t, d1) \<Rightarrow> (Success t, d1))"

definition DeleteApiToken :: "faults \<Rightarrow> string \<Rightarrow> db \<Rightarrow> unit reply \<times> db" where
  "DeleteApiToken flt tid d =
     (case run_query flt 0 (ApiTokenDelete tid) d of
        (Inl e, d1) \<Rightarrow> (ServerError (''Cannot delete API token: '' @ err_text e), d1)
      | (Inr _, d1) \<Rightarrow> (Success (), d1))"

subsection \<open>Configs\<close>

text \<open>
  \<open>content\<close> is the pointer of the request: the nil pointer marshals to \<^verbatim>\<open>null\<close>, and is dereferenced
  for a deployable actor.
\<close>

definition UpdateConfig ::
    "faults \<Rightarrow> int \<Rightarrow> int \<Rightarrow> string \<Rightarrow> smap option \<Rightarrow> db \<Rightarrow> (config \<times> actor \<times> smap) reply outcome \<times> db" where
  "UpdateConfig flt now cid user content d =
     (let contentJSON = (case content of None \<Rightarrow> JNull | Some m \<Rightarrow> smap_json m);
          store = (case run_query flt 1
              (ConfigUpdateInactiveContentByCreator now (Some contentJSON) None user cid) d of
            (Inl ErrNoRows, d1) \<Rightarrow> (Return NotFound, d1)
          | (Inl e, d1) \<Rightarrow> (Return (ServerError (''Cannot update config: '' @ err_text e)), d1)
          | (Inr (c, a), d1) \<Rightarrow>
              if c_id c = 0 then (Return NotFound, d1)
              else (case unmarshal_smap (c_content c) of
                 (m, True) \<Rightarrow> (Return (ServerError ''Cannot unmarshal content''), d1)
               | (m, False) \<Rightarrow> (Return (Success (c, a, nil_as_empty m)), d1)))
      in case fst (run_query flt 0 (GetActorByConfigId cid) d) of
           Inl ErrNoRows \<Rightarrow> (Return NotFound, d)
         | Inl e \<Rightarrow> (Return (ServerError (''Cannot get actor by config id: '' @ err_text e)), d)
         | Inr a \<Rightarrow>
             if a_deployable a then
               (case content of
                  None \<Rightarrow> (nil_panic, d)
                | Some m \<Rightarrow>
                    (case ValidateKubeConfig m (role_text (a_role a)) (a_migratable a) of
                       Some e \<Rightarrow> (Return (BadRequest (''Invalid kube config: '' @ e)), d)
                     | None \<Rightarrow> store))
             else store)"

definition parseConfigsAndReturn :: "json \<Rightarrow> smap reply" where
  "parseConfigsAndReturn content =
     (case unmarshal_smap content of
        (m, True) \<Rightarrow> ServerError ''Cannot unmarshal actor config''
      | (m, False) \<Rightarrow> Success (nil_as_empty m))"

definition GetActorConfig :: "faults \<Rightarrow> token option \<Rightarrow> string option \<Rightarrow> db \<Rightarrow> smap reply" where
  "GetActorConfig flt tok xActorVersion d =
     (case tok of
        None \<Rightarrow> Unauthorized
      | Some tk \<Rightarrow>
          (let actorVersion = DeserializeActorVersion xActorVersion
           in if actorVersion = None \<and> xActorVersion \<noteq> None
              then BadRequest (''Cannot parse actor version: '' @ the xActorVersion)
              else case fst (run_query flt 0 (ConfigActorActiveConfig (k_actor_id tk) actorVersion) d) of
                Inr c \<Rightarrow> parseConfigsAndReturn (c_content c)
              | Inl (DbError e) \<Rightarrow> ServerError (''Cannot get actor config: '' @ e)
              | Inl ErrNoRows \<Rightarrow>
                  (case fst (run_query flt 1
                      (ConfigActorRetiredAndVersionCompatibleConfig (k_actor_id tk) actorVersion) d) of
                     Inr c \<Rightarrow> parseConfigsAndReturn (c_content c)
                   | Inl ErrNoRows \<Rightarrow> NotFound
                   | Inl (DbError e) \<Rightarrow> ServerError (''Cannot get actor config: '' @ e))))"

subsection \<open>Settings\<close>

record setting_fields =
  st_display_name :: "string option"
  st_approve_required :: "bool option"
  st_secrets_backup :: "bool option"
  st_public_key :: "string option"
  st_bucket :: "string option"
  st_prefix :: "string option"

definition text_field :: "string \<Rightarrow> string option \<Rightarrow> (string \<times> json) list" where
  "text_field k v = (case v of None \<Rightarrow> [] | Some s \<Rightarrow> [(k, JStr s)])"

definition bool_field :: "string \<Rightarrow> bool option \<Rightarrow> (string \<times> json) list" where
  "bool_field k v = (case v of None \<Rightarrow> [] | Some b \<Rightarrow> [(k, JBool b)])"

text \<open>\<^verbatim>\<open>json.Marshal\<close> of \<^verbatim>\<open>SettingType\<close>, whose nil fields are omitted.\<close>

definition marshal_setting :: "setting_fields \<Rightarrow> json" where
  "marshal_setting s =
     JObj (text_field ''display_name'' (st_display_name s) @
       bool_field ''deployment_approve_required'' (st_approve_required s) @
       bool_field ''enable_secrets_backup'' (st_secrets_backup s) @
       text_field ''secrets_backup_public_key'' (st_public_key s) @
       text_field ''secrets_backup_bucket'' (st_bucket s) @
       text_field ''secrets_backup_prefix'' (st_prefix s))"

text \<open>Reading one field: absent or null is the nil pointer, another type an error.\<close>

fun read_text :: "json option \<Rightarrow> string option option" where
  "read_text None = Some None"
| "read_text (Some JNull) = Some None"
| "read_text (Some (JStr s)) = Some (Some s)"
| "read_text (Some _) = None"

fun read_bool :: "json option \<Rightarrow> bool option option" where
  "read_bool None = Some None"
| "read_bool (Some JNull) = Some None"
| "read_bool (Some (JBool b)) = Some (Some b)"
| "read_bool (Some _) = None"

fun deserializeSetting :: "json \<Rightarrow> setting_fields option" where
  "deserializeSetting (JObj kvs) =
     (case (read_text (map_of kvs ''display_name''), read_bool (map_of kvs ''deployment_approve_required''),
            read_bool (map_of kvs ''enable_secrets_backup''), read_text (map_of kvs ''secrets_backup_public_key''),
            read_text (map_of kvs ''secrets_backup_bucket''), read_text (map_of kvs ''secrets_backup_prefix'')) of
        (Some a, Some b, Some c, Some e, Some f, Some g) \<Rightarrow>
          Some \<lparr>st_display_name = a, st_approve_required = b, st_secrets_backup = c, st_public_key = e,
            st_bucket = f, st_prefix = g\<rparr>
      | _ \<Rightarrow> None)"
| "deserializeSetting JNull = Some \<lparr>st_display_name = None, st_approve_required = None,
     st_secrets_backup = None, st_public_key = None, st_bucket = None, st_prefix = None\<rparr>"
| "deserializeSetting _ = None"

text \<open>The first three fields are shown with a default, the others as they are.\<close>

definition with_defaults :: "setting_fields \<Rightarrow> setting_fields" where
  "with_defaults s = s\<lparr>st_display_name := Some (from_ptr_or (st_display_name s) ''''),
     st_approve_required := Some (from_ptr_or (st_approve_required s) False),
     st_secrets_backup := Some (from_ptr_or (st_secrets_backup s) False)\<rparr>"

definition GetSetting :: "faults \<Rightarrow> db \<Rightarrow> setting_fields reply" where
  "GetSetting flt d =
     (case fst (run_query flt 0 SettingGetSystem d) of
        Inl ErrNoRows \<Rightarrow> Success \<lparr>st_display_name = Some '''', st_approve_required = Some False,
          st_secrets_backup = Some False, st_public_key = None, st_bucket = None, st_prefix = None\<rparr>
      | Inl _ \<Rightarrow> ServerError ''Internal server error''
      | Inr v \<Rightarrow>
          (case deserializeSetting v of
             None \<Rightarrow> ServerError ''Internal server error''
           | Some s \<Rightarrow> Success (with_defaults s)))"

definition UpdateSetting :: "faults \<Rightarrow> setting_fields option \<Rightarrow> db \<Rightarrow> unit reply \<times> db" where
  "UpdateSetting flt body d =
     (case body of
        None \<Rightarrow> (BadRequest ''Invalid request body'', d)
      | Some s \<Rightarrow>
          (case run_query flt 0 (SettingUpdateSystem (marshal_setting s)) d of
             (Inl _, d1) \<Rightarrow> (ServerError ''Internal server error'', d1)
           | (Inr _, d1) \<Rightarrow> (Success (), d1)))"

lemmas actor_handlers [handler_simps] =
  CreateActor_def GetActor_def UpdateActor_def DeleteActor_def CreateApiToken_def DeleteApiToken_def
  UpdateConfig_def GetActorConfig_def GetSetting_def UpdateSetting_def

subsection \<open>Facts\<close>

lemma WithTxV_cases:
  obtains (refused) e where "WithTxV flt kb kc f d = (Inl e, d)"
  | (committed) r d1 where "f d = (Inr r, d1)" "WithTxV flt kb kc f d = (Inr r, d1)"
  by (cases "flt kb"; cases "f d"; cases "fst (f d)"; cases "flt kc") (auto simp: WithTxV_def)

lemma queue_name_taken:
  "n \<in> q_name ` set (queues d) \<Longrightarrow> \<exists>e. QueueInsert now n m d = (Inl e, d)"
  by (auto simp: QueueInsert_def list_ex_iff)

lemma create_needs_free_queue_name:
  assumes "n \<in> q_name ` set (queues d)" and "ac_name req = n"
  shows "snd (CreateActor flt now req d) = d \<and> (\<forall>a. fst (CreateActor flt now req d) \<noteq> Success a)"
proof -
  obtain e where e: "QueueInsert now n (Some (JObj [(''type'', JStr ''actor'')])) d = (Inl e, d)"
    using queue_name_taken [OF assms(1)] by blast
  then have tx: "fst (create_actor_tx flt now req d) = Inl e'" if "e' = (case flt 1 of None \<Rightarrow> e | Some x \<Rightarrow> DbError x)" for e'
    using assms(2) that by (cases "flt 1") (auto simp: create_actor_tx_def run_query_def)
  show ?thesis
  proof (cases rule: WithTxV_cases [of flt 0 3 "create_actor_tx flt now req" d])
    case (refused x)
    then show ?thesis by (auto simp: CreateActor_def split: option.splits)
  next
    case (committed r d1)
    with tx show ?thesis by auto
  qed
qed

lemma create_actor_success:
  assumes "CreateActor flt now req d = (Success a, d1)"
  shows "\<exists>q. q_name q = ac_name req \<and> queues d1 = queues d @ [q] \<and> q_id q = a_queue_id a \<and>
    actors d1 = actors d @ [a] \<and> a_name a = ac_name req"
proof (cases rule: WithTxV_cases [of flt 0 3 "create_actor_tx flt now req" d])
  case (refused x)
  with assms show ?thesis by (auto simp: CreateActor_def split: if_splits option.splits)
next
  case (committed r d2)
  with assms have "r = a" "d2 = d1"
    by (auto simp: CreateActor_def split: if_splits option.splits)
  with committed(1) have tx: "create_actor_tx flt now req d = (Inr a, d1)" by simp
  then have f: "flt 1 = None" "flt 2 = None"
    by (auto simp: create_actor_tx_def run_query_def split: option.splits sum.splits prod.splits)
  obtain q d2 where q: "QueueInsert now (ac_name req) (Some (JObj [(''type'', JStr ''actor'')])) d = (Inr q, d2)"
    using tx f by (auto simp: create_actor_tx_def split: sum.splits prod.splits)
  then have "q_name q = ac_name req" "queues d2 = queues d @ [q]" "actors d2 = actors d"
    by (auto simp: QueueInsert_def Let_def split: if_splits)
  moreover have "queues d1 = queues d2" "actors d1 = actors d2 @ [a]" "a_name a = ac_name req" "a_queue_id a = q_id q"
    using tx f q by (auto simp: create_actor_tx_def ActorInsert_def new_actor_def Let_def split: if_splits)
  ultimately show ?thesis by auto
qed

lemma run_query_success:
  "run_query flt k q d = (Inr r, d') \<Longrightarrow> q d = (Inr r, d')"
  by (auto simp: run_query_def split: option.splits)

lemma delete_actor_queues: "DeleteActor flt aid d = (r, d') \<Longrightarrow> queues d' = queues d"
  by (auto simp: DeleteActor_def run_query_def ActorDelete_def split: option.splits if_splits)

lemma last_sorted_max:
  "sorted (map f xs) \<Longrightarrow> x \<in> set xs \<Longrightarrow> f x \<le> f (last xs)" for f :: "'a \<Rightarrow> int"
  by (induction xs) auto

lemma last_by_id_max:
  assumes "last_by_id cs = Some c"
  shows "c \<in> set cs \<and> (\<forall>x \<in> set cs. c_id x \<le> c_id c)"
proof (cases "sort_key c_id cs")
  case (Cons x xs)
  then have c: "c = last (sort_key c_id cs)" and ne: "sort_key c_id cs \<noteq> []"
    using assms by (auto simp: last_by_id_def)
  have "last (sort_key c_id cs) \<in> set (sort_key c_id cs)" by (rule last_in_set [OF ne])
  moreover have "c_id y \<le> c_id c" if "y \<in> set cs" for y
    using last_sorted_max [of c_id "sort_key c_id cs" y] that c by simp
  ultimately show ?thesis using c by simp
next
  case Nil
  with assms show ?thesis by (simp add: last_by_id_def)
qed

lemma last_by_id_None: "last_by_id cs = None \<longleftrightarrow> cs = []"
proof -
  have "sort_key c_id cs = [] \<longleftrightarrow> cs = []" by (metis length_0_conv length_sort)
  then show ?thesis by (auto simp: last_by_id_def split: list.splits)
qed

text \<open>
  What an actor is to be served: a config of its own whose suite was deployed and whose minimum
  version it meets. Configs of the active suite win over all others, then the higher id wins.
\<close>

definition suite_in_use :: "db \<Rightarrow> config \<Rightarrow> config_suite option" where
  "suite_in_use d c = Option.bind (c_config_suite_id c) (suite_of d)"

definition candidate :: "db \<Rightarrow> int \<Rightarrow> int list option \<Rightarrow> config \<Rightarrow> bool" where
  "candidate d aid v c \<longleftrightarrow>
     c \<in> set (configs d) \<and> c_actor_id c = aid \<and> actor_of d aid \<noteq> None \<and> version_ok v c \<and>
     (\<exists>s. suite_in_use d c = Some s \<and> s_deployed_at s \<noteq> None)"

definition in_active_suite :: "db \<Rightarrow> config \<Rightarrow> bool" where
  "in_active_suite d c = (case suite_in_use d c of None \<Rightarrow> False | Some s \<Rightarrow> s_active s)"

definition served :: "db \<Rightarrow> int \<Rightarrow> int list option \<Rightarrow> config \<Rightarrow> bool" where
  "served d aid v c \<longleftrightarrow>
     candidate d aid v c \<and>
     (\<forall>x \<in> set (configs d). candidate d aid v x \<longrightarrow>
        (in_active_suite d x, c_id x) \<le> (in_active_suite d c, c_id c))"

lemma suite_configs_iff:
  "c \<in> set (suite_configs act aid v d) \<longleftrightarrow> candidate d aid v c \<and> in_active_suite d c = act"
  by (cases "c_config_suite_id c")
     (auto simp: suite_configs_def candidate_def in_active_suite_def suite_in_use_def split: option.splits)

lemma served_active:
  assumes "last_by_id (suite_configs True aid v d) = Some c"
  shows "served d aid v c"
  using last_by_id_max [OF assms] by (auto simp: served_def suite_configs_iff less_bool_def)

lemma served_retired:
  assumes "last_by_id (suite_configs True aid v d) = None" and "last_by_id (suite_configs False aid v d) = Some c"
  shows "served d aid v c"
proof -
  have "\<not> (candidate d aid v x \<and> in_active_suite d x)" for x
    using assms(1) suite_configs_iff [of x True aid v d] by (simp add: last_by_id_None)
  then show ?thesis
    using last_by_id_max [OF assms(2)] by (auto simp: served_def suite_configs_iff)
qed

lemma none_served:
  assumes "last_by_id (suite_configs True aid v d) = None" and "last_by_id (suite_configs False aid v d) = None"
  shows "\<not> candidate d aid v c"
  using assms suite_configs_iff [of c True aid v d] suite_configs_iff [of c False aid v d]
  by (auto simp: last_by_id_None)

lemma option_row_simps [simp]: "option_row None = Inl ErrNoRows" "option_row (Some x) = Inr x"
  by (simp_all add: option_row_def)

subsection \<open>Settings\<close>

text \<open>The settings after an update: a field that was sent, or else the one shown before.\<close>

definition overlay :: "setting_fields \<Rightarrow> setting_fields \<Rightarrow> setting_fields" where
  "overlay s old =
     (let pick = (\<lambda>a b. case a of None \<Rightarrow> b | Some _ \<Rightarrow> a)
      in \<lparr>st_display_name = pick (st_display_name s) (st_display_name old),
          st_approve_required = (case st_approve_required s of None \<Rightarrow> st_approve_required old | Some x \<Rightarrow> Some x),
          st_secrets_backup = (case st_secrets_backup s of None \<Rightarrow> st_secrets_backup old | Some x \<Rightarrow> Some x),
          st_public_key = pick (st_public_key s) (st_public_key old),
          st_bucket = pick (st_bucket s) (st_bucket old),
          st_prefix = pick (st_prefix s) (st_prefix old)\<rparr>)"

lemma map_of_field:
  "map_of (text_field k v @ xs) x = (if x = k then (case v of None \<Rightarrow> map_of xs x | Some s \<Rightarrow> Some (JStr s)) else map_of xs x)"
  "map_of (bool_field k b @ xs) x = (if x = k then (case b of None \<Rightarrow> map_of xs x | Some s \<Rightarrow> Some (JBool s)) else map_of xs x)"
  "map_of (text_field k v) x = (if x = k then map_option JStr v else None)"
  by (auto simp: text_field_def bool_field_def split: option.splits)

lemma read_merged_text:
  "read_text (map_of old k) = Some b \<Longrightarrow>
   read_text (case map_option JStr a of None \<Rightarrow> map_of old k | Some v \<Rightarrow> Some v) =
     Some (case a of None \<Rightarrow> b | Some _ \<Rightarrow> a)"
  by (cases a) auto

lemma read_merged_bool:
  "read_bool (map_of old k) = Some b \<Longrightarrow>
   read_bool (case map_option JBool a of None \<Rightarrow> map_of old k | Some v \<Rightarrow> Some v) =
     Some (case a of None \<Rightarrow> b | Some _ \<Rightarrow> a)"
  by (cases a) auto

lemma deserialize_iff:
  "deserializeSetting (JObj kvs) = Some f \<longleftrightarrow>
     read_text (map_of kvs ''display_name'') = Some (st_display_name f) \<and>
     read_bool (map_of kvs ''deployment_approve_required'') = Some (st_approve_required f) \<and>
     read_bool (map_of kvs ''enable_secrets_backup'') = Some (st_secrets_backup f) \<and>
     read_text (map_of kvs ''secrets_backup_public_key'') = Some (st_public_key f) \<and>
     read_text (map_of kvs ''secrets_backup_bucket'') = Some (st_bucket f) \<and>
     read_text (map_of kvs ''secrets_backup_prefix'') = Some (st_prefix f)"
  by (cases f) (auto split: option.splits)

lemma deserialize_merged:
  assumes "deserializeSetting (JObj old) = Some f" and "marshal_setting s = JObj new"
  shows "deserializeSetting (JObj (merge_settings old new)) = Some (overlay s f)"
proof -
  have new: "map_of new ''display_name'' = map_option JStr (st_display_name s)"
    "map_of new ''deployment_approve_required'' = map_option JBool (st_approve_required s)"
    "map_of new ''enable_secrets_backup'' = map_option JBool (st_secrets_backup s)"
    "map_of new ''secrets_backup_public_key'' = map_option JStr (st_public_key s)"
    "map_of new ''secrets_backup_bucket'' = map_option JStr (st_bucket s)"
    "map_of new ''secrets_backup_prefix'' = map_option JStr (st_prefix s)"
    using assms(2)
    by (auto simp: marshal_setting_def map_of_field simp del: map_of_append split: option.split)
  have old: "read_text (map_of old ''display_name'') = Some (st_display_name f)"
    "read_bool (map_of old ''deployment_approve_required'') = Some (st_approve_required f)"
    "read_bool (map_of old ''enable_secrets_backup'') = Some (st_secrets_backup f)"
    "read_text (map_of old ''secrets_backup_public_key'') = Some (st_public_key f)"
    "read_text (map_of old ''secrets_backup_bucket'') = Some (st_bucket f)"
    "read_text (map_of old ''secrets_backup_prefix'') = Some (st_prefix f)"
    using iffD1 [OF deserialize_iff assms(1)] by auto
  show ?thesis
    unfolding deserialize_iff map_of_merge_settings new overlay_def
    by (simp only: old(1,4,5,6) [THEN read_merged_text] Let_def simp_thms setting_fields.select_convs
        old(2,3) [THEN read_merged_bool])
       (auto split: option.split)
qed

lemma overlay_defaults: "with_defaults (overlay s f) = overlay s (with_defaults f)"
  by (simp add: with_defaults_def overlay_def Let_def split: option.split)

definition shown :: "db \<Rightarrow> setting_fields option" where
  "shown d = (case setting d of
     None \<Rightarrow> Some \<lparr>st_display_name = Some '''', st_approve_required = Some False,
          st_secrets_backup = Some False, st_public_key = None, st_bucket = None, st_prefix = None\<rparr>
   | Some kvs \<Rightarrow> map_option with_defaults (deserializeSetting (JObj kvs)))"

lemma GetSetting_shown:
  "GetSetting no_faults d = (case shown d of None \<Rightarrow> ServerError ''Internal server error'' | Some s \<Rightarrow> Success s)"
  by (cases "setting d")
     (auto simp: GetSetting_def SettingGetSystem_def shown_def simp del: deserializeSetting.simps split: option.splits)

lemma update_setting_result:
  assumes "UpdateSetting flt (Some s) d = (Success (), d')" and "marshal_setting s = JObj new"
  shows "setting d' = Some (merge_settings (case setting d of None \<Rightarrow> [] | Some old \<Rightarrow> old) new)"
  using assms
  by (auto simp: UpdateSetting_def SettingUpdateSystem_def Let_def run_query_def split: option.splits)

lemma shown_after_update:
  assumes "UpdateSetting flt (Some s) d = (Success (), d')" and "shown d = Some old"
  shows "shown d' = Some (overlay s old)"
proof -
  obtain new where new: "marshal_setting s = JObj new" by (simp add: marshal_setting_def)
  let ?kvs = "case setting d of None \<Rightarrow> [] | Some kvs \<Rightarrow> kvs"
  have "shown d = map_option with_defaults (deserializeSetting (JObj ?kvs))"
    by (auto simp: shown_def with_defaults_def split: option.split)
  with assms(2) obtain f where f: "deserializeSetting (JObj ?kvs) = Some f" "old = with_defaults f" by auto
  show ?thesis
    using update_setting_result [OF assms(1) new] deserialize_merged [OF f(1) new] f(2)
    by (simp add: shown_def overlay_defaults del: deserializeSetting.simps)
qed

subsection \<open>Concrete data\<close>

definition sample_create :: actor_create where
  "sample_create = \<lparr>ac_name = ''new'', ac_role = ActorRoleAgent, ac_enabled = None, ac_deployable = None,
     ac_configurable = None, ac_migratable = None, ac_mcp_enabled = None, ac_permissions = Some []\<rparr>"

definition created_actor :: actor where
  "created_actor = new_actor 50 2
     \<lparr>ai_name = ''new'', ai_queue_id = 4, ai_role = ActorRoleAgent, ai_enabled = True, ai_deployable = False,
      ai_configurable = False, ai_migratable = False, ai_mcp_enabled = False, ai_permissions = Some []\<rparr>"

definition created_db :: db where
  "created_db = sample_db\<lparr>actors := actors sample_db @ [created_actor], next_actor := 3,
     queues := queues sample_db @ [\<lparr>q_id = 4, q_name = ''new'', q_created_at = 50,
       q_metadata = JObj [(''type'', JStr ''actor'')], q_paused_at = None, q_updated_at = None\<rparr>],
     next_queue := 5\<rparr>"

lemma sample_creates: "CreateActor no_faults 50 sample_create sample_db = (Success created_actor, created_db)"
  by (simp add: CreateActor_def sample_create_def WithTxV_def create_actor_tx_def QueueInsert_def char_length_def
      sample_db_def empty_db_def flags_error_def ActorInsert_def sample_actor_def created_actor_def created_db_def
      new_actor_def Let_def)

lemma sample_deletes:
  "DeleteActor no_faults 2 created_db = (Success (), created_db\<lparr>actors := actors sample_db\<rparr>)"
  by (simp add: DeleteActor_def ActorDelete_def actor_of_def created_db_def created_actor_def new_actor_def
      sample_db_def sample_actor_def empty_db_def)

definition configured_db :: db where
  "configured_db = sample_db\<lparr>
     config_suites := [\<lparr>s_id = 1, s_active = False, s_created_by = ''ops'', s_created_at = 20,
         s_updated_by = None, s_updated_at = None, s_deployed_at = Some 30\<rparr>,
       \<lparr>s_id = 2, s_active = True, s_created_by = ''ops'', s_created_at = 40,
         s_updated_by = None, s_updated_at = None, s_deployed_at = Some 50\<rparr>],
     configs := [\<lparr>c_id = 1, c_actor_id = 1, c_config_suite_id = Some 1, c_content = smap_json [(''k'', ''old'')],
         c_min_actor_version = None, c_created_by = ''ops'', c_created_at = 20, c_updated_by = None,
         c_updated_at = None\<rparr>,
       \<lparr>c_id = 2, c_actor_id = 1, c_config_suite_id = Some 2, c_content = smap_json [(''k'', ''new'')],
         c_min_actor_version = Some [2, 0, 0], c_created_by = ''ops'', c_created_at = 40, c_updated_by = None,
         c_updated_at = None\<rparr>]\<rparr>"

subsection \<open>Properties\<close>

text \<open>The name of a deleted actor is never free again: its queue stays behind, and creating an actor of
  the same name after the deletion is refused and changes nothing, whatever else the request says.
\<close>
lemma deleted_actor_name_stays_taken:
  assumes "CreateActor flt now req d = (Success a, d1)"
    and "DeleteActor flt' (a_id a) d1 = (Success (), d2)"
    and "ac_name again = ac_name req"
  shows "snd (CreateActor flt'' now' again d2) = d2 \<and>
    (\<forall>b. fst (CreateActor flt'' now' again d2) \<noteq> Success b)"
proof (rule create_needs_free_queue_name [OF _ assms(3)])
  show "ac_name req \<in> q_name ` set (queues d2)"
    using create_actor_success [OF assms(1)] delete_actor_queues [OF assms(2)] by force
qed

text \<open>C24.
  An authenticated actor is served its right config: among its configs of deployed suites whose
  minimum version it meets, one of the active suite if there is any, and then the newest; without
  such a config the answer is 404.
\<close>
theorem config_for_actor:
  assumes "ver = None \<or> DeserializeActorVersion ver \<noteq> None"
  shows "if \<exists>c. candidate d (k_actor_id tk) (DeserializeActorVersion ver) c
    then \<exists>c. served d (k_actor_id tk) (DeserializeActorVersion ver) c \<and>
      GetActorConfig no_faults (Some tk) ver d = parseConfigsAndReturn (c_content c)
    else GetActorConfig no_faults (Some tk) ver d = NotFound"
proof -
  let ?v = "DeserializeActorVersion ver"
  have guard: "\<not> (?v = None \<and> ver \<noteq> None)" using assms by auto
  show ?thesis
  proof (cases "last_by_id (suite_configs True (k_actor_id tk) ?v d)")
    case (Some c)
    from served_active [OF this] Some guard show ?thesis
      by (auto simp: GetActorConfig_def ConfigActorActiveConfig_def served_def Let_def)
  next
    case act: None
    show ?thesis
    proof (cases "last_by_id (suite_configs False (k_actor_id tk) ?v d)")
      case (Some c)
      from served_retired [OF act this] Some act guard show ?thesis
        by (auto simp: GetActorConfig_def ConfigActorActiveConfig_def
            ConfigActorRetiredAndVersionCompatibleConfig_def served_def Let_def)
    next
      case None
      from none_served [OF act this] None act guard show ?thesis
        by (auto simp: GetActorConfig_def ConfigActorActiveConfig_def
            ConfigActorRetiredAndVersionCompatibleConfig_def Let_def)
    qed
  qed
qed

theorem config_for_actor_witness:
  "\<exists>c. served configured_db 1 None c \<and>
     GetActorConfig no_faults (Some sample_token_view) None configured_db = parseConfigsAndReturn (c_content c)"
proof -
  have v: "DeserializeActorVersion None = None" by (simp add: DeserializeActorVersion_def)
  have k: "k_actor_id sample_token_view = 1" by (simp add: sample_token_view_def)
  have "candidate configured_db 1 None (configs configured_db ! 0)"
    by (simp add: candidate_def configured_db_def version_ok_def suite_in_use_def suite_of_def actor_of_def
        sample_db_def sample_actor_def)
  moreover have "(None :: string option) = None \<or> DeserializeActorVersion None \<noteq> None" by simp
  ultimately show ?thesis
    using config_for_actor [of None configured_db sample_token_view] unfolding v k by (auto split: if_splits)
qed

text \<open>Updating the settings and reading them back shows every field that was sent with its new value
  and every other field as it was shown before.
\<close>
lemma updated_settings_read_back:
  assumes "UpdateSetting flt (Some s) d = (Success (), d')" and "GetSetting no_faults d = Success old"
  shows "GetSetting no_faults d' = Success (overlay s old)"
proof -
  have "shown d = Some old"
    using assms(2) by (auto simp: GetSetting_shown split: option.splits)
  from shown_after_update [OF assms(1) this] show ?thesis by (simp add: GetSetting_shown)
qed

end
