(* ===== verification/Migrator.thy ===== *)
theory Migrator
  imports Go_Text Maos_Prelude "HOL-Library.Multiset"
begin

text \<open>
  The schema migrator of \<^verbatim>\<open>migrate/maos_migrate.go\<close> with the statements of \<^verbatim>\<open>migration.sql.go\<close>.
  Running a migration script is the parameter \<open>exec\<close>: it fails and changes nothing, or gives the
  next database. Of the database the model sees the rows of \<^verbatim>\<open>_migration\<close> (\<open>None\<close> when the table is
  missing) and leaves the rest as \<open>tables\<close>. Durations are not kept. Go maps are association lists.
\<close>

record Migration =
  SQLDown :: string
  SQLUp :: string
  Version :: int

record 'w mdb =
  migration_rows :: "int list option"
  tables :: 'w

type_synonym 'w script_runner = "string \<Rightarrow> 'w mdb \<Rightarrow> string + 'w mdb"

record MigrateOpts =
  DryRun :: bool
  MaxSteps :: int
  TargetVersion :: int

record MigrateVersion =
  mv_sql :: string
  mv_version :: int

record MigrateResult =
  mr_direction :: string
  mr_versions :: "MigrateVersion list"

definition DirectionDown :: string where "DirectionDown = ''down''"
definition DirectionUp :: string where "DirectionUp = ''up''"

text \<open>The errors the migrator wraps, with the text of the underlying one.\<close>

datatype migrate_error =
  CannotCheckTable string
| CannotGetMigrations string
| NotAValidVersion int
| NotInTargetList int
| CannotApply int string string
| CannotInsertRows string
| CannotDeleteRows string

subsection \<open>Statements\<close>

definition relation_missing :: pgerr where
  "relation_missing = DbError ''relation _migration does not exist''"

definition TableExists :: "'w mdb \<Rightarrow> (pgerr + bool) \<times> 'w mdb" where
  "TableExists d = (Inr (migration_rows d \<noteq> None), d)"

definition MigrationGetAll :: "'w mdb \<Rightarrow> (pgerr + int list) \<times> 'w mdb" where
  "MigrationGetAll d =
     (case migration_rows d of None \<Rightarrow> (Inl relation_missing, d) | Some vs \<Rightarrow> (Inr (sort vs), d))"

text \<open>Versions are positive and unique.\<close>

definition MigrationInsertMany :: "int list \<Rightarrow> 'w mdb \<Rightarrow> (pgerr + int list) \<times> 'w mdb" where
  "MigrationInsertMany vs d =
     (case migration_rows d of
        None \<Rightarrow> (Inl relation_missing, d)
      | Some rows \<Rightarrow>
          if list_all (\<lambda>v. 1 \<le> v) vs \<and> distinct (rows @ vs)
          then (Inr vs, d\<lparr>migration_rows := Some (rows @ vs)\<rparr>)
          else (Inl (DbError ''violates constraint of _migration''), d))"

definition MigrationInsert :: "int \<Rightarrow> 'w mdb \<Rightarrow> (pgerr + int) \<times> 'w mdb" where
  "MigrationInsert v d =
     (case MigrationInsertMany [v] d of (Inl e, d1) \<Rightarrow> (Inl e, d1) | (Inr vs, d1) \<Rightarrow> (Inr (hd vs), d1))"

definition MigrationDeleteByVersionMany :: "int list \<Rightarrow> 'w mdb \<Rightarrow> (pgerr + int list) \<times> 'w mdb" where
  "MigrationDeleteByVersionMany vs d =
     (case migration_rows d of
        None \<Rightarrow> (Inl relation_missing, d)
      | Some rows \<Rightarrow> (Inr (filter (\<lambda>v. v \<in> set vs) rows),
          d\<lparr>migration_rows := Some (filter (\<lambda>v. v \<notin> set vs) rows)\<rparr>))"

lemmas migration_statements [query_simps] =
  TableExists_def MigrationGetAll_def MigrationInsertMany_def MigrationDeleteByVersionMany_def

subsection \<open>Known migrations\<close>

definition AllVersions :: "(int \<times> Migration) list \<Rightarrow> Migration list" where
  "AllVersions migs = sort_key Version (map snd migs)"

definition GetVersion :: "(int \<times> Migration) list \<Rightarrow> int \<Rightarrow> int list + Migration" where
  "GetVersion migs v = (case map_of migs v of None \<Rightarrow> Inl (sort (map fst migs)) | Some m \<Rightarrow> Inr m)"

text \<open>The bundles the walk has built; a file goes to the last one if its version is the same.\<close>

definition last_bundle :: "int \<Rightarrow> Migration list \<Rightarrow> Migration list" where
  "last_bundle v bundles =
     (if bundles = [] \<or> Version (last bundles) \<noteq> v
      then bundles @ [\<lparr>SQLDown = '''', SQLUp = '''', Version = v\<rparr>] else bundles)"

fun walk_files :: "(string \<times> string option) list \<Rightarrow> Migration list \<Rightarrow> string + Migration list" where
  "walk_files [] bundles = Inr bundles"
| "walk_files ((name, content) # files) bundles =
     (case Atoi (Cut_before CHR ''_'' name) of
        None \<Rightarrow> Inl ''error parsing version''
      | Some v \<Rightarrow>
          (let bs = last_bundle v bundles; b = last bs in
           case content of
             None \<Rightarrow> Inl ''error reading file''
           | Some text \<Rightarrow>
               if HasSuffix name ''.down.sql'' then walk_files files (butlast bs @ [b\<lparr>SQLDown := text\<rparr>])
               else if HasSuffix name ''.up.sql'' then walk_files files (butlast bs @ [b\<lparr>SQLUp := text\<rparr>])
               else Inl ''file should end with either .down.sql or .up.sql''))"

text \<open>The files come in lexical order, as \<^verbatim>\<open>fs.WalkDir\<close> promises; a content is absent when unreadable.\<close>

definition migrationsFromFS :: "(string \<times> string option) list \<Rightarrow> string + Migration list" where
  "migrationsFromFS files = walk_files files []"

definition mustMigrationsFromFS :: "(string \<times> string option) list \<Rightarrow> Migration list outcome" where
  "mustMigrationsFromFS files =
     (case migrationsFromFS files of Inl e \<Rightarrow> Panic e | Inr bundles \<Rightarrow> Return bundles)"

fun init_loop :: "Migration list \<Rightarrow> int \<Rightarrow> (int \<times> Migration) list \<Rightarrow> (int \<times> Migration) list outcome" where
  "init_loop [] lastVersion migs = Return migs"
| "init_loop (b # bs) lastVersion migs =
     (if SQLDown b = '''' then Panic ''version bundle should specify Down''
      else if SQLUp b = '''' then Panic ''version bundle should specify Up''
      else if Version b = 0 then Panic ''version bundle should specify Version''
      else if map_of migs (Version b) \<noteq> None then Panic ''duplicate version''
      else if Version b \<le> lastVersion then Panic ''versions should be ascending''
      else if Version b > lastVersion + 1 then Panic ''versions should not skip a sequence number''
      else init_loop bs (Version b) (migs @ [(Version b, b)]))"

definition ValidateAndInit :: "Migration list \<Rightarrow> (int \<times> Migration) list outcome" where
  "ValidateAndInit versions = init_loop versions 0 []"

subsection \<open>Migrating\<close>

definition existingMigrations :: "faults \<Rightarrow> 'w mdb \<Rightarrow> migrate_error + int list" where
  "existingMigrations flt d =
     (case fst (run_query flt 0 TableExists d) of
        Inl e \<Rightarrow> Inl (CannotCheckTable (err_text e))
      | Inr False \<Rightarrow> Inr []
      | Inr True \<Rightarrow>
          (case fst (run_query flt 1 MigrationGetAll d) of
             Inl e \<Rightarrow> Inl (CannotGetMigrations (err_text e))
           | Inr vs \<Rightarrow> Inr vs))"

definition script :: "string \<Rightarrow> Migration \<Rightarrow> string" where
  "script direction b =
     (if direction = DirectionDown then SQLDown b else if direction = DirectionUp then SQLUp b else '''')"

fun apply_steps ::
    "'w script_runner \<Rightarrow> string \<Rightarrow> bool \<Rightarrow> Migration list \<Rightarrow> 'w mdb
      \<Rightarrow> (migrate_error + MigrateVersion list) \<times> 'w mdb" where
  "apply_steps exec direction dry [] d = (Inr [], d)"
| "apply_steps exec direction dry (b # bs) d =
     (let step = \<lparr>mv_sql = script direction b, mv_version = Version b\<rparr>;
          rest = (\<lambda>d1. case apply_steps exec direction dry bs d1 of
            (Inl e, d2) \<Rightarrow> (Inl e, d2) | (Inr vs, d2) \<Rightarrow> (Inr (step # vs), d2))
      in if dry then rest d
         else case exec (script direction b) d of
           Inl e \<Rightarrow> (Inl (CannotApply (Version b) direction e), d)
         | Inr d1 \<Rightarrow> rest d1)"

text \<open>The number of steps (0 for no limit) and the list it leaves.\<close>

definition step_limit :: "string \<Rightarrow> MigrateOpts \<Rightarrow> int" where
  "step_limit direction opts =
     (if MaxSteps opts \<noteq> 0 then MaxSteps opts
      else if direction = DirectionDown \<and> TargetVersion opts = 0 then 1 else 0)"

definition limited :: "int \<Rightarrow> 'a list \<Rightarrow> 'a list" where
  "limited maxSteps xs =
     (if maxSteps < 0 then [] else if maxSteps > 0 then take (nat maxSteps) xs else xs)"

text \<open>The list up to the target; going down the target itself stays.\<close>

definition up_to_target ::
    "(int \<times> Migration) list \<Rightarrow> string \<Rightarrow> int \<Rightarrow> Migration list \<Rightarrow> migrate_error + Migration list" where
  "up_to_target migs direction target bs =
     (if target > 0 then
        if map_of migs target = None then Inl (NotAValidVersion target)
        else if list_ex (\<lambda>b. Version b = target) bs then
          (let upto = takeWhile (\<lambda>b. Version b \<noteq> target) bs
           in Inr (if direction = DirectionDown then upto
                   else upto @ [the (find (\<lambda>b. Version b = target) bs)]))
        else Inl (NotInTargetList target)
      else Inr bs)"

definition default_opts :: MigrateOpts where
  "default_opts = \<lparr>DryRun = False, MaxSteps = 0, TargetVersion = 0\<rparr>"

definition applyMigrations ::
    "'w script_runner \<Rightarrow> (int \<times> Migration) list \<Rightarrow> string \<Rightarrow> MigrateOpts option \<Rightarrow> Migration list \<Rightarrow> 'w mdb
      \<Rightarrow> (migrate_error + MigrateResult) \<times> 'w mdb" where
  "applyMigrations exec migs direction o0 targets d =
     (let opts = from_ptr_or o0 default_opts in
      case up_to_target migs direction (TargetVersion opts) (limited (step_limit direction opts) targets) of
        Inl e \<Rightarrow> (Inl e, d)
      | Inr bs \<Rightarrow>
          (case apply_steps exec direction (DryRun opts) bs d of
             (Inl e, d1) \<Rightarrow> (Inl e, d1)
           | (Inr vs, d1) \<Rightarrow> (Inr \<lparr>mr_direction = direction, mr_versions = vs\<rparr>, d1)))"

definition migrateDown ::
    "'w script_runner \<Rightarrow> faults \<Rightarrow> (int \<times> Migration) list \<Rightarrow> MigrateOpts option \<Rightarrow> 'w mdb
      \<Rightarrow> (migrate_error + MigrateResult) outcome \<times> 'w mdb" where
  "migrateDown exec flt migs opts d =
     (case existingMigrations flt d of
        Inl e \<Rightarrow> (Return (Inl e), d)
      | Inr existing \<Rightarrow>
          (let targets = map snd (filter (\<lambda>(v, _). v \<in> set existing) migs) in
           case applyMigrations exec migs DirectionDown opts (sort_key (\<lambda>b. - Version b) targets) d of
             (Inl e, d1) \<Rightarrow> (Return (Inl e), d1)
           | (Inr res, d1) \<Rightarrow>
               if mr_versions res = [] \<or> list_ex (\<lambda>v. mv_version v = 1) (mr_versions res)
               then (Return (Inr res), d1)
               else (case opts of
                  None \<Rightarrow> (nil_panic, d1)
                | Some os \<Rightarrow>
                    if DryRun os then (Return (Inr res), d1)
                    else (case run_query flt 2
                        (MigrationDeleteByVersionMany (map mv_version (mr_versions res))) d1 of
                       (Inl e, d2) \<Rightarrow> (Return (Inl (CannotDeleteRows (err_text e))), d2)
                     | (Inr _, d2) \<Rightarrow> (Return (Inr res), d2)))))"

definition migrateUp ::
    "'w script_runner \<Rightarrow> faults \<Rightarrow> (int \<times> Migration) list \<Rightarrow> MigrateOpts option \<Rightarrow> 'w mdb
      \<Rightarrow> (migrate_error + MigrateResult) outcome \<times> 'w mdb" where
  "migrateUp exec flt migs opts d =
     (case existingMigrations flt d of
        Inl e \<Rightarrow> (Return (Inl e), d)
      | Inr existing \<Rightarrow>
          (let targets = map snd (filter (\<lambda>(v, _). v \<notin> set existing) migs) in
           case applyMigrations exec migs DirectionUp opts (sort_key Version targets) d of
             (Inl e, d1) \<Rightarrow> (Return (Inl e), d1)
           | (Inr res, d1) \<Rightarrow>
               if opts = None \<or> \<not> DryRun (the opts) then
                 (case run_query flt 2 (MigrationInsertMany (map mv_version (mr_versions res))) d1 of
                    (Inl e, d2) \<Rightarrow> (Return (Inl (CannotInsertRows (err_text e))), d2)
                  | (Inr _, d2) \<Rightarrow> (Return (Inr res), d2))
               else (Return (Inr res), d1)))"

definition Migrate ::
    "'w script_runner \<Rightarrow> faults \<Rightarrow> (int \<times> Migration) list \<Rightarrow> string \<Rightarrow> MigrateOpts option \<Rightarrow> 'w mdb
      \<Rightarrow> (migrate_error + MigrateResult) outcome \<times> 'w mdb" where
  "Migrate exec flt migs direction opts d =
     (if direction = DirectionDown then migrateDown exec flt migs opts d
      else if direction = DirectionUp then migrateUp exec flt migs opts d
      else (Panic (''invalid direction: '' @ direction), d))"

subsection \<open>What the known migrations are\<close>

text \<open>Numbered without gaps from one, both scripts present.\<close>

definition numbered :: "int \<Rightarrow> (int \<times> Migration) list \<Rightarrow> bool" where
  "numbered n migs \<longleftrightarrow>
     distinct (map fst migs) \<and> set (map fst migs) = {1..n} \<and> (\<forall>(v, b) \<in> set migs. Version b = v)"

definition complete_bundle :: "Migration \<Rightarrow> bool" where
  "complete_bundle b \<longleftrightarrow> SQLDown b \<noteq> '''' \<and> SQLUp b \<noteq> ''''"

lemma init_loop_bundle:
  assumes "0 \<le> k" and "map fst migs = [1..k]"
  shows "init_loop (b # bs) k migs =
    (if complete_bundle b \<and> Version b = k + 1 then init_loop bs (k + 1) (migs @ [(k + 1, b)])
     else init_loop (b # bs) k migs)"
    and "\<not> panics (init_loop (b # bs) k migs) \<Longrightarrow> complete_bundle b \<and> Version b = k + 1"
proof -
  have "map_of migs (k + 1) = None"
    using assms by (simp add: map_of_eq_None_iff flip: set_map)
  then show "init_loop (b # bs) k migs =
    (if complete_bundle b \<and> Version b = k + 1 then init_loop bs (k + 1) (migs @ [(k + 1, b)])
     else init_loop (b # bs) k migs)"
    using assms(1) by (simp add: complete_bundle_def)
  show "complete_bundle b \<and> Version b = k + 1" if "\<not> panics (init_loop (b # bs) k migs)"
    using that assms(1) by (auto simp: complete_bundle_def split: if_splits)
qed

lemma upto_length_Cons: "[k + 1..k + int (length (b # bs))] = (k + 1) # [k + 1 + 1..k + 1 + int (length bs)]"
  by (subst upto_rec1) (simp_all add: algebra_simps)

lemma init_loop_accepts:
  assumes "0 \<le> k" and "map fst migs = [1..k]" and "map Version bs = [k + 1..k + int (length bs)]"
    and "list_all complete_bundle bs"
  shows "init_loop bs k migs = Return (migs @ map (\<lambda>b. (Version b, b)) bs)"
  using assms
proof (induction bs arbitrary: k migs)
  case (Cons b bs)
  have "Version b = k + 1" "map Version bs = [k + 1 + 1..k + 1 + int (length bs)]"
    using Cons.prems(3) unfolding upto_length_Cons by simp_all
  moreover have "map fst (migs @ [(k + 1, b)]) = [1..k + 1]"
    using Cons.prems(1,2) by (simp add: upto_rec2 [of 1 "k + 1"])
  ultimately show ?case
    using Cons.IH [of "k + 1" "migs @ [(k + 1, b)]"] Cons.prems init_loop_bundle(1) [OF Cons.prems(1,2), of b bs]
    by simp
qed simp

lemma init_loop_panics:
  assumes "0 \<le> k" and "map fst migs = [1..k]" and "\<not> panics (init_loop bs k migs)"
  shows "map Version bs = [k + 1..k + int (length bs)] \<and> list_all complete_bundle bs"
  using assms
proof (induction bs arbitrary: k migs)
  case (Cons b bs)
  have b: "complete_bundle b \<and> Version b = k + 1"
    by (rule init_loop_bundle(2) [OF Cons.prems])
  moreover have "map fst (migs @ [(k + 1, b)]) = [1..k + 1]"
    using Cons.prems(1,2) by (simp add: upto_rec2 [of 1 "k + 1"])
  moreover have "\<not> panics (init_loop bs (k + 1) (migs @ [(k + 1, b)]))"
    using Cons.prems(3) init_loop_bundle(1) [OF Cons.prems(1,2), of b bs] b by (simp del: init_loop.simps)
  ultimately show ?case
    using Cons.IH [of "k + 1" "migs @ [(k + 1, b)]"] Cons.prems(1) unfolding upto_length_Cons by simp
qed simp

lemma numbered_enumerate: "map Version bs = [1..n] \<Longrightarrow> numbered n (map (\<lambda>b. (Version b, b)) bs)"
  by (auto simp: numbered_def o_def)

subsection \<open>What a migration run does to the version\<close>

text \<open>
  The abstract migrator knows one number, the versions up to which are applied. \<open>plan\<close> gives the
  versions a run applies, in order; \<open>None\<close> is a refused request.
\<close>

definition recorded :: "int \<Rightarrow> 'w mdb \<Rightarrow> bool" where
  "recorded k d \<longleftrightarrow>
     (if k = 0 then migration_rows d = None
      else 0 < k \<and> (\<exists>vs. migration_rows d = Some vs \<and> distinct vs \<and> set vs = {1..k}))"

definition pending :: "string \<Rightarrow> int \<Rightarrow> int \<Rightarrow> int list" where
  "pending direction k n = (if direction = DirectionDown then rev [1..k] else [k + 1..n])"

definition plan :: "string \<Rightarrow> MigrateOpts \<Rightarrow> int \<Rightarrow> int \<Rightarrow> int list option" where
  "plan direction opts k n =
     (let vs = limited (step_limit direction opts) (pending direction k n); t = TargetVersion opts in
      if t > 0 then
        if t \<in> set vs
        then Some (takeWhile (\<lambda>v. v \<noteq> t) vs @ (if direction = DirectionDown then [] else [t]))
        else None
      else if direction = DirectionUp \<and> k = 0 \<and> vs = [] then None
      else Some vs)"

definition version_after :: "string \<Rightarrow> int \<Rightarrow> int list \<Rightarrow> int" where
  "version_after direction k vs =
     (if direction = DirectionDown then k - int (length vs) else k + int (length vs))"

fun run_scripts :: "'w script_runner \<Rightarrow> string list \<Rightarrow> 'w mdb \<Rightarrow> string option \<times> 'w mdb" where
  "run_scripts exec [] d = (None, d)"
| "run_scripts exec (s # ss) d =
     (case exec s d of Inl e \<Rightarrow> (Some e, d) | Inr d1 \<Rightarrow> run_scripts exec ss d1)"

text \<open>
  The laws of the scripts: the first creates the table \<^verbatim>\<open>_migration\<close> and its reverse drops it, no
  other script touches its rows.
\<close>

definition script_laws :: "'w script_runner \<Rightarrow> (int \<times> Migration) list \<Rightarrow> bool" where
  "script_laws exec migs \<longleftrightarrow>
     (\<forall>(v, b) \<in> set migs. \<forall>d d'.
        (exec (SQLUp b) d = Inr d' \<longrightarrow> migration_rows d' = (if v = 1 then Some [] else migration_rows d)) \<and>
        (exec (SQLDown b) d = Inr d' \<longrightarrow> migration_rows d' = (if v = 1 then None else migration_rows d)))"

definition bundle_at :: "(int \<times> Migration) list \<Rightarrow> int \<Rightarrow> Migration" where
  "bundle_at migs v = the (map_of migs v)"

lemma DirectionUp_not_Down [simp]: "DirectionUp \<noteq> DirectionDown" "DirectionDown \<noteq> DirectionUp"
  by (simp_all add: DirectionUp_def DirectionDown_def)

lemma bundle_at_version:
  assumes "numbered n migs" and "v \<in> {1..n}"
  shows "(v, bundle_at migs v) \<in> set migs" and "Version (bundle_at migs v) = v"
proof -
  have "v \<in> fst ` set migs" using assms by (simp add: numbered_def)
  then obtain b where b: "map_of migs v = Some b" by (metis map_of_eq_None_iff option.exhaust)
  then show "(v, bundle_at migs v) \<in> set migs" by (simp add: bundle_at_def map_of_SomeD)
  with assms(1) show "Version (bundle_at migs v) = v" by (auto simp: numbered_def)
qed

lemma bundles_of:
  assumes "numbered n migs" and "S \<subseteq> {1..n}"
  shows "set (map snd (filter (\<lambda>(v, _). v \<in> S) migs)) = bundle_at migs ` S"
proof (intro equalityI subsetI)
  fix b
  assume "b \<in> set (map snd (filter (\<lambda>(v, _). v \<in> S) migs))"
  then obtain v where v: "(v, b) \<in> set migs" "v \<in> S" by auto
  then have "map_of migs v = Some b" using assms(1) by (simp add: numbered_def map_of_is_SomeI)
  with v(2) show "b \<in> bundle_at migs ` S" by (force simp: bundle_at_def)
next
  fix b
  assume "b \<in> bundle_at migs ` S"
  then obtain v where "v \<in> S" "b = bundle_at migs v" by auto
  with bundle_at_version(1) [OF assms(1), of v] assms(2)
  show "b \<in> set (map snd (filter (\<lambda>(v, _). v \<in> S) migs))" by force
qed

lemma numbered_versions:
  assumes "numbered n migs"
  shows "map Version (map snd (filter (\<lambda>(v, _). v \<in> S) migs)) = filter (\<lambda>v. v \<in> S) (map fst migs)"
proof -
  have "\<forall>(v, b) \<in> set migs. Version b = v" using assms by (simp add: numbered_def)
  then show ?thesis by (induction migs) auto
qed

lemma sorted_bundles:
  assumes "numbered n migs" and "S \<subseteq> {1..n}" and "set vs = S" and "distinct vs" and "sorted (map g vs)"
    and "\<And>b. f b = g (Version b)" and "inj g"
  shows "sort_key f (map snd (filter (\<lambda>(v, _). v \<in> S) migs)) = map (bundle_at migs) vs"
    (is "sort_key f ?bs = ?r")
proof -
  have ver: "map Version ?r = vs"
    using assms(2,3) bundle_at_version(2) [OF assms(1)] by (auto simp: o_def intro!: map_idI)
  have keys: "map f xs = map g (map Version xs)" for xs using assms(6) by simp
  have dv: "distinct (map Version ?bs)"
    unfolding numbered_versions [OF assms(1)] using assms(1) by (simp add: numbered_def)
  have d: "distinct (map f xs)" if "distinct (map Version xs)" for xs
    unfolding keys using that inj_on_subset [OF assms(7)] by (simp only: distinct_map) simp
  have elems: "set ?bs = set ?r" unfolding bundles_of [OF assms(1,2)] using assms(3) by simp
  show ?thesis
  proof (rule map_sorted_distinct_set_unique [of f])
    show "inj_on f (set (sort_key f ?bs) \<union> set ?r)"
    proof -
      have "inj_on f (set ?bs)" using d [OF dv] unfolding distinct_map by (rule conjunct2)
      then show ?thesis by (simp only: set_sort elems Un_absorb)
    qed
    show "distinct (map f (sort_key f ?bs))"
      using d [OF dv] by (simp only: distinct_map distinct_sort set_sort)
    show "sorted (map f ?r)" unfolding keys ver by (rule assms(5))
    show "distinct (map f ?r)" by (rule d) (simp only: ver assms(4))
  qed (simp_all only: set_sort elems sorted_sort_key)
qed

lemma existing_recorded:
  assumes "recorded k d"
  obtains vs where "existingMigrations no_faults d = Inr vs" "set vs = {1..k}"
  using assms
  by (cases "k = 0") (auto simp: recorded_def existingMigrations_def TableExists_def MigrationGetAll_def)

lemma targets_down:
  assumes "numbered n migs" and "k \<le> n" and "set existing = {1..k}"
  shows "sort_key (\<lambda>b. - Version b) (map snd (filter (\<lambda>(v, _). v \<in> set existing) migs)) =
    map (bundle_at migs) (pending DirectionDown k n)"
proof -
  have "sorted (map uminus (rev [1..k]))" by (simp add: rev_map [symmetric] sorted_wrt_rev sorted_wrt_map)
  then show ?thesis
    unfolding assms(3) pending_def
    using assms(1,2) sorted_bundles [of n migs "{1..k}" "rev [1..k]" uminus "\<lambda>b. - Version b"] by simp
qed

lemma targets_up:
  assumes "numbered n migs" and "0 \<le> k" and "set existing = {1..k}"
  shows "sort_key Version (map snd (filter (\<lambda>(v, _). v \<notin> set existing) migs)) =
    map (bundle_at migs) (pending DirectionUp k n)"
proof -
  have "filter (\<lambda>(v, _). v \<notin> set existing) migs = filter (\<lambda>(v, _). v \<in> {k + 1..n}) migs"
    using assms by (intro filter_cong) (force simp: numbered_def)+
  then show ?thesis
    unfolding pending_def
    using assms(1,2) sorted_bundles [of n migs "{k + 1..n}" "[k + 1..n]" id Version] by simp
qed

lemma limited_map: "limited m (map f xs) = map f (limited m xs)"
  by (simp add: limited_def take_map)

lemma limited_prefix: "\<exists>i. limited m xs = take i xs"
  by (auto simp: limited_def intro: exI [of _ 0] exI [of _ "length xs"])

lemma up_to_target_bundles:
  assumes "numbered n migs" and "set vs \<subseteq> {1..n}" and "0 < t"
  shows "up_to_target migs direction t (map (bundle_at migs) vs) =
    (if t \<in> set vs
     then Inr (map (bundle_at migs) (takeWhile (\<lambda>v. v \<noteq> t) vs @ (if direction = DirectionDown then [] else [t])))
     else Inl (if t \<in> {1..n} then NotInTargetList t else NotAValidVersion t))"
proof -
  have known: "map_of migs t = None \<longleftrightarrow> t \<notin> {1..n}"
    using assms(1) by (simp add: numbered_def map_of_eq_None_iff flip: set_map)
  have ver: "Version (bundle_at migs v) = v" if "v \<in> set vs" for v
    using that assms(2) bundle_at_version(2) [OF assms(1)] by blast
  have "list_ex (\<lambda>b. Version b = t) (map (bundle_at migs) vs) \<longleftrightarrow> t \<in> set vs"
    using ver by (auto simp: list_ex_iff)
  moreover have "takeWhile (\<lambda>b. Version b \<noteq> t) (map (bundle_at migs) vs) = map (bundle_at migs) (takeWhile (\<lambda>v. v \<noteq> t) vs)"
    using ver by (induction vs) auto
  moreover have "find (\<lambda>b. Version b = t) (map (bundle_at migs) vs) = Some (bundle_at migs t)" if "t \<in> set vs"
    using that ver by (induction vs) auto
  ultimately show ?thesis
    using assms(2,3) known by (auto simp: up_to_target_def Let_def)
qed

definition step_of :: "string \<Rightarrow> Migration \<Rightarrow> MigrateVersion" where
  "step_of direction b = \<lparr>mv_sql = script direction b, mv_version = Version b\<rparr>"

lemma apply_steps_scripts:
  "run_scripts exec (map (script direction) bs) d = (None, d1) \<Longrightarrow>
     apply_steps exec direction False bs d = (Inr (map (step_of direction) bs), d1)"
  "run_scripts exec (map (script direction) bs) d = (Some e, d1) \<Longrightarrow>
     \<exists>x. apply_steps exec direction False bs d = (Inl x, d1)"
  by (induction bs arbitrary: d) (fastforce simp: step_of_def Let_def split: sum.splits prod.splits)+

lemma rows_after_scripts:
  assumes "script_laws exec migs" and "\<forall>v \<in> set vs. (v, bundle_at migs v) \<in> set migs"
    and "direction = DirectionUp \<or> direction = DirectionDown"
    and "run_scripts exec (map (script direction) (map (bundle_at migs) vs)) d = (None, d1)"
  shows "migration_rows d1 =
    (if 1 \<in> set vs then (if direction = DirectionUp then Some [] else None) else migration_rows d)"
  using assms(2,4)
proof (induction vs arbitrary: d)
  case (Cons v vs)
  then obtain d2 where d2: "exec (script direction (bundle_at migs v)) d = Inr d2"
    "run_scripts exec (map (script direction) (map (bundle_at migs) vs)) d2 = (None, d1)"
    by (auto split: sum.splits)
  have "migration_rows d2 = (if v = 1 then (if direction = DirectionUp then Some [] else None) else migration_rows d)"
    using assms(1,3) Cons.prems(1) d2(1) by (fastforce simp: script_laws_def script_def)
  moreover have "migration_rows d1 =
      (if 1 \<in> set vs then (if direction = DirectionUp then Some [] else None) else migration_rows d2)"
    using Cons.IH Cons.prems(1) d2(2) by simp
  ultimately show ?case by auto
qed simp

lemma take_upto:
  assumes "i \<le> length [a..b]"
  shows "take i [a..b] = [a..a + int i - 1]"
proof (rule nth_equalityI)
  show "length (take i [a..b]) = length [a..a + int i - 1]" using assms by simp
  show "take i [a..b] ! j = [a..a + int i - 1] ! j" if "j < length (take i [a..b])" for j
  proof -
    have j: "j < i" "a + int j \<le> b" using that assms by (auto split: if_splits)
    then show ?thesis by (simp add: nth_upto)
  qed
qed

lemma take_rev_upto:
  assumes "i \<le> length [1..k]"
  shows "take i (rev [1..k]) = rev [k - int i + 1..k]"
proof -
  have "drop (length [1..k] - i) [1..k] = [k - int i + 1..k]"
  proof (rule nth_equalityI)
    show "length (drop (length [1..k] - i) [1..k]) = length [k - int i + 1..k]" using assms by simp
    show "drop (length [1..k] - i) [1..k] ! j = [k - int i + 1..k] ! j"
      if "j < length (drop (length [1..k] - i) [1..k])" for j
    proof -
      have j: "j < i" "int i \<le> k" using that assms by (auto split: if_splits)
      then show ?thesis by (simp add: nth_upto of_nat_diff nat_add_distrib)
    qed
  qed
  then show ?thesis by (simp add: take_rev)
qed

lemma plan_is_prefix:
  assumes "plan direction opts k n = Some vs"
  shows "length vs \<le> length (pending direction k n) \<and> take (length vs) (pending direction k n) = vs"
proof -
  obtain i where i: "limited (step_limit direction opts) (pending direction k n) = take i (pending direction k n)"
    using limited_prefix by blast
  have "\<exists>j. vs = take j (pending direction k n)"
  proof (cases "TargetVersion opts > 0")
    case True
    let ?t = "TargetVersion opts" and ?l = "take i (pending direction k n)"
    have mem: "?t \<in> set ?l"
      and vs: "vs = takeWhile (\<lambda>v. v \<noteq> ?t) ?l @ (if direction = DirectionDown then [] else [?t])"
      using assms True i by (auto simp: plan_def Let_def split: if_splits)
    have "dropWhile (\<lambda>v. v \<noteq> ?t) ?l \<noteq> []" using mem by (auto simp: dropWhile_eq_Nil_conv)
    then obtain r where "dropWhile (\<lambda>v. v \<noteq> ?t) ?l = ?t # r"
      by (metis (mono_tags, lifting) hd_dropWhile list.collapse)
    then have l: "?l = takeWhile (\<lambda>v. v \<noteq> ?t) ?l @ ?t # r"
      using takeWhile_dropWhile_id [of "\<lambda>v. v \<noteq> ?t" ?l] by simp
    then have "\<exists>r'. ?l = vs @ r'" unfolding vs by auto
    then have "vs = take (length vs) ?l" by (metis append_eq_conv_conj)
    then show ?thesis by (metis take_take)
  next
    case False
    with assms have "vs = limited (step_limit direction opts) (pending direction k n)"
      by (auto simp: plan_def Let_def split: if_splits)
    with i show ?thesis by (intro exI [of _ i]) simp
  qed
  then obtain j where "vs = take j (pending direction k n)" by blast
  then show ?thesis by (auto simp: min_def)
qed

lemma plan_range:
  assumes "plan direction opts k n = Some vs" and "0 \<le> k" and "k \<le> n"
  shows "direction = DirectionDown \<Longrightarrow> int (length vs) \<le> k \<and> vs = rev [k - int (length vs) + 1..k]"
    and "direction \<noteq> DirectionDown \<Longrightarrow> k + int (length vs) \<le> n \<and> vs = [k + 1..k + int (length vs)]"
proof -
  note i = plan_is_prefix [OF assms(1)]
  show "int (length vs) \<le> k \<and> vs = rev [k - int (length vs) + 1..k]" if "direction = DirectionDown"
  proof -
    have p: "pending direction k n = rev [1..k]" using that by (simp add: pending_def)
    have len: "length vs \<le> length [1..k]" using i unfolding p by simp
    have "vs = rev [k - int (length vs) + 1..k]"
      using i unfolding p take_rev_upto [OF len] by (rule sym [OF conjunct2])
    moreover have "int (length vs) \<le> k" using len assms(2) by simp
    ultimately show ?thesis by blast
  qed
  show "k + int (length vs) \<le> n \<and> vs = [k + 1..k + int (length vs)]" if "direction \<noteq> DirectionDown"
  proof -
    have p: "pending direction k n = [k + 1..n]" using that by (simp add: pending_def)
    have len: "length vs \<le> length [k + 1..n]" using i unfolding p by simp
    have top: "k + 1 + int (length vs) - 1 = k + int (length vs)" by simp
    have "vs = [k + 1..k + int (length vs)]"
      using i unfolding p take_upto [OF len] top by (rule sym [OF conjunct2])
    moreover have "k + int (length vs) \<le> n" using len assms(3) by simp
    ultimately show ?thesis by blast
  qed
qed

lemma plan_set:
  assumes "plan direction opts k n = Some vs" and "0 \<le> k" and "k \<le> n"
  shows "direction = DirectionDown \<Longrightarrow> int (length vs) \<le> k \<and> set vs = {k - int (length vs) + 1..k}"
    and "direction \<noteq> DirectionDown \<Longrightarrow> k + int (length vs) \<le> n \<and> set vs = {k + 1..k + int (length vs)}"
    and "set vs \<subseteq> {1..n}" and "distinct vs"
proof -
  note r = plan_range [OF assms]
  show down: "int (length vs) \<le> k \<and> set vs = {k - int (length vs) + 1..k}" if "direction = DirectionDown"
    using r(1) [OF that] by (metis set_rev set_upto)
  show up: "k + int (length vs) \<le> n \<and> set vs = {k + 1..k + int (length vs)}" if "direction \<noteq> DirectionDown"
    using r(2) [OF that] by (metis set_upto)
  show "set vs \<subseteq> {1..n}" using down up assms(2,3) by (cases "direction = DirectionDown") auto
  show "distinct vs" using r by (metis distinct_rev distinct_upto)
qed

lemma apply_planned:
  assumes "numbered n migs" and "recorded k d" and "0 \<le> k" and "k \<le> n" and "\<not> DryRun opts"
    and "direction = DirectionUp \<or> direction = DirectionDown"
    and "plan direction opts k n = Some vs"
  shows "applyMigrations exec migs direction (Some opts) (map (bundle_at migs) (pending direction k n)) d =
    (case apply_steps exec direction False (map (bundle_at migs) vs) d of
       (Inl e, d1) \<Rightarrow> (Inl e, d1)
     | (Inr ws, d1) \<Rightarrow> (Inr \<lparr>mr_direction = direction, mr_versions = ws\<rparr>, d1))"
proof -
  let ?l = "limited (step_limit direction opts) (pending direction k n)"
  have sub: "set ?l \<subseteq> {1..n}"
    using limited_prefix [of "step_limit direction opts" "pending direction k n"] assms(3,4)
    by (auto simp: pending_def dest!: in_set_takeD split: if_splits)
  show ?thesis
  proof (cases "TargetVersion opts > 0")
    case True
    with assms(7) have "TargetVersion opts \<in> set ?l"
      "vs = takeWhile (\<lambda>v. v \<noteq> TargetVersion opts) ?l @ (if direction = DirectionDown then [] else [TargetVersion opts])"
      by (auto simp: plan_def Let_def split: if_splits)
    with up_to_target_bundles [OF assms(1) sub True, of direction] assms(5) show ?thesis
      by (simp add: applyMigrations_def limited_map)
  next
    case False
    with assms(7) have "vs = ?l" by (auto simp: plan_def Let_def split: if_splits)
    with False assms(5) show ?thesis
      by (simp add: applyMigrations_def limited_map up_to_target_def)
  qed
qed

lemma apply_refused:
  assumes "numbered n migs" and "0 \<le> k" and "k \<le> n" and "plan direction opts k n = None"
    and "direction = DirectionUp \<or> direction = DirectionDown"
  shows "(\<exists>e. applyMigrations exec migs direction (Some opts) (map (bundle_at migs) (pending direction k n)) d = (Inl e, d)) \<or>
    (direction = DirectionUp \<and> k = 0 \<and> applyMigrations exec migs direction (Some opts)
      (map (bundle_at migs) (pending direction k n)) d = (Inr \<lparr>mr_direction = direction, mr_versions = []\<rparr>, d))"
proof -
  let ?l = "limited (step_limit direction opts) (pending direction k n)"
  have sub: "set ?l \<subseteq> {1..n}"
    using limited_prefix [of "step_limit direction opts" "pending direction k n"] assms(2,3)
    by (auto simp: pending_def dest!: in_set_takeD split: if_splits)
  show ?thesis
  proof (cases "TargetVersion opts > 0")
    case True
    with assms(4) have "TargetVersion opts \<notin> set ?l" by (auto simp: plan_def Let_def split: if_splits)
    with up_to_target_bundles [OF assms(1) sub True, of direction] show ?thesis
      by (simp add: applyMigrations_def limited_map)
  next
    case False
    with assms(4) have "direction = DirectionUp" "k = 0" "?l = []"
      by (auto simp: plan_def Let_def split: if_splits)
    with False show ?thesis
      by (simp add: applyMigrations_def limited_map up_to_target_def)
  qed
qed

lemma planned_rows:
  assumes "numbered n migs" and "script_laws exec migs" and "recorded k d" and "0 \<le> k" and "k \<le> n"
    and "direction = DirectionUp \<or> direction = DirectionDown" and "plan direction opts k n = Some vs"
    and "run_scripts exec (map (script direction) (map (bundle_at migs) vs)) d = (None, d1)"
  shows "migration_rows d1 =
    (if 1 \<in> set vs then (if direction = DirectionUp then Some [] else None) else migration_rows d)"
proof (rule rows_after_scripts [OF assms(2) _ assms(6,8)])
  show "\<forall>v \<in> set vs. (v, bundle_at migs v) \<in> set migs"
    using bundle_at_version(1) [OF assms(1)] plan_set(3) [OF assms(7,4,5)] by blast
qed

lemma versions_of_steps:
  assumes "numbered n migs" and "set vs \<subseteq> {1..n}"
  shows "map mv_version (map (step_of direction) (map (bundle_at migs) vs)) = vs"
  using assms(2) bundle_at_version(2) [OF assms(1)] by (auto simp: step_of_def o_def intro!: map_idI)

lemma insert_records:
  assumes "recorded k d" and "0 \<le> k" and "k \<le> n" and "plan DirectionUp opts k n = Some vs"
    and "migration_rows d1 = (if 1 \<in> set vs then Some [] else migration_rows d)"
  shows "\<exists>d2. MigrationInsertMany vs d1 = (Inr vs, d2) \<and> recorded (k + int (length vs)) d2 \<and> tables d2 = tables d1"
proof -
  have s: "set vs = {k + 1..k + int (length vs)}" and dist: "distinct vs"
    using plan_set [OF assms(4,2,3)] by auto
  have pos: "list_all (\<lambda>v. 1 \<le> v) vs" using s assms(2) by (auto simp: list_all_iff)
  obtain rows where rows: "migration_rows d1 = Some rows" "distinct rows" "set rows = {1..k}"
  proof (cases "k = 0")
    case True
    moreover have "vs \<noteq> []" using assms(4) True by (auto simp: plan_def Let_def split: if_splits)
    then have "1 \<in> set vs" using s True by (cases vs) auto
    ultimately show ?thesis using that [of "[]"] assms(5) by simp
  next
    case False
    then have "1 \<notin> set vs" using s assms(2) by simp
    with that assms(1,5) False show ?thesis by (auto simp: recorded_def)
  qed
  have "distinct (rows @ vs)" using rows(2,3) dist s by auto
  moreover have "set (rows @ vs) = {1..k + int (length vs)}" using rows(3) s assms(2) by auto
  moreover have "k + int (length vs) \<noteq> 0"
  proof
    assume z: "k + int (length vs) = 0"
    then have "k = 0" "length vs = 0" using assms(2) by linarith+
    with assms(4) show False by (auto simp: plan_def Let_def split: if_splits)
  qed
  ultimately show ?thesis
    using rows(1) pos assms(2) by (auto simp: MigrationInsertMany_def recorded_def)
qed

lemma delete_records:
  assumes "recorded k d" and "0 \<le> k" and "k \<le> n" and "plan DirectionDown opts k n = Some vs"
    and "migration_rows d1 = (if 1 \<in> set vs then None else migration_rows d)"
  shows "if vs = [] \<or> 1 \<in> set vs then recorded (k - int (length vs)) d1
    else \<exists>r d2. MigrationDeleteByVersionMany vs d1 = (Inr r, d2) \<and> recorded (k - int (length vs)) d2 \<and>
      tables d2 = tables d1"
proof -
  have s: "set vs = {k - int (length vs) + 1..k}" and len: "int (length vs) \<le> k"
    using plan_set(1) [OF assms(4,2,3)] by auto
  consider (none) "vs = []" | (all) "1 \<in> set vs" | (some) "vs \<noteq> []" "1 \<notin> set vs" by blast
  then show ?thesis
  proof cases
    case none
    with assms(1,5) show ?thesis by (simp add: recorded_def)
  next
    case all
    then have "k - int (length vs) = 0" using s len by auto
    with all assms(5) show ?thesis by (simp add: recorded_def)
  next
    case some
    have k: "int (length vs) < k"
    proof (rule ccontr)
      assume "\<not> int (length vs) < k"
      then have "set vs = {1..k}" "0 < k" using s len some(1) by auto
      with some(2) show False by simp
    qed
    then obtain rows where rows: "migration_rows d1 = Some rows" "distinct rows" "set rows = {1..k}"
      using assms(1,5) some by (auto simp: recorded_def split: if_splits)
    have "set (filter (\<lambda>v. v \<notin> set vs) rows) = {1..k - int (length vs)}"
      using rows(3) s k by auto
    with some rows k show ?thesis
      by (simp add: MigrationDeleteByVersionMany_def recorded_def)
  qed
qed

definition follows_plan ::
    "'w script_runner \<Rightarrow> (int \<times> Migration) list \<Rightarrow> string \<Rightarrow> int \<Rightarrow> int list option \<Rightarrow> 'w mdb
      \<Rightarrow> (migrate_error + MigrateResult) outcome \<times> 'w mdb \<Rightarrow> bool" where
  "follows_plan exec migs direction k p d run \<longleftrightarrow>
     (case p of
        None \<Rightarrow> (\<exists>e. run = (Return (Inl e), d))
      | Some vs \<Rightarrow>
          (let bs = map (bundle_at migs) vs in
           case run_scripts exec (map (script direction) bs) d of
             (Some _, d1) \<Rightarrow> (\<exists>e. run = (Return (Inl e), d1))
           | (None, d1) \<Rightarrow>
               (\<exists>d2. run = (Return (Inr \<lparr>mr_direction = direction, mr_versions = map (step_of direction) bs\<rparr>), d2) \<and>
                  tables d2 = tables d1 \<and> recorded (version_after direction k vs) d2)))"

lemma up_follows_plan:
  assumes "numbered n migs" and "script_laws exec migs" and "recorded k d" and "0 \<le> k" and "k \<le> n"
    and "\<not> DryRun opts"
  shows "follows_plan exec migs DirectionUp k (plan DirectionUp opts k n) d
    (migrateUp exec no_faults migs (Some opts) d)"
proof -
  obtain ex where ex: "existingMigrations no_faults d = Inr ex" "set ex = {1..k}"
    by (rule existing_recorded [OF assms(3)])
  let ?run = "applyMigrations exec migs DirectionUp (Some opts) (map (bundle_at migs) (pending DirectionUp k n)) d"
  have up: "migrateUp exec no_faults migs (Some opts) d =
      (case ?run of
         (Inl e, d1) \<Rightarrow> (Return (Inl e), d1)
       | (Inr res, d1) \<Rightarrow>
           (case MigrationInsertMany (map mv_version (mr_versions res)) d1 of
              (Inl e, d2) \<Rightarrow> (Return (Inl (CannotInsertRows (err_text e))), d2)
            | (Inr _, d2) \<Rightarrow> (Return (Inr res), d2)))"
    using assms(6) by (simp add: migrateUp_def ex(1) targets_up [OF assms(1,4) ex(2)] Let_def cong: prod.case_cong sum.case_cong)
  show ?thesis
  proof (cases "plan DirectionUp opts k n")
    case None
    from apply_refused [OF assms(1,4,5) None, of exec d] assms(3) show ?thesis
      unfolding up None follows_plan_def by (auto simp: MigrationInsertMany_def recorded_def)
  next
    case (Some vs)
    let ?bs = "map (bundle_at migs) vs"
    note ap = apply_planned [OF assms(1,3,4,5,6) disjI1 [OF refl] Some, of exec]
    obtain r d1 where run: "run_scripts exec (map (script DirectionUp) ?bs) d = (r, d1)" by fastforce
    show ?thesis
    proof (cases r)
      case (Some e)
      with run apply_steps_scripts(2) [of exec DirectionUp ?bs d e d1] show ?thesis
        unfolding up ap follows_plan_def \<open>plan _ _ _ _ = _\<close> by auto
    next
      case None
      have rows: "migration_rows d1 = (if 1 \<in> set vs then Some [] else migration_rows d)"
        using planned_rows [OF assms(1,2,3,4,5) _ \<open>plan _ _ _ _ = _\<close>] run None by simp
      from insert_records [OF assms(3,4,5) \<open>plan _ _ _ _ = _\<close> rows]
      obtain d2 where "MigrationInsertMany vs d1 = (Inr vs, d2)" "recorded (k + int (length vs)) d2" "tables d2 = tables d1"
        by blast
      with run None apply_steps_scripts(1) [of exec DirectionUp ?bs d d1]
      show ?thesis
        unfolding up follows_plan_def \<open>plan _ _ _ _ = _\<close>
        using ap versions_of_steps [OF assms(1) plan_set(3) [OF \<open>plan _ _ _ _ = _\<close> assms(4,5)], of DirectionUp]
        by (simp add: version_after_def)
    qed
  qed
qed

lemma down_follows_plan:
  assumes "numbered n migs" and "script_laws exec migs" and "recorded k d" and "0 \<le> k" and "k \<le> n"
    and "\<not> DryRun opts"
  shows "follows_plan exec migs DirectionDown k (plan DirectionDown opts k n) d
    (migrateDown exec no_faults migs (Some opts) d)"
proof -
  obtain ex where ex: "existingMigrations no_faults d = Inr ex" "set ex = {1..k}"
    by (rule existing_recorded [OF assms(3)])
  let ?run = "applyMigrations exec migs DirectionDown (Some opts) (map (bundle_at migs) (pending DirectionDown k n)) d"
  have down: "migrateDown exec no_faults migs (Some opts) d =
      (case ?run of
         (Inl e, d1) \<Rightarrow> (Return (Inl e), d1)
       | (Inr res, d1) \<Rightarrow>
           if mr_versions res = [] \<or> list_ex (\<lambda>v. mv_version v = 1) (mr_versions res)
           then (Return (Inr res), d1)
           else (case MigrationDeleteByVersionMany (map mv_version (mr_versions res)) d1 of
              (Inl e, d2) \<Rightarrow> (Return (Inl (CannotDeleteRows (err_text e))), d2)
            | (Inr _, d2) \<Rightarrow> (Return (Inr res), d2)))"
    using assms(6) by (simp add: migrateDown_def ex(1) targets_down [OF assms(1,5) ex(2)] Let_def
        split: prod.splits sum.splits)
  show ?thesis
  proof (cases "plan DirectionDown opts k n")
    case None
    from apply_refused [OF assms(1,4,5) None, of exec d] show ?thesis
      unfolding down None follows_plan_def by auto
  next
    case (Some vs)
    let ?bs = "map (bundle_at migs) vs"
    note pl = Some
    note ap = apply_planned [OF assms(1,3,4,5,6) disjI2 [OF refl] pl, of exec]
    obtain r d1 where run: "run_scripts exec (map (script DirectionDown) ?bs) d = (r, d1)" by fastforce
    show ?thesis
    proof (cases r)
      case (Some e)
      with run apply_steps_scripts(2) [of exec DirectionDown ?bs d e d1] show ?thesis
        unfolding down ap follows_plan_def pl by auto
    next
      case None
      have rows: "migration_rows d1 = (if 1 \<in> set vs then None else migration_rows d)"
        using planned_rows [OF assms(1,2,3,4,5) _ pl] run None by simp
      have vers: "map mv_version (map (step_of DirectionDown) ?bs) = vs"
        by (rule versions_of_steps [OF assms(1) plan_set(3) [OF pl assms(4,5)]])
      have one: "list_ex (\<lambda>v. mv_version v = 1) ws \<longleftrightarrow> 1 \<in> set (map mv_version ws)" for ws
        by (auto simp: list_ex_iff)
      from delete_records [OF assms(3,4,5) pl rows]
      show ?thesis
        using run None apply_steps_scripts(1) [of exec DirectionDown ?bs d d1]
        unfolding down ap follows_plan_def pl
        by (auto simp: one vers version_after_def Let_def simp del: map_map split: if_splits)
    qed
  qed
qed

lemma rows_kept:
  assumes "script_laws exec migs" and "\<forall>b \<in> set bs. \<exists>v. v \<noteq> 1 \<and> (v, b) \<in> set migs"
    and "apply_steps exec DirectionUp False bs d = (r, d1)"
  shows "migration_rows d1 = migration_rows d"
  using assms(2,3)
proof (induction bs arbitrary: d r)
  case (Cons b bs)
  show ?case
  proof (cases "exec (SQLUp b) d")
    case (Inl e)
    with Cons.prems(2) show ?thesis by (simp add: script_def)
  next
    case (Inr d2)
    then have "migration_rows d2 = migration_rows d"
      using assms(1) Cons.prems(1) by (fastforce simp: script_laws_def)
    moreover obtain r2 where "apply_steps exec DirectionUp False bs d2 = (r2, d1)"
      using Cons.prems(2) Inr by (auto simp: script_def Let_def split: sum.splits prod.splits)
    ultimately show ?thesis using Cons.IH Cons.prems(1) by simp
  qed
qed simp

lemma default_up:
  "migrateUp exec no_faults migs None d =
     (case existingMigrations no_faults d of
        Inl e \<Rightarrow> (Return (Inl e), d)
      | Inr existing \<Rightarrow>
          (case apply_steps exec DirectionUp False
              (sort_key Version (map snd (filter (\<lambda>(v, _). v \<notin> set existing) migs))) d of
             (Inl e, d1) \<Rightarrow> (Return (Inl e), d1)
           | (Inr vs, d1) \<Rightarrow>
               (case MigrationInsertMany (map mv_version vs) d1 of
                  (Inl e, d2) \<Rightarrow> (Return (Inl (CannotInsertRows (err_text e))), d2)
                | (Inr _, d2) \<Rightarrow> (Return (Inr \<lparr>mr_direction = DirectionUp, mr_versions = vs\<rparr>), d2))))"
  by (simp add: migrateUp_def applyMigrations_def default_opts_def step_limit_def limited_def up_to_target_def
      split: sum.split prod.split)

lemma first_targets:
  assumes "numbered n migs" and "0 < n"
  shows "sort_key Version (map snd migs) = bundle_at migs 1 # map (bundle_at migs) [2..n]"
proof -
  have "[1..n] = 1 # [2..n]" using assms(2) by (simp add: upto_rec1)
  with targets_up [OF assms(1), of 0 "[]"] show ?thesis
    by (simp add: pending_def filter_True)
qed

subsection \<open>Concrete data\<close>

definition sample_migrations :: "(int \<times> Migration) list" where
  "sample_migrations =
     [(2, \<lparr>SQLDown = ''d2'', SQLUp = ''u2'', Version = 2\<rparr>), (1, \<lparr>SQLDown = ''d1'', SQLUp = ''u1'', Version = 1\<rparr>)]"

text \<open>A server that logs what it runs, creates and drops the table, and fails on \<open>bad\<close>.\<close>

definition sample_exec :: "string \<Rightarrow> string list script_runner" where
  "sample_exec bad s d =
     (if s = bad then Inl ''syntax error''
      else if s = ''u1'' then
        (if migration_rows d = None then Inr (d\<lparr>migration_rows := Some [], tables := tables d @ [s]\<rparr>)
         else Inl ''relation _migration already exists'')
      else if s = ''d1'' then Inr (d\<lparr>migration_rows := None, tables := tables d @ [s]\<rparr>)
      else Inr (d\<lparr>tables := tables d @ [s]\<rparr>))"

definition fresh_mdb :: "string list mdb" where
  "fresh_mdb = \<lparr>migration_rows = None, tables = []\<rparr>"

lemma sample_numbered: "numbered 2 sample_migrations"
proof -
  have "{1..2} = {1, 2::int}" by auto
  then show ?thesis by (auto simp: numbered_def sample_migrations_def)
qed

lemma sample_script_laws: "script_laws (sample_exec bad) sample_migrations"
  by (auto simp: script_laws_def sample_migrations_def sample_exec_def split: if_splits)

subsection \<open>Properties\<close>

text \<open>C14.
  The migrator implements the plan: on a database whose versions 1 to k are recorded, a run in
  either direction executes exactly the scripts of the planned versions, in order, and when they all
  succeed reports them, with the recorded versions 1 to the new number and nothing else changed; a
  refused request executes nothing; when a script fails the run stops there with an error.
\<close>
theorem migrate_follows_plan:
  assumes "numbered n migs" and "script_laws exec migs" and "recorded k d" and "0 \<le> k" and "k \<le> n"
    and "\<not> DryRun opts" and "direction = DirectionUp \<or> direction = DirectionDown"
  shows "follows_plan exec migs direction k (plan direction opts k n) d
    (Migrate exec no_faults migs direction (Some opts) d)"
  using up_follows_plan [OF assms(1-6)] down_follows_plan [OF assms(1-6)] assms(7)
  by (auto simp: Migrate_def)

theorem migrate_follows_plan_witness:
  "\<exists>d2. Migrate (sample_exec '''') no_faults sample_migrations DirectionUp (Some default_opts) fresh_mdb =
     (Return (Inr \<lparr>mr_direction = DirectionUp, mr_versions =
        [\<lparr>mv_sql = ''u1'', mv_version = 1\<rparr>, \<lparr>mv_sql = ''u2'', mv_version = 2\<rparr>]\<rparr>), d2) \<and>
     tables d2 = [''u1'', ''u2''] \<and> recorded 2 d2"
proof -
  have "recorded 0 fresh_mdb" "\<not> DryRun default_opts" "(0::int) \<le> 0" "(0::int) \<le> 2"
    by (simp_all add: recorded_def fresh_mdb_def default_opts_def)
  note w = migrate_follows_plan [OF sample_numbered sample_script_laws [of "''''"] this(1,3,4,2) disjI1 [OF refl]]
  have up: "[1..2] = [1, 2::int]" by (simp add: upto_rec1)
  have p: "plan DirectionUp default_opts 0 2 = Some [1, 2]"
    by (simp add: plan_def default_opts_def step_limit_def limited_def pending_def up Let_def)
  show ?thesis
    using w unfolding p follows_plan_def
    by (simp add: bundle_at_def sample_migrations_def script_def sample_exec_def fresh_mdb_def step_of_def
        version_after_def)
qed

text \<open>Initialising accepts exactly the lists of bundles that have both scripts and are numbered from one
  without gaps, and maps each version to its bundle; everything else panics.
\<close>
lemma validated_migrations:
  "case ValidateAndInit bs of
     Return migs \<Rightarrow> map Version bs = [1..int (length bs)] \<and> list_all complete_bundle bs \<and>
       migs = map (\<lambda>b. (Version b, b)) bs \<and> numbered (int (length bs)) migs
   | Panic _ \<Rightarrow> \<not> (map Version bs = [1..int (length bs)] \<and> list_all complete_bundle bs)"
proof (cases "map Version bs = [1..int (length bs)] \<and> list_all complete_bundle bs")
  case True
  then show ?thesis
    using init_loop_accepts [of 0 "[]" bs] numbered_enumerate [of bs] by (simp add: ValidateAndInit_def)
next
  case False
  then have "panics (init_loop bs 0 [])" using init_loop_panics [of 0 "[]" bs] by auto
  with False show ?thesis by (cases "init_loop bs 0 []") (auto simp: ValidateAndInit_def)
qed

text \<open>Nothing is recorded of a run that stops half way, although its first scripts are in effect: after
  a first migration that fails on a later version, every further default run fails on version one,
  whose table already exists, and changes nothing.
\<close>
lemma interrupted_first_migration_is_stuck:
  assumes "numbered n migs" and "script_laws exec migs" and "recorded 0 d" and "0 < n"
    and "\<And>x. migration_rows x \<noteq> None \<Longrightarrow> \<exists>e. exec (SQLUp (bundle_at migs 1)) x = Inl e"
    and "Migrate exec no_faults migs DirectionUp None d = (Return (Inl (CannotApply v dir e)), d1)"
    and "v \<noteq> 1"
  shows "migration_rows d1 = Some [] \<and>
    (\<exists>x. Migrate exec no_faults migs DirectionUp None d1 = (Return (Inl x), d1))"
proof -
  have b1: "(1, bundle_at migs 1) \<in> set migs" "Version (bundle_at migs 1) = 1"
    using bundle_at_version [OF assms(1), of 1] assms(4) by auto
  have none: "existingMigrations no_faults d = Inr []"
    using assms(3) by (simp add: existingMigrations_def recorded_def TableExists_def)
  let ?rest = "map (bundle_at migs) [2..n]"
  have run: "\<exists>r. apply_steps exec DirectionUp False (bundle_at migs 1 # ?rest) d = (r, d1)"
    and err: "fst (apply_steps exec DirectionUp False (bundle_at migs 1 # ?rest) d) = Inl (CannotApply v dir e)"
    using assms(6) unfolding Migrate_def default_up
    by (auto simp: none first_targets [OF assms(1,4)] filter_True simp del: apply_steps.simps
        split: sum.splits prod.splits)
  have first: "script DirectionUp (bundle_at migs 1) = SQLUp (bundle_at migs 1)" by (simp add: script_def)
  obtain d2 where d2: "exec (SQLUp (bundle_at migs 1)) d = Inr d2"
  proof (cases "exec (SQLUp (bundle_at migs 1)) d")
    case (Inl x)
    then have "fst (apply_steps exec DirectionUp False (bundle_at migs 1 # ?rest) d) = Inl (CannotApply 1 DirectionUp x)"
      by (simp add: first b1(2))
    with err assms(7) show ?thesis by simp
  qed
  have "\<exists>r. apply_steps exec DirectionUp False ?rest d2 = (r, d1)"
    using run
    by (cases "apply_steps exec DirectionUp False ?rest d2"; cases "fst (apply_steps exec DirectionUp False ?rest d2)")
       (simp_all add: first d2)
  moreover have "\<forall>b \<in> set ?rest. \<exists>v. v \<noteq> 1 \<and> (v, b) \<in> set migs"
  proof
    fix b
    assume "b \<in> set ?rest"
    then obtain v where v: "v \<in> {2..n}" "b = bundle_at migs v" by auto
    then show "\<exists>v. v \<noteq> 1 \<and> (v, b) \<in> set migs"
      using bundle_at_version(1) [OF assms(1), of v] by (intro exI [of _ v]) auto
  qed
  ultimately have "migration_rows d1 = migration_rows d2"
    using rows_kept [OF assms(2)] by blast
  also have "\<dots> = Some []"
    using assms(2) b1(1) d2 by (fastforce simp: script_laws_def)
  finally have rows: "migration_rows d1 = Some []" .
  moreover obtain x where "exec (SQLUp (bundle_at migs 1)) d1 = Inl x"
    using assms(5) [of d1] rows by auto
  ultimately show ?thesis
    by (auto simp: Migrate_def default_up existingMigrations_def TableExists_def MigrationGetAll_def
        first_targets [OF assms(1,4)] filter_True script_def)
qed

end
