(* ===== verification/Published_Cluster.thy ===== *)
theory Published_Cluster
  imports Deployment_Admin K8s_Controller
begin

text \<open>
  The background run of \<^verbatim>\<open>PublishDeployment\<close> on the modelled Kubernetes controller: what holds of the
  database and of the cluster together after a run without error.
\<close>

text \<open>The service the run calls reports success only where the controller does.\<close>

definition uses_controller :: "'s services \<Rightarrow> 's kube_api \<Rightarrow> bool" where
  "uses_controller svc api \<longleftrightarrow>
     (\<forall>ps s s'. call_UpdateDeploymentSet svc ps s = (None, s') \<longrightarrow> UpdateDeploymentSet api ps s = (Inr (), s'))"

definition on_controller :: "'s kube_api \<Rightarrow> 's services" where
  "on_controller api =
     \<lparr>call_RunMigrations = (\<lambda>_ s. ((JNull, None), s)),
      call_UpdateDeploymentSet = (\<lambda>ps s. case UpdateDeploymentSet api ps s of
         (Inr _, s1) \<Rightarrow> (None, s1) | (Inl (Failed e), s1) \<Rightarrow> (Some e, s1) | (Inl Crashed, s1) \<Rightarrow> (Some ''panic'', s1)),
      WriteSuite = (\<lambda>_ s. (None, s))\<rparr>"

lemma on_controller_uses: "uses_controller (on_controller api) api"
  by (auto simp: uses_controller_def on_controller_def split: prod.splits sum.splits kfail.splits)

lemma sample_clean_up: "fst (UpdateDeploymentSet list_server [] old_cluster) = Inr ()"
  by code_simp

lemma sample_published:
  "\<exists>e. doRunDeploymentMigrationsAndUpdateDeployment (on_controller list_server) no_faults id 60 61 sample_random 2
     ''bob'' (old_cluster, started_db) = (Return None, snd (UpdateDeploymentSet list_server [] old_cluster), e)"
proof (rule started_run_with)
  show "call_UpdateDeploymentSet (on_controller list_server) [] old_cluster =
      (None, snd (UpdateDeploymentSet list_server [] old_cluster))"
    using sample_clean_up by (cases "UpdateDeploymentSet list_server [] old_cluster") (simp add: on_controller_def)
qed (simp_all add: on_controller_def)



end
