(* ===== verification/Go_Json.thy ===== *)
theory Go_Json
  imports Go_Text "HOL-Library.List_Lexorder" "HOL-Library.Char_ord"
begin

text \<open>
  What is used of \<^verbatim>\<open>encoding/json\<close>: decoding objects into the fields of structs, and Go maps as
  sorted lists. Numbers are those a \<^verbatim>\<open>float64\<close> holds exactly.
\<close>

subsection \<open>JSON text\<close>

text \<open>
  JSON text: \<open>json_read\<close> is \<^verbatim>\<open>json.Unmarshal\<close> of a text to the value it denotes, \<open>None\<close> for text that
  is not JSON, and \<open>json_write\<close> is \<^verbatim>\<open>json.Marshal\<close>. \<open>sniff\<close> is \<^verbatim>\<open>http.DetectContentType\<close>.
\<close>

record text_lib =
  json_read :: "string \<Rightarrow> json option"
  json_write :: "json \<Rightarrow> string"
  sniff :: "string \<Rightarrow> string"

definition raw_json :: "text_lib \<Rightarrow> string \<Rightarrow> bool" where
  "raw_json lib t \<longleftrightarrow> json_read lib t \<noteq> None"

subsection \<open>Decoding JSON objects into structs\<close>

text \<open>
  \<^verbatim>\<open>encoding/json\<close> matches keys without regard to the case of ASCII letters (the two further letters
  Unicode folds into them are left out), applies repeated keys one after the other, lets null keep
  a string and clear a pointer, and reports any other value of the wrong type.
\<close>

definition lower :: "char \<Rightarrow> char" where
  "lower c = (let n = (of_char c :: nat) in if 65 \<le> n \<and> n \<le> 90 then char_of (n + 32) else c)"

definition matching :: "string \<Rightarrow> (string \<times> json) list \<Rightarrow> json list" where
  "matching name kvs = map snd (filter (\<lambda>kv. map lower (fst kv) = name) kvs)"

fun as_object :: "json \<Rightarrow> (string \<times> json) list option" where
  "as_object (JObj kvs) = Some kvs"
| "as_object JNull = Some []"
| "as_object _ = None"

fun set_string :: "string option \<Rightarrow> json \<Rightarrow> string option" where
  "set_string (Some _) (JStr s) = Some s"
| "set_string (Some s) JNull = Some s"
| "set_string _ _ = None"

definition string_field :: "string \<Rightarrow> (string \<times> json) list \<Rightarrow> string option" where
  "string_field name kvs = foldl set_string (Some '''') (matching name kvs)"

fun set_pointer :: "(json \<Rightarrow> 'a option) \<Rightarrow> 'a option option \<Rightarrow> json \<Rightarrow> 'a option option" where
  "set_pointer read (Some _) JNull = Some None"
| "set_pointer read (Some _) v = map_option Some (read v)"
| "set_pointer read None v = None"

fun read_str :: "json \<Rightarrow> string option" where
  "read_str (JStr s) = Some s"
| "read_str _ = None"

fun read_boolean :: "json \<Rightarrow> bool option" where
  "read_boolean (JBool b) = Some b"
| "read_boolean _ = None"

definition pointer_field ::
    "(json \<Rightarrow> 'a option) \<Rightarrow> string \<Rightarrow> (string \<times> json) list \<Rightarrow> 'a option option" where
  "pointer_field read name kvs = foldl (set_pointer read) (Some None) (matching name kvs)"

text \<open>A nested struct collects the members of all its objects; so does a map behind a pointer.\<close>

definition struct_field :: "string \<Rightarrow> (string \<times> json) list \<Rightarrow> (string \<times> json) list option" where
  "struct_field name kvs =
     (let vs = map as_object (matching name kvs)
      in if None \<in> set vs then None else Some (concat (map the vs)))"

fun set_map ::
    "(string \<times> json) list option option \<Rightarrow> json \<Rightarrow> (string \<times> json) list option option" where
  "set_map (Some m) (JObj kvs) = Some (Some (from_ptr_or m [] @ kvs))"
| "set_map (Some _) JNull = Some None"
| "set_map _ _ = None"

definition map_field :: "string \<Rightarrow> (string \<times> json) list \<Rightarrow> (string \<times> json) list option option" where
  "map_field name kvs = foldl set_map (Some None) (matching name kvs)"

text \<open>
  A Go map has no order and one value per key, the last one decoded: its representation is sorted by
  key, which is also the order in which \<^verbatim>\<open>json.Marshal\<close> writes it.
\<close>

fun put :: "string \<Rightarrow> 'a \<Rightarrow> (string \<times> 'a) list \<Rightarrow> (string \<times> 'a) list" where
  "put k v [] = [(k, v)]"
| "put k v ((k', v') # m) =
     (if k = k' then (k, v) # m else if k < k' then (k, v) # (k', v') # m else (k', v') # put k v m)"

fun go_value :: "json \<Rightarrow> json" where
  "go_value (JObj kvs) = JObj (foldl (\<lambda>m kv. put (fst kv) (snd kv) m) [] (map (map_prod id go_value) kvs))"
| "go_value (JArr vs) = JArr (map go_value vs)"
| "go_value v = v"

subsection \<open>Go maps\<close>

lemma put_keys: "fst ` set (put k v m) = insert k (fst ` set m)"
  by (induction m rule: put.induct) auto

lemma put_set: "set (put k v m) \<subseteq> insert (k, v) (set m)"
  by (induction m rule: put.induct) auto

lemma put_ordered: "sorted_wrt (<) (map fst m) \<Longrightarrow> sorted_wrt (<) (map fst (put k v m))"
proof (induction m)
  case (Cons x m)
  obtain k' v' where x: "x = (k', v')" by (cases x)
  have "fst ` set (put k v m) = insert k (fst ` set m)" by (rule put_keys)
  then have "\<forall>y \<in> set (put k v m). fst y = k \<or> fst y \<in> fst ` set m" by blast
  with Cons x show ?case by (auto simp: image_iff) fastforce+
qed simp

lemma puts_ordered:
  "sorted_wrt (<) (map fst m) \<Longrightarrow> sorted_wrt (<) (map fst (foldl (\<lambda>m kv. put (fst kv) (snd kv) m) m kvs))"
  by (induction kvs arbitrary: m) (simp_all add: put_ordered)

lemma puts_set: "set (foldl (\<lambda>m kv. put (fst kv) (snd kv) m) m kvs) \<subseteq> set m \<union> set kvs"
proof (induction kvs arbitrary: m)
  case (Cons kv kvs)
  then show ?case using put_set[of "fst kv" "snd kv" m] by fastforce
qed simp

lemma put_last: "\<forall>x \<in> set m. fst x < k \<Longrightarrow> put k v m = m @ [(k, v)]"
  by (induction m rule: put.induct) auto

lemma puts_sorted:
  "sorted_wrt (<) (map fst (m @ kvs)) \<Longrightarrow> foldl (\<lambda>m kv. put (fst kv) (snd kv) m) m kvs = m @ kvs"
proof (induction kvs arbitrary: m)
  case (Cons kv kvs)
  have "\<forall>x \<in> set m. fst x < fst kv" using Cons.prems by (auto simp: sorted_wrt_append)
  then have "put (fst kv) (snd kv) m = m @ [kv]" by (simp add: put_last)
  with Cons show ?case by simp
qed simp

lemma go_value_idem [simp]: "go_value (go_value v) = go_value v"
proof (induction v rule: go_value.induct)
  case (1 kvs)
  let ?m = "foldl (\<lambda>m kv. put (fst kv) (snd kv) m) [] (map (map_prod id go_value) kvs)"
  have "map_prod id go_value x = x" if "x \<in> set ?m" for x
    using puts_set[of "[]" "map (map_prod id go_value) kvs"] that 1 by fastforce
  then have "map (map_prod id go_value) ?m = ?m" by (simp add: map_idI)
  moreover have "sorted_wrt (<) (map fst ?m)" by (rule puts_ordered) simp
  then have "foldl (\<lambda>m kv. put (fst kv) (snd kv) m) [] ?m = ?m" using puts_sorted[of "[]" ?m] by simp
  ultimately show ?case by simp
next
  case (2 vs)
  then show ?case by simp
qed simp_all

lemma encodable_go_value: "encodable v \<Longrightarrow> encodable (go_value v)"
proof (induction v rule: go_value.induct)
  case (1 kvs)
  have "encodable (snd x)" if "x \<in> set (map (map_prod id go_value) kvs)" for x
    using that 1 by (fastforce simp: list_all_iff)
  with puts_set[of "[]" "map (map_prod id go_value) kvs"] show ?case
    by (fastforce simp: list_all_iff)
next
  case (2 vs)
  then show ?case by (simp add: list_all_iff)
qed simp_all

subsection \<open>Simplification\<close>

named_theorems decode_simps \<open>decoding of the objects the program writes\<close>

declare lower_def [decode_simps] string_field_def [decode_simps] pointer_field_def [decode_simps]
  struct_field_def [decode_simps] map_field_def [decode_simps]

lemma matching_simps [decode_simps]:
  "matching name [] = []"
  "matching name ((k, v) # kvs) = (if map lower k = name then v # matching name kvs else matching name kvs)"
  by (simp_all add: matching_def)

end
