(* ===== verification/Llm_Types.thy ===== *)
theory Llm_Types
  imports Go_Json
begin

text \<open>
  The vendor-neutral messages and requests of \<^verbatim>\<open>llm/model.go\<close>, the lists of models
  (\<^verbatim>\<open>llm/adapter/model_list.go\<close>, \<^verbatim>\<open>embedding_model_list.go\<close>), and the choice of an adapter. Byte slices
  and \<^verbatim>\<open>json.RawMessage\<close> are strings; where the code distinguishes the nil slice the field is an
  option. A \<^verbatim>\<open>float32\<close> is carried as its 32 bits, it is never computed with.
\<close>

type_synonym float32 = int

subsection \<open>Messages\<close>

record tool_result =
  tr_id :: string
  tr_result :: string
  tr_is_error :: bool

record tool_call =
  tc_id :: string
  tc_function_name :: string
  tc_arguments :: string

record content =
  ct_text :: string
  ct_image :: "string option"
  ct_image_url :: string
  ct_tool_result :: "tool_result option"
  ct_tool_call :: "tool_call option"

definition no_content :: content where
  "no_content = \<lparr>ct_text = '''', ct_image = None, ct_image_url = '''', ct_tool_result = None,
     ct_tool_call = None\<rparr>"

definition image_bytes :: "content \<Rightarrow> string" where
  "image_bytes c = from_ptr_or (ct_image c) ''''"

record message =
  m_role :: string
  m_content :: "content list"

record tool =
  tl_name :: string
  tl_description :: string
  tl_parameters :: string

record json_schema =
  js_name :: "string option"
  js_description :: "string option"
  js_schema :: string
  js_strict :: "bool option"

record response_format =
  rf_type :: string
  rf_json_schema :: "json_schema option"

record completion_request =
  cr_model_id :: string
  cr_messages :: "message list"
  cr_tools :: "tool list"
  cr_stop_sequences :: "string list"
  cr_temperature :: "float32 option"
  cr_max_tokens :: "int option"
  cr_max_completion_tokens :: "int option"
  cr_response_format :: "response_format option"

text \<open>A \<^verbatim>\<open>CompletionResult\<close> is its list of messages, an \<^verbatim>\<open>EmbeddingResult\<close> its list of embeddings.\<close>

record embedding_request =
  er_model_id :: string
  er_input :: "string list"
  er_input_type :: "string option"

record 'f embedding =
  em_embedding :: "'f list"
  em_index :: int

subsection \<open>Results in sequence\<close>

text \<open>Loops over a list that stop at the first error, or at the first error or panic.\<close>

fun traverse_sum :: "('a \<Rightarrow> 'e + 'b) \<Rightarrow> 'a list \<Rightarrow> 'e + 'b list" where
  "traverse_sum f [] = Inr []"
| "traverse_sum f (x # xs) =
     (case f x of
        Inl e \<Rightarrow> Inl e
      | Inr y \<Rightarrow> (case traverse_sum f xs of Inl e \<Rightarrow> Inl e | Inr ys \<Rightarrow> Inr (y # ys)))"

lemma traverse_sum_InrD:
  "traverse_sum f xs = Inr ys \<Longrightarrow> list_all2 (\<lambda>x y. f x = Inr y) xs ys"
  by (induction xs arbitrary: ys) (auto split: sum.splits)

lemma traverse_sum_Inr:
  "(\<And>x. x \<in> set xs \<Longrightarrow> f x = Inr (g x)) \<Longrightarrow> traverse_sum f xs = Inr (map g xs)"
  by (induction xs) auto

fun traverse_go :: "('a \<Rightarrow> ('e + 'b) outcome) \<Rightarrow> 'a list \<Rightarrow> ('e + 'b list) outcome" where
  "traverse_go f [] = Return (Inr [])"
| "traverse_go f (x # xs) =
     (case f x of
        Panic p \<Rightarrow> Panic p
      | Return (Inl e) \<Rightarrow> Return (Inl e)
      | Return (Inr y) \<Rightarrow>
          (case traverse_go f xs of
             Panic p \<Rightarrow> Panic p
           | Return (Inl e) \<Rightarrow> Return (Inl e)
           | Return (Inr ys) \<Rightarrow> Return (Inr (y # ys))))"

lemma traverse_go_InrD:
  "traverse_go f xs = Return (Inr ys) \<Longrightarrow> list_all2 (\<lambda>x y. f x = Return (Inr y)) xs ys"
  by (induction xs arbitrary: ys) (auto split: outcome.splits sum.splits)

subsection \<open>The lists of models\<close>

datatype provider = PROVIDER_AZURE | PROVIDER_OPENAI | PROVIDER_ANTHROPIC | PROVIDER_VOYAGE

record model =
  md_id :: string
  md_provider :: provider
  md_name :: string

definition modelList :: "model list" where
  "modelList =
    [\<lparr>md_id = ''5a265146-4e05-4cd7-a0a9-9adda7bf7a38-azure-gpt4o'', md_provider = PROVIDER_AZURE,
       md_name = ''Azure gpt-4o''\<rparr>,
     \<lparr>md_id = ''bdf5c21b-ad28-4096-9bca-667927b5c742-azure-gpt4'', md_provider = PROVIDER_AZURE,
       md_name = ''Azure gpt-4''\<rparr>,
     \<lparr>md_id = ''4b7b4d5c-7b6a-4d4e-8b0b-4b2b3c4d5e6f-openai-o1'', md_provider = PROVIDER_OPENAI,
       md_name = ''OpenAI o1''\<rparr>,
     \<lparr>md_id = ''5c1a5c30-876a-48d4-9378-a2501fc6b92d-openai-o1-mini'', md_provider = PROVIDER_OPENAI,
       md_name = ''OpenAI o1 mini''\<rparr>,
     \<lparr>md_id = ''be28aa22-c1c4-49e0-bc05-dddb6b7edb7b-openai-4o'', md_provider = PROVIDER_OPENAI,
       md_name = ''OpenAI 4o''\<rparr>,
     \<lparr>md_id = ''7b8ffb04-4a8d-4e4a-b4b1-9ae90613d902-openai-4o-mini'', md_provider = PROVIDER_OPENAI,
       md_name = ''OpenAI 4o mini''\<rparr>,
     \<lparr>md_id = ''3db6db92-a091-4944-9f7e-9d43e70218d3-anthropic-claude-3-opus-20240229'',
       md_provider = PROVIDER_ANTHROPIC, md_name = ''Anthropic Claude 3 Opus 20240229''\<rparr>,
     \<lparr>md_id = ''93d07ee3-c9fb-4f0e-9fc1-df1a7af10b6c-anthropic-claude-3.5-sonnet-20240620'',
       md_provider = PROVIDER_ANTHROPIC, md_name = ''Anthropic Claude 3.5 Sonnet 20240620''\<rparr>]"

text \<open>The map built by \<^verbatim>\<open>init\<close>: of two models with one id the later stays.\<close>

definition GetModelByID :: "string \<Rightarrow> model option" where
  "GetModelByID i = map_of (rev (map (\<lambda>m. (md_id m, m)) modelList)) i"

record embedding_model =
  ed_id :: string
  ed_provider :: provider
  ed_name :: string
  ed_dimension :: nat

definition embeddingModelList :: "embedding_model list" where
  "embeddingModelList =
    [\<lparr>ed_id = ''6baf223e-d321-41d2-bb33-c8328320e1e3-azure-text-embedding-ada-002'',
       ed_provider = PROVIDER_AZURE, ed_name = ''Azure text-embedding-ada-002'', ed_dimension = 1536\<rparr>,
     \<lparr>ed_id = ''d68a09df-3589-4273-b032-04488d9b230d-azure-text-embedding-3-small'',
       ed_provider = PROVIDER_AZURE, ed_name = ''Azure text-embedding-3-small'', ed_dimension = 1536\<rparr>,
     \<lparr>ed_id = ''38f8d506-b9ab-4c5b-b7c7-051fd4849bbf-azure-text-embedding-3-large'',
       ed_provider = PROVIDER_AZURE, ed_name = ''Azure text-embedding-3-large'', ed_dimension = 3072\<rparr>,
     \<lparr>ed_id = ''c6bbe66a-ac3e-4687-99b6-3a7d64bdf97a-voyage-large-2-instruct'',
       ed_provider = PROVIDER_VOYAGE, ed_name = ''voyage-large-2-instruct'', ed_dimension = 1024\<rparr>,
     \<lparr>ed_id = ''84586745-b0ce-4d54-860f-bdbf579224d4-voyage-finance-2'',
       ed_provider = PROVIDER_VOYAGE, ed_name = ''voyage-finance-2'', ed_dimension = 1024\<rparr>,
     \<lparr>ed_id = ''369e2def-108c-4355-aea6-25cd3dc90b6f-voyage-multilingual-2'',
       ed_provider = PROVIDER_VOYAGE, ed_name = ''voyage-multilingual-2'', ed_dimension = 1024\<rparr>,
     \<lparr>ed_id = ''e9b1d228-ec9d-4972-bfca-ce9593e80866-voyage-law-2'',
       ed_provider = PROVIDER_VOYAGE, ed_name = ''voyage-law-2'', ed_dimension = 1024\<rparr>,
     \<lparr>ed_id = ''fb6aa59b-6791-41c5-9262-0ebab269a196-voyage-code-2'',
       ed_provider = PROVIDER_VOYAGE, ed_name = ''voyage-code-2'', ed_dimension = 1536\<rparr>,
     \<lparr>ed_id = ''7a571008-601a-463f-a3b9-1ba48de38984-voyage-large-2'',
       ed_provider = PROVIDER_VOYAGE, ed_name = ''voyage-large-2'', ed_dimension = 1536\<rparr>,
     \<lparr>ed_id = ''285d60de-ac64-4461-a59d-be86d82fff75-voyage-2'',
       ed_provider = PROVIDER_VOYAGE, ed_name = ''voyage-2'', ed_dimension = 1024\<rparr>]"

definition GetEmbeddingModelByID :: "string \<Rightarrow> embedding_model option" where
  "GetEmbeddingModelByID i = map_of (rev (map (\<lambda>m. (ed_id m, m)) embeddingModelList)) i"

subsection \<open>Calls to the outside\<close>

text \<open>An HTTP exchange fails, or answers with a status and a body, decoded or not.\<close>

datatype 'a exchange = Unreachable string | Answered nat "string + 'a"

end
