(* ===== verification/Anthropic_Adapter.thy ===== *)
theory Anthropic_Adapter
  imports Llm_Types
begin

text \<open>
  \<^verbatim>\<open>llm/adapter/anthropic.go\<close> and \<^verbatim>\<open>anthropic_sdk.go\<close>: the conversion of messages to and from the
  content blocks of Anthropic's API, and the completion request over HTTP. Pointers of the blocks are
  options. The server is the argument \<open>http\<close>, from an API key and a request to the exchange.
\<close>

subsection \<open>The types of the API\<close>

record source =
  so_type :: string
  so_media_type :: string
  so_data :: string

datatype block = Block
  (bl_type: string) (bl_text: "string option") (bl_source: "source option")
  (bl_id: "string option") (bl_name: "string option") (bl_input: "string option")
  (bl_tool_use_id: "string option") (bl_is_error: "bool option") (bl_content: "block list")

record anthropic_message =
  am_role :: string
  am_content :: "block list"

record anthropic_tool =
  at_name :: string
  at_description :: string
  at_input_schema :: string

record message_request =
  mr_model :: string
  mr_system :: "string option"
  mr_messages :: "anthropic_message list"
  mr_tools :: "anthropic_tool list"
  mr_max_tokens :: int
  mr_stop_sequences :: "string list"
  mr_temperature :: "float32 option"

record message_response =
  mp_role :: string
  mp_content :: "block list"
  mp_error :: "(string \<times> string) option"

subsection \<open>Requests\<close>

definition AnthropicModelMap :: "(string \<times> string) list" where
  "AnthropicModelMap =
    [(''3db6db92-a091-4944-9f7e-9d43e70218d3-anthropic-claude-3-opus-20240229'', ''claude-3-opus-20240229''),
     (''93d07ee3-c9fb-4f0e-9fc1-df1a7af10b6c-anthropic-claude-3.5-sonnet-20240620'',
      ''claude-3-5-sonnet-20240620'')]"

definition GetAnthropicLLMModelByModelID :: "string \<Rightarrow> string + string" where
  "GetAnthropicLLMModelByModelID i =
     (case map_of AnthropicModelMap i of
        None \<Rightarrow> Inl (''model not found for model ID '' @ i)
      | Some mdl \<Rightarrow> Inr mdl)"

definition text_block :: "string \<Rightarrow> block" where
  "text_block t = Block ''text'' (Some t) None None None None None None []"

text \<open>The first kind of content a \<^verbatim>\<open>Content\<close> holds decides; the role becomes \<^verbatim>\<open>user\<close> at a tool result.\<close>

definition ToAnthropicBlock :: "(string \<Rightarrow> string) \<Rightarrow> content \<Rightarrow> string + block" where
  "ToAnthropicBlock sniffer c =
     (if ct_text c \<noteq> '''' then Inr (text_block (ct_text c))
      else if ct_image_url c \<noteq> '''' then Inl ''image URL is not supported''
      else if image_bytes c \<noteq> '''' then
        Inr (Block ''image'' None
          (Some \<lparr>so_type = ''base64'', so_media_type = sniffer (image_bytes c), so_data = image_bytes c\<rparr>)
          None None None None None [])
      else case ct_tool_call c of
        Some tc \<Rightarrow>
          Inr (Block ''tool_use'' None None (Some (tc_id tc)) (Some (tc_function_name tc))
            (Some (tc_arguments tc)) None None [])
      | None \<Rightarrow>
          (case ct_tool_result c of
             Some tr \<Rightarrow>
               Inr (Block ''tool_result'' None None None None None (Some (tr_id tr)) (Some (tr_is_error tr))
                 [text_block (tr_result tr)])
           | None \<Rightarrow> Inl ''content must have text or image''))"

definition ToAnthropicMessage :: "(string \<Rightarrow> string) \<Rightarrow> message \<Rightarrow> string + anthropic_message" where
  "ToAnthropicMessage sniffer msg =
     (case traverse_sum (ToAnthropicBlock sniffer) (m_content msg) of
        Inl e \<Rightarrow> Inl e
      | Inr blocks \<Rightarrow>
          Inr \<lparr>am_role = (if list_ex (\<lambda>b. bl_type b = ''tool_result'') blocks then ''user'' else m_role msg),
            am_content = blocks\<rparr>)"

definition getContentsText :: "content list \<Rightarrow> string option" where
  "getContentsText cs = (if cs = [] then None else Some (concat (map ct_text cs)))"

text \<open>A system message replaces the system prompt of the one before it.\<close>

fun anthropic_messages ::
    "(string \<Rightarrow> string) \<Rightarrow> message list \<Rightarrow> string option \<Rightarrow>
     string + (string option \<times> anthropic_message list)" where
  "anthropic_messages sniffer [] system = Inr (system, [])"
| "anthropic_messages sniffer (m # ms) system =
     (if m_role m = ''system'' then anthropic_messages sniffer ms (getContentsText (m_content m))
      else case ToAnthropicMessage sniffer m of
        Inl e \<Rightarrow> Inl e
      | Inr a \<Rightarrow>
          (case anthropic_messages sniffer ms system of
             Inl e \<Rightarrow> Inl e
           | Inr (system', as) \<Rightarrow> Inr (system', a # as)))"

definition ToAnthropicMessageRequest ::
    "(string \<Rightarrow> string) \<Rightarrow> completion_request \<Rightarrow> string + message_request" where
  "ToAnthropicMessageRequest sniffer req =
     (case GetAnthropicLLMModelByModelID (cr_model_id req) of
        Inl e \<Rightarrow> Inl e
      | Inr mdl \<Rightarrow>
          (case anthropic_messages sniffer (cr_messages req) None of
             Inl e \<Rightarrow> Inl e
           | Inr (system, msgs) \<Rightarrow>
               Inr \<lparr>mr_model = mdl, mr_system = system, mr_messages = msgs,
                 mr_tools = map (\<lambda>t. \<lparr>at_name = tl_name t, at_description = tl_description t,
                   at_input_schema = tl_parameters t\<rparr>) (cr_tools req),
                 mr_max_tokens = from_ptr_or (cr_max_tokens req) 0,
                 mr_stop_sequences = cr_stop_sequences req, mr_temperature = cr_temperature req\<rparr>))"

subsection \<open>Responses\<close>

definition FromAnthropicContentMessage :: "block \<Rightarrow> string + content" where
  "FromAnthropicContentMessage b =
     (if bl_type b = ''text'' then
        (case bl_text b of
           None \<Rightarrow> Inl ''text content is nil''
         | Some t \<Rightarrow> Inr (no_content\<lparr>ct_text := t\<rparr>))
      else if bl_type b = ''image'' then
        (case bl_source b of
           None \<Rightarrow> Inl ''image source is nil''
         | Some s \<Rightarrow>
             if so_type s \<noteq> ''base64'' then Inl (''invalid image source type '' @ so_type s)
             else Inr (no_content\<lparr>ct_image := Some (so_data s)\<rparr>))
      else if bl_type b = ''tool_use'' then
        (case (bl_id b, bl_name b, bl_input b) of
           (None, _, _) \<Rightarrow> Inl ''tool use ID is nil''
         | (Some _, None, _) \<Rightarrow> Inl ''tool use name is nil''
         | (Some _, Some _, None) \<Rightarrow> Inl ''tool use input is nil''
         | (Some i, Some n, Some args) \<Rightarrow>
             Inr (no_content\<lparr>ct_tool_call :=
               Some \<lparr>tc_id = i, tc_function_name = n, tc_arguments = args\<rparr>\<rparr>))
      else Inl (''invalid content type '' @ bl_type b))"

text \<open>
  \<^verbatim>\<open>util.NewObjectJsonReader\<close> fails when a raw message inside the request is not JSON; everything else
  of a request has an encoding.
\<close>

definition encodable_request :: "text_lib \<Rightarrow> message_request \<Rightarrow> bool" where
  "encodable_request lib mr \<longleftrightarrow>
     list_all (\<lambda>t. raw_json lib (at_input_schema t)) (mr_tools mr) \<and>
     list_all (\<lambda>m. list_all (\<lambda>b. case bl_input b of None \<Rightarrow> True | Some t \<Rightarrow> raw_json lib t) (am_content m))
       (mr_messages mr)"

definition read_anthropic_response :: "nat \<Rightarrow> string + message_response \<Rightarrow> string + message list" where
  "read_anthropic_response status body =
     (if status div 100 \<noteq> 2 \<and> status div 100 \<noteq> 4 then Inl (''unexpected status code '' @ nat_digits status)
      else case body of
        Inl e \<Rightarrow> Inl e
      | Inr resp \<Rightarrow>
          (case mp_error resp of
             Some (t, m) \<Rightarrow> Inl (''Anthropic API error: {'' @ t @ '' '' @ m @ ''}'')
           | None \<Rightarrow>
               if mp_content resp = [] then Inl ''no content in response''
               else (case traverse_sum FromAnthropicContentMessage (mp_content resp) of
                       Inl e \<Rightarrow> Inl e
                     | Inr cs \<Rightarrow> Inr [\<lparr>m_role = mp_role resp, m_content = cs\<rparr>])))"

definition anthropic_completion ::
    "text_lib \<Rightarrow> (message_request \<Rightarrow> message_response exchange) \<Rightarrow> completion_request \<Rightarrow>
     string + message list" where
  "anthropic_completion lib http req =
     (case ToAnthropicMessageRequest (sniff lib) req of
        Inl e \<Rightarrow> Inl e
      | Inr mr \<Rightarrow>
          if \<not> encodable_request lib mr then Inl ''json: error calling MarshalJSON for type json.RawMessage''
          else (case http mr of
                  Unreachable e \<Rightarrow> Inl e
                | Answered status body \<Rightarrow> read_anthropic_response status body))"

subsection \<open>Blocks have the fields of their type\<close>

text \<open>
  The API asks of each type of block exactly the fields that belong to it; a nested block is the
  text of a tool result.
\<close>

fun typed_block :: "block \<Rightarrow> bool" where
  "typed_block (Block ty text src i name inp use_id err sub) =
     (if ty = ''text'' then text \<noteq> None \<and> src = None \<and> i = None \<and> name = None \<and> inp = None \<and>
        use_id = None \<and> err = None \<and> sub = []
      else if ty = ''image'' then text = None \<and> (\<exists>s. src = Some s \<and> so_type s = ''base64'' \<and> so_data s \<noteq> '''') \<and>
        i = None \<and> name = None \<and> inp = None \<and> use_id = None \<and> err = None \<and> sub = []
      else if ty = ''tool_use'' then text = None \<and> src = None \<and> i \<noteq> None \<and> name \<noteq> None \<and> inp \<noteq> None \<and>
        use_id = None \<and> err = None \<and> sub = []
      else if ty = ''tool_result'' then text = None \<and> src = None \<and> i = None \<and> name = None \<and> inp = None \<and>
        use_id \<noteq> None \<and> err \<noteq> None \<and> list_all typed_block sub \<and> sub \<noteq> []
      else False)"

definition typed_message :: "anthropic_message \<Rightarrow> bool" where
  "typed_message m \<longleftrightarrow>
     list_all typed_block (am_content m) \<and>
     (list_ex (\<lambda>b. bl_type b = ''tool_result'') (am_content m) \<longrightarrow> am_role m = ''user'') \<and>
     am_role m \<noteq> ''system''"

lemma typed_text_block [simp]: "typed_block (text_block t)" "bl_type (text_block t) = ''text''"
  by (simp_all add: text_block_def)

lemma ToAnthropicBlock_typed: "ToAnthropicBlock sniffer c = Inr b \<Longrightarrow> typed_block b"
  by (auto simp: ToAnthropicBlock_def split: if_splits option.splits)

lemma ToAnthropicMessage_typed:
  assumes "ToAnthropicMessage sniffer m = Inr a" and "m_role m \<noteq> ''system''"
  shows "typed_message a"
proof -
  obtain bs where bs: "traverse_sum (ToAnthropicBlock sniffer) (m_content m) = Inr bs"
    and a: "a = \<lparr>am_role = (if list_ex (\<lambda>b. bl_type b = ''tool_result'') bs then ''user'' else m_role m),
      am_content = bs\<rparr>"
    using assms(1) by (auto simp: ToAnthropicMessage_def split: sum.splits)
  have "list_all typed_block bs"
    using traverse_sum_InrD[OF bs] by (induction rule: list_all2_induct) (simp_all add: ToAnthropicBlock_typed)
  with a assms(2) show ?thesis by (simp add: typed_message_def)
qed

lemma anthropic_messages_InrD:
  assumes "anthropic_messages sniffer ms system = Inr (system', as)"
  shows "list_all2 (\<lambda>m a. ToAnthropicMessage sniffer m = Inr a) (filter (\<lambda>m. m_role m \<noteq> ''system'') ms) as \<and>
    system' = (case filter (\<lambda>m. m_role m = ''system'') ms of
      [] \<Rightarrow> system | x # xs \<Rightarrow> getContentsText (m_content (last (x # xs))))"
  using assms
proof (induction ms arbitrary: system as)
  case (Cons m ms)
  show ?case
  proof (cases "m_role m = ''system''")
    case True
    with Cons show ?thesis by (fastforce split: list.splits)
  next
    case False
    with Cons.prems obtain a as' where "ToAnthropicMessage sniffer m = Inr a" "as = a # as'"
      "anthropic_messages sniffer ms system = Inr (system', as')"
      by (auto split: sum.splits)
    with False Cons.IH show ?thesis by auto
  qed
qed auto

subsection \<open>Requests are well typed\<close>

definition sample_anthropic_request :: completion_request where
  "sample_anthropic_request =
     \<lparr>cr_model_id = ''93d07ee3-c9fb-4f0e-9fc1-df1a7af10b6c-anthropic-claude-3.5-sonnet-20240620'',
      cr_messages =
        [\<lparr>m_role = ''system'', m_content = [no_content\<lparr>ct_text := ''be brief''\<rparr>]\<rparr>,
         \<lparr>m_role = ''assistant'', m_content = [no_content\<lparr>ct_tool_call :=
            Some \<lparr>tc_id = ''c1'', tc_function_name = ''add'', tc_arguments = ''{}''\<rparr>\<rparr>]\<rparr>,
         \<lparr>m_role = ''tool'', m_content = [no_content\<lparr>ct_tool_result :=
            Some \<lparr>tr_id = ''c1'', tr_result = ''3'', tr_is_error = False\<rparr>\<rparr>]\<rparr>],
      cr_tools = [], cr_stop_sequences = [], cr_temperature = None, cr_max_tokens = Some 100,
      cr_max_completion_tokens = None, cr_response_format = None\<rparr>"

lemma ToAnthropicMessage_blocks:
  "ToAnthropicMessage sniffer m = Inr a \<Longrightarrow> length (am_content a) = length (m_content m)"
  by (auto simp: ToAnthropicMessage_def split: sum.splits dest!: traverse_sum_InrD
      dest: list_all2_lengthD)

text \<open>C31. Every request made for Anthropic is well typed: each message of the request that is not a
  system message becomes one message with as many blocks as it had contents, in order, every block
  has exactly the fields of its type, tool results are sent by the user, and no message is sent as
  \<^verbatim>\<open>system\<close>; the system prompt is the text of the last system message.\<close>

theorem anthropic_requests_well_typed:
  assumes "ToAnthropicMessageRequest sniffer req = Inr mr"
  shows "list_all typed_message (mr_messages mr) \<and>
    map (\<lambda>a. length (am_content a)) (mr_messages mr) =
      map (\<lambda>m. length (m_content m)) (filter (\<lambda>m. m_role m \<noteq> ''system'') (cr_messages req)) \<and>
    mr_system mr = (case filter (\<lambda>m. m_role m = ''system'') (cr_messages req) of
      [] \<Rightarrow> None | x # xs \<Rightarrow> getContentsText (m_content (last (x # xs))))"
proof -
  let ?asked = "filter (\<lambda>m. m_role m \<noteq> ''system'') (cr_messages req)"
  have am: "anthropic_messages sniffer (cr_messages req) None = Inr (mr_system mr, mr_messages mr)"
    using assms by (auto simp: ToAnthropicMessageRequest_def split: sum.splits)
  have all2: "list_all2 (\<lambda>m a. ToAnthropicMessage sniffer m = Inr a) ?asked (mr_messages mr)"
    using anthropic_messages_InrD[OF am] by blast
  moreover have "list_all (\<lambda>m. m_role m \<noteq> ''system'') ?asked"
    by (simp add: list_all_iff)
  ultimately have "list_all typed_message (mr_messages mr)"
    by (induction rule: list_all2_induct) (simp_all add: ToAnthropicMessage_typed)
  moreover from all2 have
    "map (\<lambda>a. length (am_content a)) (mr_messages mr) = map (\<lambda>m. length (m_content m)) ?asked"
    by (induction rule: list_all2_induct) (simp_all add: ToAnthropicMessage_blocks)
  ultimately show ?thesis
    using anthropic_messages_InrD[OF am] by blast
qed

theorem anthropic_requests_well_typed_witness:
  "\<exists>mr. ToAnthropicMessageRequest id sample_anthropic_request = Inr mr \<and>
     list_all typed_message (mr_messages mr) \<and>
     map (\<lambda>a. length (am_content a)) (mr_messages mr) = [1, 1] \<and> mr_system mr = Some ''be brief''"
proof -
  have "\<exists>mr. ToAnthropicMessageRequest id sample_anthropic_request = Inr mr"
    by (simp add: sample_anthropic_request_def ToAnthropicMessageRequest_def AnthropicModelMap_def
        GetAnthropicLLMModelByModelID_def ToAnthropicMessage_def ToAnthropicBlock_def no_content_def
        image_bytes_def)
  then obtain mr where mr: "ToAnthropicMessageRequest id sample_anthropic_request = Inr mr" by blast
  from anthropic_requests_well_typed[OF mr] mr show ?thesis
    by (simp add: sample_anthropic_request_def getContentsText_def no_content_def)
qed

subsection \<open>Blocks read back\<close>

text \<open>Contents of exactly one kind the API can return.\<close>

definition one_kind :: "content \<Rightarrow> bool" where
  "one_kind c \<longleftrightarrow>
     (\<exists>t. t \<noteq> '''' \<and> c = no_content\<lparr>ct_text := t\<rparr>) \<or>
     (\<exists>i. i \<noteq> '''' \<and> c = no_content\<lparr>ct_image := Some i\<rparr>) \<or>
     (\<exists>tc. c = no_content\<lparr>ct_tool_call := Some tc\<rparr>)"

lemma anthropic_block_round_trip:
  "one_kind c \<Longrightarrow> \<exists>b. ToAnthropicBlock sniffer c = Inr b \<and> FromAnthropicContentMessage b = Inr c"
  by (auto simp: one_kind_def ToAnthropicBlock_def FromAnthropicContentMessage_def text_block_def
      no_content_def image_bytes_def)

text \<open>A typed block that is no tool result is read.\<close>

lemma typed_block_is_read:
  assumes "typed_block b" and "bl_type b \<noteq> ''tool_result''"
  obtains c where "FromAnthropicContentMessage b = Inr c"
  using assms by (cases b) (auto simp: FromAnthropicContentMessage_def split: if_splits)

end
