(* ===== verification/Go_Base64.thy ===== *)
theory Go_Base64
  imports Go_Text
begin

text \<open>
  \<^verbatim>\<open>base64.StdEncoding\<close>: the padded encoding of bytes, and the decoder, which skips line ends and
  refuses characters outside the alphabet, misplaced padding and incomplete groups.
\<close>

definition std_b64_char :: "nat \<Rightarrow> char" where
  "std_b64_char n = (if n = 62 then CHR ''+'' else if n = 63 then CHR ''/'' else b64_char n)"

definition std_b64_val :: "char \<Rightarrow> nat option" where
  "std_b64_val c =
     (let n = (of_char c :: nat) in
      if 65 \<le> n \<and> n \<le> 90 then Some (n - 65)
      else if 97 \<le> n \<and> n \<le> 122 then Some (n - 97 + 26)
      else if 48 \<le> n \<and> n \<le> 57 then Some (n - 48 + 52)
      else if c = CHR ''+'' then Some 62
      else if c = CHR ''/'' then Some 63
      else None)"

abbreviation pad :: char where
  "pad \<equiv> CHR ''=''"

fun encode_groups :: "nat list \<Rightarrow> string" where
  "encode_groups [] = []"
| "encode_groups [a] = [std_b64_char (a div 4), std_b64_char (a mod 4 * 16), pad, pad]"
| "encode_groups [a, b] =
     [std_b64_char (a div 4), std_b64_char (a mod 4 * 16 + b div 16), std_b64_char (b mod 16 * 4), pad]"
| "encode_groups (a # b # c # rest) =
     std_b64_char (a div 4) # std_b64_char (a mod 4 * 16 + b div 16) #
     std_b64_char (b mod 16 * 4 + c div 64) # std_b64_char (c mod 64) # encode_groups rest"

fun decode_groups :: "string \<Rightarrow> nat list option" where
  "decode_groups [] = Some []"
| "decode_groups (c1 # c2 # c3 # c4 # rest) =
     (case (std_b64_val c1, std_b64_val c2) of
        (Some x, Some y) \<Rightarrow>
          if c3 = pad then (if c4 = pad \<and> rest = [] then Some [x * 4 + y div 16] else None)
          else (case std_b64_val c3 of
                  None \<Rightarrow> None
                | Some z \<Rightarrow>
                    if c4 = pad
                    then (if rest = [] then Some [x * 4 + y div 16, y mod 16 * 16 + z div 4] else None)
                    else (case std_b64_val c4 of
                            None \<Rightarrow> None
                          | Some w \<Rightarrow>
                              map_option (\<lambda>bs. (x * 4 + y div 16) # (y mod 16 * 16 + z div 4) #
                                (z mod 4 * 64 + w) # bs) (decode_groups rest)))
      | _ \<Rightarrow> None)"
| "decode_groups _ = None"

definition EncodeToString :: "string \<Rightarrow> string" where
  "EncodeToString s = encode_groups (map of_char s)"

definition line_end :: "char \<Rightarrow> bool" where
  "line_end c \<longleftrightarrow> c = CHR 0x0A \<or> c = CHR 0x0D"

definition DecodeString :: "string \<Rightarrow> string option" where
  "DecodeString t = map_option (map char_of) (decode_groups (filter (\<lambda>c. \<not> line_end c) t))"

subsection \<open>Decoding inverts encoding\<close>

lemma std_b64_val_char [simp]: "n < 64 \<Longrightarrow> std_b64_val (std_b64_char n) = Some n"
  by (auto simp: std_b64_val_def std_b64_char_def b64_char_def Let_def)

lemma std_b64_val_no_mark: "std_b64_val c \<noteq> None \<Longrightarrow> c \<noteq> pad \<and> \<not> line_end c"
  by (auto simp: std_b64_val_def line_end_def)

lemma std_b64_char_no_mark [simp]:
  assumes "n < 64"
  shows "std_b64_char n \<noteq> pad" "\<not> line_end (std_b64_char n)"
  using std_b64_val_no_mark[of "std_b64_char n"] assms by simp_all

lemma pad_no_line_end [simp]: "\<not> line_end pad"
  by (simp add: line_end_def)

lemma div_byte [simp]: "b < 256 \<Longrightarrow> b div 4 < 64" "b < 256 \<Longrightarrow> b div 16 < 16" "b < 256 \<Longrightarrow> b div 64 < 4"
  for b :: nat
  by (simp_all add: div_less_iff_less_mult)

lemma join_bits:
  fixes x y k m :: nat
  assumes "y < k" and "x < m"
  shows "x * k + y < m * k" "(x * k + y) div k = x" "(x * k + y) mod k = y"
proof -
  have "x * k + y < Suc x * k" using assms(1) by simp
  also have "\<dots> \<le> m * k" using assms(2) by (intro mult_right_mono) simp_all
  finally show "x * k + y < m * k" .
qed (use assms in simp_all)

lemma sextets [simp]:
  fixes a b :: nat
  shows "a < 256 \<Longrightarrow> a div 4 < 64" "b < 256 \<Longrightarrow> a mod 4 * 16 + b div 16 < 64"
    "b < 256 \<Longrightarrow> a mod 16 * 4 + b div 64 < 64" "a mod 4 * 16 < 64" "a mod 16 * 4 < 64" "a mod 64 < 64"
  using join_bits(1)[of "b div 16" 16 "a mod 4" 4] join_bits(1)[of "b div 64" 4 "a mod 16" 16]
    join_bits(1)[of 0 16 "a mod 4" 4] join_bits(1)[of 0 4 "a mod 16" 16] div_byte[of a] div_byte[of b]
  by simp_all

lemma decode_encode_groups:
  "list_all (\<lambda>b. b < 256) bs \<Longrightarrow> decode_groups (encode_groups bs) = Some bs"
  by (induction bs rule: encode_groups.induct) simp_all

lemma no_line_end_encode_groups:
  "list_all (\<lambda>b. b < 256) bs \<Longrightarrow> filter (\<lambda>c. \<not> line_end c) (encode_groups bs) = encode_groups bs"
  by (induction bs rule: encode_groups.induct) simp_all

lemma of_char_lt: "(of_char c :: nat) < 256"
  using of_char_mod_256[where 'a = nat, of c] by (metis mod_less_divisor zero_less_numeral)

lemma Decode_Encode [simp]: "DecodeString (EncodeToString s) = Some s"
proof -
  have "list_all (\<lambda>b. b < 256) (map (of_char :: char \<Rightarrow> nat) s)"
    by (simp add: list_all_iff of_char_lt)
  then show ?thesis
    by (simp add: DecodeString_def EncodeToString_def decode_encode_groups no_line_end_encode_groups comp_def)
qed

lemma encode_groups_Nil_iff [simp]: "encode_groups bs = [] \<longleftrightarrow> bs = []"
  by (cases bs rule: encode_groups.cases) simp_all

lemma EncodeToString_Nil_iff [simp]: "EncodeToString s = [] \<longleftrightarrow> s = []"
  by (simp add: EncodeToString_def)

end
