(* ===== verification/Azure_Adapter.thy ===== *)
theory Azure_Adapter
  imports Llm_Types Go_Base64
begin

text \<open>
  \<^verbatim>\<open>llm/adapter/azure.go\<close>, \<^verbatim>\<open>azure_embedding.go\<close> and \<^verbatim>\<open>voyage.go\<close>: completions by Azure and OpenAI, and
  the two embedding adapters. The requests are the values of the SDK's types the code builds; the SDK
  client is the argument \<open>chat\<close>, from a request to an error or the choices of the response. A nil
  pointer read in the conversions is a panic.
\<close>

subsection \<open>The types of the SDK\<close>

datatype azure_part = PartImage string | PartText string

record azure_call =
  ac_id :: string
  ac_name :: string
  ac_arguments :: string

datatype azure_message =
  UserMessage "azure_part list"
| AssistantText string
| AssistantCalls "azure_call list"
| SystemMessage string
| ToolMessage string string

datatype azure_format =
  JSONFormat | TextFormat
| SchemaFormat "string option" "string option" string "bool option"

record azure_options =
  ao_deployment :: string
  ao_max_tokens :: "int option"
  ao_max_completion_tokens :: "int option"
  ao_temperature :: "float32 option"
  ao_stop :: "string list"
  ao_format :: "azure_format option"
  ao_messages :: "azure_message list"
  ao_tools :: "tool list"

text \<open>
  A choice of the response: its message, if any, with role, content and tool calls. A tool call is
  \<open>None\<close> when it is not a function call; its id and its function with name and arguments are pointers.
\<close>

record choice_message =
  cm_role :: "string option"
  cm_content :: "string option"
  cm_tool_calls :: "(string option \<times> (string option \<times> string option) option) option list"

type_synonym choice = "choice_message option"

subsection \<open>Deployments\<close>

definition AzureModelDeploymentMap0 :: smap where
  "AzureModelDeploymentMap0 =
    [(''5a265146-4e05-4cd7-a0a9-9adda7bf7a38-azure-gpt4o'', ''{AOAI_GPT4O_DEPLOYMENT}''),
     (''bdf5c21b-ad28-4096-9bca-667927b5c742-azure-gpt4'', ''{AOAI_GPT4_DEPLOYMENT}''),
     (''4b7b4d5c-7b6a-4d4e-8b0b-4b2b3c4d5e6f-openai-o1'', ''o1''),
     (''5c1a5c30-876a-48d4-9378-a2501fc6b92d-openai-o1-mini'', ''o1-mini''),
     (''be28aa22-c1c4-49e0-bc05-dddb6b7edb7b-openai-4o'', ''gpt-4o''),
     (''7b8ffb04-4a8d-4e4a-b4b1-9ae90613d902-openai-4o-mini'', ''gpt-4o-mini'')]"

text \<open>
  The submatch of \<^verbatim>\<open>\{(.+?)\}\<close>: after the first brace that allows it, the shortest text of at least one
  character up to a closing brace on the same line.
\<close>

fun until_brace :: "string \<Rightarrow> string option" where
  "until_brace [] = None"
| "until_brace (c # cs) =
     (if c = CHR ''}'' then Some []
      else if c = CHR 0x0A then None
      else map_option (Cons c) (until_brace cs))"

fun braced :: "string \<Rightarrow> string option" where
  "braced (c # d # cs) =
     (if c = CHR ''{'' \<and> d \<noteq> CHR 0x0A \<and> until_brace cs \<noteq> None
      then map_option (Cons d) (until_brace cs)
      else braced (d # cs))"
| "braced _ = None"

definition resolved :: "(string \<Rightarrow> string) \<Rightarrow> string \<Rightarrow> string" where
  "resolved getenv v =
     (case braced v of
        None \<Rightarrow> v
      | Some envVarName \<Rightarrow> if getenv envVarName = '''' then envVarName else getenv envVarName)"

definition AzureModelDeploymentMap :: "(string \<Rightarrow> string) \<Rightarrow> smap" where
  "AzureModelDeploymentMap getenv = map (\<lambda>(k, v). (k, resolved getenv v)) AzureModelDeploymentMap0"

definition GetAzureDeploymentByModelID :: "(string \<Rightarrow> string) \<Rightarrow> string \<Rightarrow> string + string" where
  "GetAzureDeploymentByModelID getenv modelID =
     (case map_of (AzureModelDeploymentMap getenv) modelID of
        None \<Rightarrow> Inl ''model not found''
      | Some d \<Rightarrow> Inr d)"

subsection \<open>Requests\<close>

definition ToChatRequestMessageContent ::
    "(string \<Rightarrow> string) \<Rightarrow> content \<Rightarrow> azure_part" where
  "ToChatRequestMessageContent sniffer c =
     (if image_bytes c \<noteq> '''' then
        PartImage (''data:'' @ sniffer (image_bytes c) @ '';base64,'' @ EncodeToString (image_bytes c))
      else if ct_image_url c \<noteq> '''' then PartImage (ct_image_url c)
      else PartText (ct_text c))"

definition call_of :: "tool_call \<Rightarrow> azure_call" where
  "call_of tc = \<lparr>ac_id = tc_id tc, ac_name = tc_function_name tc, ac_arguments = tc_arguments tc\<rparr>"

definition ToChatRequestMessageClassification ::
    "(string \<Rightarrow> string) \<Rightarrow> message \<Rightarrow> (string + azure_message list) outcome" where
  "ToChatRequestMessageClassification sniffer msg =
     (if m_role msg = ''user'' then
        Return (Inr [UserMessage (map (ToChatRequestMessageContent sniffer) (m_content msg))])
      else if m_role msg = ''assistant'' then
        (let toolCalls = List.map_filter ct_tool_call (m_content msg);
             toolCallCount = length toolCalls
         in if toolCallCount \<noteq> 0 \<and> toolCallCount \<noteq> length (m_content msg) then Return (Inl ''mixed content'')
            else if toolCallCount = length (m_content msg) then
              Return (Inr [AssistantCalls (map call_of toolCalls)])
            else Return (Inr (map (\<lambda>c. AssistantText (ct_text c)) (m_content msg))))
      else if m_role msg = ''system'' then
        Return (Inr (map (\<lambda>c. SystemMessage (ct_text c)) (m_content msg)))
      else if m_role msg = ''tool'' then
        (case traverse_outcome (\<lambda>c. case ct_tool_result c of
             None \<Rightarrow> nil_panic
           | Some tr \<Rightarrow> Return (ToolMessage (tr_result tr) (tr_id tr))) (m_content msg) of
           Panic p \<Rightarrow> Panic p
         | Return ms \<Rightarrow> Return (Inr ms))
      else Return (Inl ''invalid role''))"

definition azure_format_of :: "response_format option \<Rightarrow> string + azure_format option" where
  "azure_format_of rf =
     (case rf of
        None \<Rightarrow> Inr None
      | Some f \<Rightarrow>
          if rf_type f = ''json_object'' then Inr (Some JSONFormat)
          else if rf_type f = ''text'' then Inr (Some TextFormat)
          else case (rf_type f = ''json_schema'', rf_json_schema f) of
            (True, Some js) \<Rightarrow>
              Inr (Some (SchemaFormat (js_name js) (js_description js) (js_schema js) (js_strict js)))
          | _ \<Rightarrow> Inl (''invalid response format: '' @ rf_type f))"

definition azure_options_of ::
    "text_lib \<Rightarrow> (string \<Rightarrow> string) \<Rightarrow> completion_request \<Rightarrow>
     (string + azure_options) outcome" where
  "azure_options_of lib getenv req =
     (case GetAzureDeploymentByModelID getenv (cr_model_id req) of
        Inl e \<Rightarrow> Return (Inl e)
      | Inr deploymentName \<Rightarrow>
          (case azure_format_of (cr_response_format req) of
             Inl e \<Rightarrow> Return (Inl e)
           | Inr fmt \<Rightarrow>
               (case traverse_go (ToChatRequestMessageClassification (sniff lib)) (cr_messages req) of
                  Panic p \<Rightarrow> Panic p
                | Return (Inl e) \<Rightarrow> Return (Inl e)
                | Return (Inr mss) \<Rightarrow>
                    Return (Inr \<lparr>ao_deployment = deploymentName, ao_max_tokens = cr_max_tokens req,
                      ao_max_completion_tokens = cr_max_completion_tokens req,
                      ao_temperature = cr_temperature req, ao_stop = cr_stop_sequences req,
                      ao_format = fmt, ao_messages = concat mss, ao_tools = cr_tools req\<rparr>))))"

subsection \<open>Responses\<close>

definition call_content ::
    "(string option \<times> (string option \<times> string option) option) option \<Rightarrow> content list outcome" where
  "call_content call =
     (case call of
        None \<Rightarrow> Return []
      | Some (Some i, Some (Some n, Some args)) \<Rightarrow>
          Return [no_content\<lparr>ct_tool_call :=
            Some \<lparr>tc_id = i, tc_function_name = n, tc_arguments = args\<rparr>\<rparr>]
      | Some _ \<Rightarrow> nil_panic)"

definition getRolesAndContents :: "choice \<Rightarrow> message outcome" where
  "getRolesAndContents choice =
     (case choice of
        None \<Rightarrow> Return \<lparr>m_role = '''', m_content = []\<rparr>
      | Some m \<Rightarrow>
          if from_ptr_or (cm_role m) '''' = '''' then Return \<lparr>m_role = '''', m_content = []\<rparr>
          else (case traverse_outcome call_content (cm_tool_calls m) of
                  Panic p \<Rightarrow> Panic p
                | Return css \<Rightarrow>
                    Return \<lparr>m_role = from_ptr_or (cm_role m) '''',
                      m_content = (if from_ptr_or (cm_content m) '''' = '''' then []
                        else [no_content\<lparr>ct_text := from_ptr_or (cm_content m) ''''\<rparr>]) @ concat css\<rparr>))"

definition FromGetChatCompletionsResponse :: "choice list \<Rightarrow> message list outcome" where
  "FromGetChatCompletionsResponse = traverse_outcome getRolesAndContents"

definition azure_completion ::
    "text_lib \<Rightarrow> (string \<Rightarrow> string) \<Rightarrow> (azure_options \<Rightarrow> string + choice list) \<Rightarrow>
     completion_request \<Rightarrow> (string + message list) outcome" where
  "azure_completion lib getenv chat req =
     (case azure_options_of lib getenv req of
        Panic p \<Rightarrow> Panic p
      | Return (Inl e) \<Rightarrow> Return (Inl e)
      | Return (Inr body) \<Rightarrow>
          (case chat body of
             Inl e \<Rightarrow> Return (Inl e)
           | Inr choices \<Rightarrow>
               (case FromGetChatCompletionsResponse choices of
                  Panic p \<Rightarrow> Panic p
                | Return ms \<Rightarrow> Return (Inr ms))))"

subsection \<open>Embeddings\<close>

definition AzureEmbeddingModelDeploymentMap0 :: smap where
  "AzureEmbeddingModelDeploymentMap0 =
    [(''6baf223e-d321-41d2-bb33-c8328320e1e3-azure-text-embedding-ada-002'',
      ''AOAI_TEXT_EMBEDDING_ADA_002_DEPLOYMENT''),
     (''d68a09df-3589-4273-b032-04488d9b230d-azure-text-embedding-3-small'',
      ''AOAI_TEXT_EMBEDDING_3_SMALL_DEPLOYMENT''),
     (''38f8d506-b9ab-4c5b-b7c7-051fd4849bbf-azure-text-embedding-3-large'',
      ''AOAI_TEXT_EMBEDDING_3_LARGE_DEPLOYMENT'')]"

definition AzureEmbeddingModelDeploymentMap :: "(string \<Rightarrow> string) \<Rightarrow> smap" where
  "AzureEmbeddingModelDeploymentMap getenv =
     map (\<lambda>(k, v). (k, getenv v)) AzureEmbeddingModelDeploymentMap0"

definition GetAzureEmbeddingDeploymentByModelID :: "(string \<Rightarrow> string) \<Rightarrow> string \<Rightarrow> string + string" where
  "GetAzureEmbeddingDeploymentByModelID getenv modelID =
     (case map_of (AzureEmbeddingModelDeploymentMap getenv) modelID of
        None \<Rightarrow> Inl (''deployment not found for model '' @ modelID)
      | Some d \<Rightarrow> Inr d)"

text \<open>
  \<open>ask_embeddings\<close> is the SDK client on a deployment and the inputs; an item of its answer has a vector and a
  pointer to its index. \<open>widen\<close> is the conversion to \<^verbatim>\<open>float64\<close>.
\<close>

definition azure_embedding ::
    "(string \<Rightarrow> string) \<Rightarrow> ('e \<Rightarrow> 'f) \<Rightarrow> (string \<Rightarrow> string list \<Rightarrow> string + ('e list \<times> int option) list) \<Rightarrow>
     embedding_request \<Rightarrow> (string + 'f embedding list) outcome" where
  "azure_embedding getenv widen ask_embeddings req =
     (case GetAzureEmbeddingDeploymentByModelID getenv (er_model_id req) of
        Inl e \<Rightarrow> Return (Inl e)
      | Inr deploymentName \<Rightarrow>
          (case ask_embeddings deploymentName (er_input req) of
             Inl e \<Rightarrow> Return (Inl e)
           | Inr items \<Rightarrow>
               (case traverse_outcome (\<lambda>(v, i). case i of
                    None \<Rightarrow> nil_panic
                  | Some k \<Rightarrow> Return \<lparr>em_embedding = map widen v, em_index = k\<rparr>) items of
                  Panic p \<Rightarrow> Panic p
                | Return es \<Rightarrow> Return (Inr es))))"

definition VoyageEmbeddingModelMap :: smap where
  "VoyageEmbeddingModelMap =
    [(''c6bbe66a-ac3e-4687-99b6-3a7d64bdf97a-voyage-large-2-instruct'', ''voyage-large-2-instruct''),
     (''84586745-b0ce-4d54-860f-bdbf579224d4-voyage-finance-2'', ''voyage-finance-2''),
     (''369e2def-108c-4355-aea6-25cd3dc90b6f-voyage-multilingual-2'', ''voyage-multilingual-2''),
     (''e9b1d228-ec9d-4972-bfca-ce9593e80866-voyage-law-2'', ''voyage-law-2''),
     (''fb6aa59b-6791-41c5-9262-0ebab269a196-voyage-code-2'', ''voyage-code-2''),
     (''7a571008-601a-463f-a3b9-1ba48de38984-voyage-large-2'', ''voyage-large-2''),
     (''285d60de-ac64-4461-a59d-be86d82fff75-voyage-2'', ''voyage-2'')]"

record voyage_request =
  vr_input :: "string list"
  vr_model :: string
  vr_input_type :: "string option"

definition GetVoyageEmbeddingModelByModelID :: "string \<Rightarrow> string + string" where
  "GetVoyageEmbeddingModelByModelID modelID =
     (case map_of VoyageEmbeddingModelMap modelID of
        None \<Rightarrow> Inl (''model not found for model ID '' @ modelID)
      | Some mdl \<Rightarrow> Inr mdl)"

definition ToVoyageEmbeddingRequest :: "embedding_request \<Rightarrow> string + voyage_request" where
  "ToVoyageEmbeddingRequest req =
     (case GetVoyageEmbeddingModelByModelID (er_model_id req) of
        Inl e \<Rightarrow> Inl e
      | Inr mdl \<Rightarrow> Inr \<lparr>vr_input = er_input req, vr_model = mdl, vr_input_type = er_input_type req\<rparr>)"

text \<open>
  The body of the answer is a text, or fails to be read; \<open>decode\<close> is \<^verbatim>\<open>json.Unmarshal\<close> of it to the
  vectors with their indexes.
\<close>

definition voyage_embedding ::
    "(string \<Rightarrow> string + ('f list \<times> int) list) \<Rightarrow> (voyage_request \<Rightarrow> string exchange) \<Rightarrow>
     embedding_request \<Rightarrow> string + 'f embedding list" where
  "voyage_embedding decode http req =
     (case ToVoyageEmbeddingRequest req of
        Inl e \<Rightarrow> Inl e
      | Inr vr \<Rightarrow>
          (case http vr of
             Unreachable e \<Rightarrow> Inl e
           | Answered status body \<Rightarrow>
               if status \<noteq> 200 then
                 Inl (''status code '' @ nat_digits status @
                   (case body of Inl _ \<Rightarrow> '''' | Inr b \<Rightarrow> '', body '' @ b))
               else (case body of
                       Inl e \<Rightarrow> Inl e
                     | Inr b \<Rightarrow>
                         (case decode b of
                            Inl e \<Rightarrow> Inl e
                          | Inr items \<Rightarrow>
                              Inr (map (\<lambda>(v, i). \<lparr>em_embedding = v, em_index = i\<rparr>) items)))))"

text \<open>Every listed embedding model is known to the adapter of its provider.\<close>

definition embedding_model_served :: "(string \<Rightarrow> string) \<Rightarrow> embedding_model \<Rightarrow> bool" where
  "embedding_model_served getenv m \<longleftrightarrow>
     (case ed_provider m of
        PROVIDER_AZURE \<Rightarrow> map_of (AzureEmbeddingModelDeploymentMap getenv) (ed_id m) \<noteq> None
      | PROVIDER_VOYAGE \<Rightarrow> map_of VoyageEmbeddingModelMap (ed_id m) \<noteq> None
      | _ \<Rightarrow> False)"

lemma embedding_models_served: "list_all (embedding_model_served getenv) embeddingModelList"
  by (simp add: embeddingModelList_def embedding_model_served_def AzureEmbeddingModelDeploymentMap_def
      AzureEmbeddingModelDeploymentMap0_def VoyageEmbeddingModelMap_def)

subsection \<open>Which conversions panic\<close>

lemma traverse_outcome_panics:
  "panics (traverse_outcome f xs) \<longleftrightarrow> (\<exists>x \<in> set xs. panics (f x))"
  by (induction xs) (auto split: outcome.splits)

lemma split_at_Cons:
  "(\<exists>pre x post. a # xs = pre @ x # post \<and> P x \<and> list_all Q pre) \<longleftrightarrow>
     P a \<or> Q a \<and> (\<exists>pre x post. xs = pre @ x # post \<and> P x \<and> list_all Q pre)" (is "?l \<longleftrightarrow> ?r")
proof
  assume ?l
  then obtain pre x post where "a # xs = pre @ x # post" "P x" "list_all Q pre" by blast
  then show ?r by (cases pre) auto
next
  assume ?r
  then show ?l
  proof
    assume "P a"
    then show ?l by (intro exI[of _ "[]"]) auto
  next
    assume "Q a \<and> (\<exists>pre x post. xs = pre @ x # post \<and> P x \<and> list_all Q pre)"
    then obtain pre x post where "a # xs = (a # pre) @ x # post" "P x" "list_all Q (a # pre)" by auto
    then show ?l by blast
  qed
qed

lemma traverse_go_panics:
  "panics (traverse_go f xs) \<longleftrightarrow>
     (\<exists>pre x post. xs = pre @ x # post \<and> panics (f x) \<and> list_all (\<lambda>y. \<exists>r. f y = Return (Inr r)) pre)"
proof (induction xs)
  case (Cons a xs)
  show ?case
    unfolding split_at_Cons using Cons by (auto split: outcome.splits sum.splits)
qed simp

definition unanswered_tool :: "message \<Rightarrow> bool" where
  "unanswered_tool m \<longleftrightarrow> m_role m = ''tool'' \<and> list_ex (\<lambda>c. ct_tool_result c = None) (m_content m)"

lemma panics_map_outcome:
  "panics (case r of Panic p \<Rightarrow> Panic p | Return ms \<Rightarrow> Return (f ms)) \<longleftrightarrow> panics r"
  by (cases r) simp_all

lemma classification_panics:
  "panics (ToChatRequestMessageClassification sniffer m) \<longleftrightarrow> unanswered_tool m"
proof (cases "m_role m = ''tool''")
  case True
  moreover have "panics (case t of None \<Rightarrow> nil_panic | Some tr \<Rightarrow> Return (g tr)) \<longleftrightarrow> t = None"
    for t :: "tool_result option" and g :: "tool_result \<Rightarrow> azure_message"
    by (cases t) simp_all
  ultimately show ?thesis
    by (simp add: ToChatRequestMessageClassification_def unanswered_tool_def panics_map_outcome
        traverse_outcome_panics list_ex_iff)
next
  case False
  then show ?thesis
    by (simp add: ToChatRequestMessageClassification_def unanswered_tool_def Let_def)
qed

definition incomplete_call :: "(string option \<times> (string option \<times> string option) option) option \<Rightarrow> bool" where
  "incomplete_call call \<longleftrightarrow> (\<exists>i f. call = Some (i, f) \<and> (i = None \<or> f = None \<or> fst (the f) = None \<or> snd (the f) = None))"

definition broken_choice :: "choice \<Rightarrow> bool" where
  "broken_choice ch \<longleftrightarrow>
     (\<exists>m. ch = Some m \<and> from_ptr_or (cm_role m) '''' \<noteq> '''' \<and> list_ex incomplete_call (cm_tool_calls m))"

lemma call_content_panics: "panics (call_content call) \<longleftrightarrow> incomplete_call call"
  by (auto simp: call_content_def incomplete_call_def split: option.splits)

lemma response_panics: "panics (FromGetChatCompletionsResponse choices) \<longleftrightarrow> list_ex broken_choice choices"
proof -
  have "panics (getRolesAndContents ch) \<longleftrightarrow> broken_choice ch" for ch
    by (cases ch) (auto simp: getRolesAndContents_def broken_choice_def panics_map_outcome
        traverse_outcome_panics call_content_panics list_ex_iff)
  then show ?thesis
    by (simp add: FromGetChatCompletionsResponse_def traverse_outcome_panics list_ex_iff)
qed

text \<open>The first message that cannot be converted is a tool message without a result.\<close>

definition panicking_messages :: "(string \<Rightarrow> string) \<Rightarrow> message list \<Rightarrow> bool" where
  "panicking_messages sniffer ms \<longleftrightarrow>
     (\<exists>pre m post. ms = pre @ m # post \<and> unanswered_tool m \<and>
        list_all (\<lambda>x. \<exists>r. ToChatRequestMessageClassification sniffer x = Return (Inr r)) pre)"

lemma azure_options_panics:
  "panics (azure_options_of lib getenv req) \<longleftrightarrow>
     (\<exists>d. GetAzureDeploymentByModelID getenv (cr_model_id req) = Inr d) \<and>
     (\<exists>f. azure_format_of (cr_response_format req) = Inr f) \<and>
     panicking_messages (sniff lib) (cr_messages req)"
proof -
  have "panics (case r of Panic p \<Rightarrow> Panic p | Return (Inl e) \<Rightarrow> Return (Inl e) | Return (Inr x) \<Rightarrow> Return (Inr (f x)))
      \<longleftrightarrow> panics r" for r :: "(string + azure_message list list) outcome" and f :: "azure_message list list \<Rightarrow> azure_options"
    by (auto split: outcome.splits sum.splits)
  then show ?thesis
    by (simp add: azure_options_of_def panicking_messages_def traverse_go_panics classification_panics
        split: sum.splits)
qed

lemma azure_completion_panics:
  "panics (azure_completion lib getenv chat req) \<longleftrightarrow>
     panics (azure_options_of lib getenv req) \<or>
     (\<exists>body choices. azure_options_of lib getenv req = Return (Inr body) \<and> chat body = Inr choices \<and>
        list_ex broken_choice choices)"
  by (auto simp: azure_completion_def panics_map_outcome response_panics split: outcome.splits sum.splits)

end
