(* ===== verification/Completion.thy ===== *)
theory Completion
  imports Access Anthropic_Adapter Azure_Adapter
begin

text \<open>
  The completion endpoint: \<^verbatim>\<open>APIHandler.CreateCompletion\<close> and \<^verbatim>\<open>ListCompletionModels\<close> of
  \<^verbatim>\<open>handler/handler.go\<close>, \<^verbatim>\<open>adapter.CreateAdapter\<close>, and the union type \<^verbatim>\<open>MessageContent\<close> of
  \<^verbatim>\<open>api/server.gen.go\<close> with which contents travel. A content arrives as the JSON value it denotes.
\<close>

subsection \<open>The union of message contents\<close>

definition AsMessageContent0 :: "json \<Rightarrow> string option" where
  "AsMessageContent0 j = Option.bind (as_object j) (string_field ''text'')"

definition AsMessageContent1 :: "json \<Rightarrow> string option" where
  "AsMessageContent1 j = Option.bind (as_object j) (string_field ''image'')"

definition AsMessageContent2 :: "json \<Rightarrow> string option" where
  "AsMessageContent2 j = Option.bind (as_object j) (string_field ''image_url'')"

text \<open>Tool results as error flag, result and id; tool calls as arguments, id and name.\<close>

definition AsMessageContent3 :: "json \<Rightarrow> (bool option \<times> string \<times> string) option" where
  "AsMessageContent3 j =
     Option.bind (Option.bind (as_object j) (struct_field ''tool_result'')) (\<lambda>kvs.
       (case (pointer_field read_boolean ''is_error'' kvs, string_field ''result'' kvs,
              string_field ''tool_call_id'' kvs) of
          (Some e, Some r, Some i) \<Rightarrow> Some (e, r, i)
        | _ \<Rightarrow> None))"

definition AsMessageContent4 ::
    "json \<Rightarrow> ((string \<times> json) list option \<times> string option \<times> string option) option" where
  "AsMessageContent4 j =
     Option.bind (Option.bind (as_object j) (struct_field ''tool_call'')) (\<lambda>kvs.
       (case (map_field ''arguments'' kvs, pointer_field read_str ''id'' kvs,
              pointer_field read_str ''name'' kvs) of
          (Some a, Some i, Some n) \<Rightarrow> Some (a, i, n)
        | _ \<Rightarrow> None))"

definition nonempty :: "string option \<Rightarrow> string option" where
  "nonempty t = (if t = Some '''' then None else t)"

text \<open>One content of a request. \<^verbatim>\<open>return400Error\<close> is \<open>Inl\<close>.\<close>

definition tool_call_content ::
    "text_lib \<Rightarrow> (string \<times> json) list option \<Rightarrow> string \<Rightarrow> string option \<Rightarrow> string + content" where
  "tool_call_content lib args i name =
     (case marshal (go_value (JObj (from_ptr_or args []))) of
        None \<Rightarrow> Inl ''Invalid tool call arguments''
      | Some v \<Rightarrow>
          Inr (no_content\<lparr>ct_tool_call := Some \<lparr>tc_id = i, tc_function_name = from_ptr_or name '''',
            tc_arguments = json_write lib v\<rparr>\<rparr>))"

definition completion_content :: "text_lib \<Rightarrow> json \<Rightarrow> string + content" where
  "completion_content lib j =
     (case nonempty (AsMessageContent0 j) of
        Some text \<Rightarrow> Inr (no_content\<lparr>ct_text := text\<rparr>)
      | None \<Rightarrow>
     (case nonempty (AsMessageContent1 j) of
        Some img \<Rightarrow>
          (case DecodeString img of
             None \<Rightarrow> Inl ''Invalid base64 image encoding''
           | Some bytes \<Rightarrow> Inr (no_content\<lparr>ct_image := Some bytes\<rparr>))
      | None \<Rightarrow>
     (case nonempty (AsMessageContent2 j) of
        Some url \<Rightarrow> Inr (no_content\<lparr>ct_image_url := url\<rparr>)
      | None \<Rightarrow>
     (case AsMessageContent3 j of
        Some (e, r, c # cs) \<Rightarrow>
          Inr (no_content\<lparr>ct_tool_result := Some \<lparr>tr_id = c # cs, tr_result = r, tr_is_error = from_ptr_or e False\<rparr>\<rparr>)
      | _ \<Rightarrow>
     (case AsMessageContent4 j of
        Some (args, Some i, name) \<Rightarrow> tool_call_content lib args i name
      | _ \<Rightarrow> Inl ''Invalid message content'')))))"

text \<open>
  One content of an answer: every kind that is set overwrites the union, tool results are not
  answered, a content of no kind is null. Arguments that are no JSON object are answered as empty.
\<close>

definition answered_arguments :: "text_lib \<Rightarrow> string \<Rightarrow> (string \<times> json) list" where
  "answered_arguments lib text =
     (case json_read lib text of
        Some (JObj kvs) \<Rightarrow> [(''arguments'', go_value (JObj kvs))]
      | Some JNull \<Rightarrow> []
      | _ \<Rightarrow> [(''arguments'', JObj [])])"

definition api_content :: "text_lib \<Rightarrow> content \<Rightarrow> json" where
  "api_content lib c =
     (case ct_tool_call c of
        Some tc \<Rightarrow>
          JObj [(''tool_call'', JObj (answered_arguments lib (tc_arguments tc) @
            [(''id'', JStr (tc_id tc)), (''name'', JStr (tc_function_name tc))]))]
      | None \<Rightarrow>
          if ct_image_url c \<noteq> '''' then JObj [(''image_url'', JStr (ct_image_url c))]
          else case ct_image c of
            Some img \<Rightarrow> JObj [(''image'', JStr (EncodeToString img))]
          | None \<Rightarrow> if ct_text c \<noteq> '''' then JObj [(''text'', JStr (ct_text c))] else JNull)"

subsection \<open>Adapters\<close>

datatype llm_adapter = AzureAdapter string string bool | AnthropicAdapter string

record adapter_credentials =
  AOAIEndpoint :: string
  AOAIAPIKey :: string
  AnthropicAPIKey :: string
  OpenAIAPIKey :: string

text \<open>
  What lies outside: the text library, the environment, the constructor of the SDK's client with its
  error, the client's chat call and the HTTP exchange with Anthropic.
\<close>

record llm_world =
  w_lib :: text_lib
  w_getenv :: "string \<Rightarrow> string"
  w_new_client :: "string \<Rightarrow> string \<Rightarrow> bool \<Rightarrow> string option"
  w_chat :: "string \<Rightarrow> string \<Rightarrow> bool \<Rightarrow> azure_options \<Rightarrow> string + choice list"
  w_anthropic :: "string \<Rightarrow> message_request \<Rightarrow> message_response exchange"

definition NewAzureAdapter :: "llm_world \<Rightarrow> string \<Rightarrow> string \<Rightarrow> bool \<Rightarrow> string + llm_adapter" where
  "NewAzureAdapter w endpoint credential openAIMode =
     (case w_new_client w endpoint credential openAIMode of
        Some e \<Rightarrow> Inl e
      | None \<Rightarrow> Inr (AzureAdapter endpoint credential openAIMode))"

definition CreateAdapter :: "llm_world \<Rightarrow> string \<Rightarrow> adapter_credentials \<Rightarrow> string + llm_adapter" where
  "CreateAdapter w modelId cr =
     (case GetModelByID modelId of
        None \<Rightarrow> Inl (''model '' @ modelId @ '' not found'')
      | Some m \<Rightarrow>
          (case md_provider m of
             PROVIDER_AZURE \<Rightarrow> NewAzureAdapter w (AOAIEndpoint cr) (AOAIAPIKey cr) False
           | PROVIDER_ANTHROPIC \<Rightarrow> Inr (AnthropicAdapter (AnthropicAPIKey cr))
           | PROVIDER_OPENAI \<Rightarrow> NewAzureAdapter w ''https://api.openai.com/v1'' (OpenAIAPIKey cr) True
           | PROVIDER_VOYAGE \<Rightarrow> Inl ''unsupported provider: VoyageAI''))"

fun GetCompletion :: "llm_world \<Rightarrow> llm_adapter \<Rightarrow> completion_request \<Rightarrow> (string + message list) outcome" where
  "GetCompletion w (AzureAdapter endpoint credential mode) req =
     azure_completion (w_lib w) (w_getenv w) (w_chat w endpoint credential mode) req"
| "GetCompletion w (AnthropicAdapter key) req =
     Return (anthropic_completion (w_lib w) (w_anthropic w key) req)"

subsection \<open>The endpoint\<close>

record api_message =
  pm_role :: string
  pm_content :: "json list"

record api_tool =
  pt_name :: "string option"
  pt_description :: "string option"
  pt_parameters :: "json option"

record api_json_schema =
  ps_name :: string
  ps_description :: string
  ps_schema :: json
  ps_strict :: "bool option"

record completion_body =
  cb_model_id :: string
  cb_messages :: "api_message list"
  cb_tools :: "api_tool list option"
  cb_stop_sequences :: "string list option"
  cb_temperature :: "float32 option"
  cb_max_tokens :: "int option"
  cb_max_completion_tokens :: "int option"
  cb_response_format :: "(string \<times> api_json_schema option) option"

definition completion_message :: "text_lib \<Rightarrow> api_message \<Rightarrow> string + message" where
  "completion_message lib m =
     (case traverse_sum (completion_content lib) (pm_content m) of
        Inl e \<Rightarrow> Inl e
      | Inr cs \<Rightarrow> Inr \<lparr>m_role = pm_role m, m_content = cs\<rparr>)"

text \<open>Tools that lack a name, a description or parameters are passed over.\<close>

fun completion_tools :: "text_lib \<Rightarrow> api_tool list \<Rightarrow> string + tool list" where
  "completion_tools lib [] = Inr []"
| "completion_tools lib (t # ts) =
     (case (pt_parameters t, pt_name t, pt_description t) of
        (Some v, Some n, Some ds) \<Rightarrow>
          (case marshal v of
             None \<Rightarrow> Inl ''Invalid tool parameters''
           | Some v' \<Rightarrow>
               (case completion_tools lib ts of
                  Inl e \<Rightarrow> Inl e
                | Inr us \<Rightarrow>
                    Inr (\<lparr>tl_name = n, tl_description = ds, tl_parameters = json_write lib v'\<rparr> # us)))
      | _ \<Rightarrow> completion_tools lib ts)"

text \<open>\<^verbatim>\<open>util.ToJsonString\<close>: the encoder ends the text with a line end.\<close>

definition ToJsonString :: "text_lib \<Rightarrow> json \<Rightarrow> string" where
  "ToJsonString lib v = (case marshal v of None \<Rightarrow> '''' | Some v' \<Rightarrow> json_write lib v' @ [CHR 0x0A])"

definition completion_format :: "text_lib \<Rightarrow> (string \<times> api_json_schema option) option \<Rightarrow> response_format option" where
  "completion_format lib rf =
     map_option (\<lambda>(ty, schema). \<lparr>rf_type = ty, rf_json_schema = map_option (\<lambda>s.
       \<lparr>js_name = Some (ps_name s), js_description = Some (ps_description s),
        js_schema = ToJsonString lib (ps_schema s), js_strict = None\<rparr>) schema\<rparr>) rf"

definition completion_request_of ::
    "text_lib \<Rightarrow> completion_body \<Rightarrow> message list \<Rightarrow> tool list \<Rightarrow> completion_request" where
  "completion_request_of lib body messages tools =
     \<lparr>cr_model_id = cb_model_id body, cr_messages = messages, cr_tools = tools, cr_stop_sequences = [],
      cr_temperature = cb_temperature body, cr_max_tokens = cb_max_tokens body,
      cr_max_completion_tokens = cb_max_completion_tokens body,
      cr_response_format = completion_format lib (cb_response_format body)\<rparr>"

definition api_message_of :: "text_lib \<Rightarrow> message \<Rightarrow> api_message" where
  "api_message_of lib m = \<lparr>pm_role = m_role m, pm_content = map (api_content lib) (m_content m)\<rparr>"

definition CreateCompletion ::
    "llm_world \<Rightarrow> adapter_credentials \<Rightarrow> token option \<Rightarrow> completion_body \<Rightarrow> api_message list reply outcome" where
  "CreateCompletion w cr tok body =
     (case ValidatePermissions tok (checked_id OpCreateCompletion) of
        None \<Rightarrow> Return Unauthorized
      | Some _ \<Rightarrow>
     (case CreateAdapter w (cb_model_id body) cr of
        Inl _ \<Rightarrow> Return (BadRequest (''Model '' @ cb_model_id body @ '' not found''))
      | Inr ad \<Rightarrow>
     (case traverse_sum (completion_message (w_lib w)) (cb_messages body) of
        Inl e \<Rightarrow> Return (BadRequest e)
      | Inr messages \<Rightarrow>
     (case completion_tools (w_lib w) (from_ptr_or (cb_tools body) []) of
        Inl e \<Rightarrow> Return (BadRequest e)
      | Inr tools \<Rightarrow>
     (case GetCompletion w ad (completion_request_of (w_lib w) body messages tools) of
        Panic p \<Rightarrow> Panic p
      | Return (Inl e) \<Rightarrow> Return (ServerError e)
      | Return (Inr answer) \<Rightarrow> Return (Success (map (api_message_of (w_lib w)) answer)))))))"

definition ListCompletionModels :: "token option \<Rightarrow> model list reply" where
  "ListCompletionModels tok = guarded OpListCompletionModels tok (\<lambda>_. Success modelList)"

subsection \<open>A content that was answered comes back\<close>

lemmas as_content_defs [decode_simps] =
  AsMessageContent0_def AsMessageContent1_def AsMessageContent2_def AsMessageContent3_def
  AsMessageContent4_def nonempty_def

lemma text_comes_back:
  "t \<noteq> '''' \<Longrightarrow> completion_content lib (JObj [(''text'', JStr t)]) = Inr (no_content\<lparr>ct_text := t\<rparr>)"
  by (simp add: completion_content_def decode_simps)

lemma image_comes_back:
  "i \<noteq> '''' \<Longrightarrow>
     completion_content lib (JObj [(''image'', JStr (EncodeToString i))]) = Inr (no_content\<lparr>ct_image := Some i\<rparr>)"
  by (simp add: completion_content_def decode_simps)

lemma url_comes_back:
  "u \<noteq> '''' \<Longrightarrow>
     completion_content lib (JObj [(''image_url'', JStr u)]) = Inr (no_content\<lparr>ct_image_url := u\<rparr>)"
  by (simp add: completion_content_def decode_simps)

lemma call_comes_back:
  "completion_content lib (JObj [(''tool_call'', JObj [(''arguments'', JObj kvs), (''id'', JStr i), (''name'', JStr n)])]) =
     tool_call_content lib (Some kvs) i (Some n)"
  by (simp add: completion_content_def decode_simps Let_def)

text \<open>The arguments as they come back: the same value, in the text \<^verbatim>\<open>json.Marshal\<close> writes.\<close>

definition rewritten :: "text_lib \<Rightarrow> string \<Rightarrow> string" where
  "rewritten lib args = (case json_read lib args of Some v \<Rightarrow> json_write lib (go_value v) | None \<Rightarrow> args)"

definition resent :: "text_lib \<Rightarrow> content \<Rightarrow> content" where
  "resent lib c = c\<lparr>ct_tool_call := map_option (\<lambda>tc. tc\<lparr>tc_arguments := rewritten lib (tc_arguments tc)\<rparr>)
     (ct_tool_call c)\<rparr>"

definition reads_object :: "text_lib \<Rightarrow> string \<Rightarrow> bool" where
  "reads_object lib t \<longleftrightarrow> (\<exists>kvs. json_read lib t = Some (JObj kvs) \<and> encodable (JObj kvs))"

lemma call_resent:
  assumes "reads_object lib (tc_arguments tc)" and c: "c = no_content\<lparr>ct_tool_call := Some tc\<rparr>"
  shows "completion_content lib (api_content lib c) = Inr (resent lib c)"
proof -
  from assms(1) obtain kvs where kvs: "json_read lib (tc_arguments tc) = Some (JObj kvs)" "encodable (JObj kvs)"
    by (auto simp: reads_object_def)
  obtain kvs' where kvs': "go_value (JObj kvs) = JObj kvs'" by simp
  have idem: "go_value (JObj kvs') = JObj kvs'" using go_value_idem[of "JObj kvs"] by (simp only: kvs')
  have enc: "encodable (JObj kvs')" using encodable_go_value[OF kvs(2)] by (simp only: kvs')
  have "api_content lib c = JObj [(''tool_call'', JObj [(''arguments'', JObj kvs'),
      (''id'', JStr (tc_id tc)), (''name'', JStr (tc_function_name tc))])]"
    using kvs(1) c by (simp add: api_content_def answered_arguments_def kvs' del: go_value.simps)
  moreover have "tool_call_content lib (Some kvs') (tc_id tc) (Some (tc_function_name tc)) = Inr (resent lib c)"
    using kvs(1) c enc
    by (simp add: tool_call_content_def idem marshal_def resent_def rewritten_def kvs' no_content_def
        del: go_value.simps encodable.simps)
  ultimately show ?thesis by (simp only: call_comes_back)
qed

lemma resent_no_call: "ct_tool_call c = None \<Longrightarrow> resent lib c = c"
  by (simp add: resent_def)

subsection \<open>A conversation with Anthropic\<close>

definition resent_block :: "text_lib \<Rightarrow> block \<Rightarrow> block" where
  "resent_block lib b =
     Block (bl_type b) (bl_text b) (bl_source b) (bl_id b) (bl_name b) (map_option (rewritten lib) (bl_input b))
       (bl_tool_use_id b) (bl_is_error b) (bl_content b)"

definition answerable :: "text_lib \<Rightarrow> block \<Rightarrow> bool" where
  "answerable lib b \<longleftrightarrow>
     typed_block b \<and> bl_type b \<noteq> ''tool_result'' \<and> bl_text b \<noteq> Some '''' \<and>
     (\<forall>s. bl_source b = Some s \<longrightarrow> so_media_type s = sniff lib (so_data s)) \<and>
     (\<forall>t. bl_input b = Some t \<longrightarrow> reads_object lib t)"

lemma answerable_cases:
  assumes "answerable lib b"
  obtains (words) t where "b = text_block t" "t \<noteq> ''''"
  | (img) d where "d \<noteq> ''''"
      "b = Block ''image'' None (Some \<lparr>so_type = ''base64'', so_media_type = sniff lib d, so_data = d\<rparr>)
         None None None None None []"
  | (call) i n args where "reads_object lib args"
      "b = Block ''tool_use'' None None (Some i) (Some n) (Some args) None None []"
proof -
  obtain ty tx src i n inp u e sub where b: "b = Block ty tx src i n inp u e sub" by (cases b)
  consider "ty = ''text''" | "ty = ''image''" | "ty = ''tool_use''"
    using assms by (auto simp: answerable_def b split: if_splits)
  then show thesis
  proof cases
    case 1
    with assms show thesis by (intro that(1)[of "the tx"]) (auto simp: answerable_def b text_block_def)
  next
    case 2
    with assms obtain s where "src = Some s" "so_type s = ''base64''" "so_data s \<noteq> ''''"
      "so_media_type s = sniff lib (so_data s)"
      by (auto simp: answerable_def b)
    with 2 assms show thesis by (intro that(2)[of "so_data s"]) (auto simp: answerable_def b)
  next
    case 3
    with assms show thesis
      by (intro that(3)[of "the inp" "the i" "the n"]) (auto simp: answerable_def b)
  qed
qed

definition empty_args_lib :: text_lib where
  "empty_args_lib = \<lparr>json_read = (\<lambda>t. if t = ''{ }'' \<or> t = ''{}'' then Some (JObj []) else None),
     json_write = (\<lambda>_. ''{}''), sniff = (\<lambda>_. ''image/png'')\<rparr>"

definition sample_call_block :: block where
  "sample_call_block = Block ''tool_use'' None None (Some ''c1'') (Some ''add'') (Some ''{ }'') None None []"

text \<open>C25. What the model answers comes back to it: a text, image or tool call answered by Anthropic,
  turned into the API's content, sent by the client in the next request and turned into a block
  again, is the same block; the arguments of a tool call are the same value in the text Go writes.\<close>

theorem anthropic_conversation_round_trip:
  assumes "answerable lib b"
  shows "\<exists>c c'. FromAnthropicContentMessage b = Inr c \<and>
    completion_content lib (api_content lib c) = Inr c' \<and>
    ToAnthropicBlock (sniff lib) c' = Inr (resent_block lib b)"
  using assms
proof (cases rule: answerable_cases)
  case (words t)
  let ?c = "no_content\<lparr>ct_text := t\<rparr>"
  have "FromAnthropicContentMessage b = Inr ?c"
    using words by (simp add: FromAnthropicContentMessage_def text_block_def)
  moreover have "completion_content lib (api_content lib ?c) = Inr ?c"
    using words by (simp add: api_content_def no_content_def text_comes_back)
  moreover have "ToAnthropicBlock (sniff lib) ?c = Inr (resent_block lib b)"
    using words by (simp add: ToAnthropicBlock_def resent_block_def text_block_def)
  ultimately show ?thesis by blast
next
  case (img d)
  let ?c = "no_content\<lparr>ct_image := Some d\<rparr>"
  have "FromAnthropicContentMessage b = Inr ?c"
    using img by (simp add: FromAnthropicContentMessage_def)
  moreover have "completion_content lib (api_content lib ?c) = Inr ?c"
    using img by (simp add: api_content_def no_content_def image_comes_back)
  moreover have "ToAnthropicBlock (sniff lib) ?c = Inr (resent_block lib b)"
    using img by (simp add: ToAnthropicBlock_def resent_block_def no_content_def image_bytes_def)
  ultimately show ?thesis by blast
next
  case (call i n args)
  let ?tc = "\<lparr>tc_id = i, tc_function_name = n, tc_arguments = args\<rparr>"
  let ?c = "no_content\<lparr>ct_tool_call := Some ?tc\<rparr>"
  have "FromAnthropicContentMessage b = Inr ?c"
    using call by (simp add: FromAnthropicContentMessage_def)
  moreover have "completion_content lib (api_content lib ?c) = Inr (resent lib ?c)"
    using call by (intro call_resent[where tc = ?tc]) simp_all
  moreover have "ToAnthropicBlock (sniff lib) (resent lib ?c) = Inr (resent_block lib b)"
    using call by (simp add: ToAnthropicBlock_def resent_block_def resent_def no_content_def image_bytes_def)
  ultimately show ?thesis by blast
qed

theorem anthropic_conversation_round_trip_witness:
  "\<exists>c c'. FromAnthropicContentMessage sample_call_block = Inr c \<and>
     completion_content empty_args_lib (api_content empty_args_lib c) = Inr c' \<and>
     ToAnthropicBlock (sniff empty_args_lib) c' =
       Inr (Block ''tool_use'' None None (Some ''c1'') (Some ''add'') (Some ''{}'') None None [])"
proof -
  have "answerable empty_args_lib sample_call_block"
    by (simp add: answerable_def sample_call_block_def reads_object_def empty_args_lib_def)
  from anthropic_conversation_round_trip[OF this] show ?thesis
    by (simp add: resent_block_def rewritten_def sample_call_block_def empty_args_lib_def)
qed

subsection \<open>Every listed model is served\<close>

fun knows :: "llm_world \<Rightarrow> llm_adapter \<Rightarrow> string \<Rightarrow> bool" where
  "knows w (AzureAdapter endpoint credential mode) i \<longleftrightarrow>
     (case GetAzureDeploymentByModelID (w_getenv w) i of Inl _ \<Rightarrow> False | Inr d \<Rightarrow> d \<noteq> '''')"
| "knows w (AnthropicAdapter key) i \<longleftrightarrow>
     (case GetAnthropicLLMModelByModelID i of Inl _ \<Rightarrow> False | Inr mdl \<Rightarrow> mdl \<noteq> '''')"

lemma models_found: "list_all (\<lambda>m. GetModelByID (md_id m) = Some m) modelList"
  by (simp add: GetModelByID_def modelList_def)

lemma GetModelByID_SomeD: "GetModelByID i = Some m \<Longrightarrow> m \<in> set modelList \<and> md_id m = i"
  unfolding GetModelByID_def by (drule map_of_SomeD) auto

lemma resolved_not_empty: "v \<noteq> '''' \<Longrightarrow> braced v \<noteq> Some '''' \<Longrightarrow> resolved getenv v \<noteq> ''''"
  by (auto simp: resolved_def split: option.splits)

fun known_by_provider :: "(string \<Rightarrow> string) \<Rightarrow> provider \<Rightarrow> string \<Rightarrow> bool" where
  "known_by_provider getenv PROVIDER_ANTHROPIC i =
     (\<exists>mdl. GetAnthropicLLMModelByModelID i = Inr mdl \<and> mdl \<noteq> '''')"
| "known_by_provider getenv PROVIDER_VOYAGE i = False"
| "known_by_provider getenv p i = (\<exists>d. GetAzureDeploymentByModelID getenv i = Inr d \<and> d \<noteq> '''')"

lemma models_known: "list_all (\<lambda>m. known_by_provider getenv (md_provider m) (md_id m)) modelList"
  by (simp add: modelList_def GetAnthropicLLMModelByModelID_def AnthropicModelMap_def
      GetAzureDeploymentByModelID_def AzureModelDeploymentMap_def AzureModelDeploymentMap0_def
      resolved_not_empty)

lemma listed_model_known:
  assumes "GetModelByID i = Some m"
  shows "known_by_provider getenv (md_provider m) i"
  using models_known[of getenv] GetModelByID_SomeD[OF assms] by (auto simp: list_all_iff)

lemma azure_adapter_knows:
  assumes "CreateAdapter w i cr = Inr (AzureAdapter endpoint credential mode)"
  shows "\<exists>d. GetAzureDeploymentByModelID getenv i = Inr d"
proof -
  obtain m where m: "GetModelByID i = Some m" and p: "md_provider m = PROVIDER_AZURE \<or> md_provider m = PROVIDER_OPENAI"
    using assms by (auto simp: CreateAdapter_def split: option.splits provider.splits)
  show ?thesis using listed_model_known[OF m, of getenv] p by (cases "md_provider m") auto
qed

definition sample_text_lib :: text_lib where
  "sample_text_lib = \<lparr>json_read = (\<lambda>_. None), json_write = (\<lambda>_. ''{}''), sniff = (\<lambda>_. ''image/png'')\<rparr>"

definition sample_world :: llm_world where
  "sample_world = \<lparr>w_lib = sample_text_lib, w_getenv = (\<lambda>_. ''''), w_new_client = (\<lambda>_ _ _. None),
     w_chat = (\<lambda>_ _ _ _. Inl ''down''), w_anthropic = (\<lambda>_ _. Unreachable ''down'')\<rparr>"

definition sample_credentials :: adapter_credentials where
  "sample_credentials = \<lparr>AOAIEndpoint = ''https://a'', AOAIAPIKey = ''k'', AnthropicAPIKey = ''k2'',
     OpenAIAPIKey = ''k3''\<rparr>"

text \<open>Every model shown by \<^verbatim>\<open>ListCompletionModels\<close> can be asked: unless the SDK refuses its client, an
  adapter is made for it that knows the model under a non-empty name, whatever the environment.\<close>

lemma listed_models_are_served:
  assumes "ListCompletionModels tok = Success models" and "m \<in> set models"
    and "\<And>endpoint credential mode. w_new_client w endpoint credential mode = None"
  shows "\<exists>ad. CreateAdapter w (md_id m) cr = Inr ad \<and> knows w ad (md_id m)"
proof -
  have "models = modelList"
    using assms(1) by (auto simp: ListCompletionModels_def guarded_def split: option.splits)
  with assms(2) models_found have found: "GetModelByID (md_id m) = Some m" by (simp add: list_all_iff)
  show ?thesis
    using listed_model_known[OF found, of "w_getenv w"] found
    by (cases "md_provider m") (auto simp: CreateAdapter_def NewAzureAdapter_def assms(3))
qed

subsection \<open>What a completion ignores and where it panics\<close>

text \<open>The stop sequences of a request are dropped on the way to the model, and so is the strict
  flag of a JSON schema: two requests that differ only in them get the same answer.\<close>

lemma completion_drops_stop_and_strict:
  "CreateCompletion w cr tok (body\<lparr>cb_stop_sequences := stops,
      cb_response_format := map_option (map_prod id (map_option (\<lambda>s. s\<lparr>ps_strict := strict\<rparr>)))
        (cb_response_format body)\<rparr>) =
   CreateCompletion w cr tok body"
proof -
  have "completion_format lib (map_option (map_prod id (map_option (\<lambda>s. s\<lparr>ps_strict := strict\<rparr>))) rf) =
      completion_format lib rf" for lib rf
  proof (cases rf)
    case (Some p)
    then show ?thesis by (cases p; cases "snd p") (simp_all add: completion_format_def)
  qed (simp add: completion_format_def)
  then show ?thesis
    by (simp add: CreateCompletion_def completion_request_of_def cong: option.case_cong sum.case_cong)
qed

definition unanswered_body :: completion_body where
  "unanswered_body = \<lparr>cb_model_id = ''be28aa22-c1c4-49e0-bc05-dddb6b7edb7b-openai-4o'',
     cb_messages = [\<lparr>pm_role = ''tool'', pm_content = [JObj [(''text'', JStr ''3'')]]\<rparr>],
     cb_tools = None, cb_stop_sequences = None, cb_temperature = None, cb_max_tokens = None,
     cb_max_completion_tokens = None, cb_response_format = None\<rparr>"

definition completion_token :: token where
  "completion_token = bootstrap_token 0\<lparr>k_permissions := [''create:completion'']\<rparr>"



end
