(* ===== verification/Suite_Store.thy ===== *)
theory Suite_Store
  imports Db_Model Go_Json
begin

text \<open>
  Reference config suites: every server writes the suite it publishes to a bucket of S3 and copies the
  suites of the other servers into its database (\<^verbatim>\<open>internal/suitestore\<close>, the statements on
  reference suites in \<^verbatim>\<open>config_suite.sql.go\<close>, \<^verbatim>\<open>admin/reference_config_suite.go\<close>). S3 is the argument
  \<open>s3\<close>: listing gives pages of objects with their modification time, or an error in place of a page.
  Nil maps and slices are the empty ones.
\<close>

subsection \<open>Statements\<close>

text \<open>
  \<^verbatim>\<open>INSERT ... ON CONFLICT (name) DO UPDATE\<close>: the sequence moves on even when the row exists.
\<close>

definition refreshed :: "int \<Rightarrow> json \<Rightarrow> reference_suite \<Rightarrow> reference_suite" where
  "refreshed now v r = r\<lparr>rs_config_suites := v, rs_updated_at := Some now\<rparr>"

definition ReferenceConfigSuiteUpsert :: "int \<Rightarrow> string \<Rightarrow> json \<Rightarrow> db \<Rightarrow> (pgerr + int) \<times> db" where
  "ReferenceConfigSuiteUpsert now name v d =
     (let d1 = d\<lparr>next_reference_suite := next_reference_suite d + 1\<rparr>
      in case find (\<lambda>r. rs_name r = name) (reference_suites d) of
           Some r \<Rightarrow>
             (Inr (rs_id r), d1\<lparr>reference_suites :=
                update_where (\<lambda>r. rs_name r = name) (refreshed now v) (reference_suites d)\<rparr>)
         | None \<Rightarrow>
             (Inr (next_reference_suite d), d1\<lparr>reference_suites := reference_suites d @
                [\<lparr>rs_id = next_reference_suite d, rs_name = name, rs_config_suites = v,
                  rs_created_at = now, rs_updated_at = None\<rparr>]\<rparr>))"

text \<open>\<^verbatim>\<open>ORDER BY name\<close> compares what the collation makes of the names, and then the names.\<close>

definition ReferenceConfigSuiteList ::
    "(string \<Rightarrow> string) \<Rightarrow> db \<Rightarrow> (pgerr + reference_suite list) \<times> db" where
  "ReferenceConfigSuiteList collate d =
     (Inr (sort_key (\<lambda>r. (collate (rs_name r), rs_name r)) (reference_suites d)), d)"

lemmas reference_suite_statements [query_simps] =
  ReferenceConfigSuiteUpsert_def ReferenceConfigSuiteList_def

subsection \<open>Suites as JSON\<close>

type_synonym actor_config = "string \<times> smap"

definition actor_config_json :: "actor_config \<Rightarrow> json" where
  "actor_config_json ac =
     JObj [(''actor_name'', JStr (fst ac)), (''configs'', go_value (smap_json (snd ac)))]"

definition configs_json :: "actor_config list \<Rightarrow> json" where
  "configs_json acs = JArr (map actor_config_json acs)"

definition suite_json :: "string \<Rightarrow> actor_config list \<Rightarrow> json" where
  "suite_json name acs = JObj [(''suite_name'', JStr name), (''config_suites'', configs_json acs)]"

definition smap_field :: "string \<Rightarrow> (string \<times> json) list \<Rightarrow> smap option" where
  "smap_field name kvs =
     (case map_field name kvs of
        None \<Rightarrow> None
      | Some m \<Rightarrow>
          (case unmarshal_smap (go_value (JObj (from_ptr_or m []))) of
             (Some s, False) \<Rightarrow> Some s
           | _ \<Rightarrow> None))"

definition read_actor_config :: "json \<Rightarrow> actor_config option" where
  "read_actor_config j =
     Option.bind (as_object j) (\<lambda>kvs.
       case (string_field ''actor_name'' kvs, smap_field ''configs'' kvs) of
         (Some n, Some m) \<Rightarrow> Some (n, m)
       | _ \<Rightarrow> None)"

fun read_all :: "('a \<Rightarrow> 'b option) \<Rightarrow> 'a list \<Rightarrow> 'b list option" where
  "read_all f [] = Some []"
| "read_all f (x # xs) =
     (case f x of None \<Rightarrow> None | Some y \<Rightarrow> map_option (Cons y) (read_all f xs))"

fun read_configs :: "json \<Rightarrow> actor_config list option" where
  "read_configs (JArr vs) = read_all read_actor_config vs"
| "read_configs JNull = Some []"
| "read_configs _ = None"

definition read_suite :: "json \<Rightarrow> (string \<times> actor_config list) option" where
  "read_suite j =
     Option.bind (as_object j) (\<lambda>kvs.
       case (string_field ''suite_name'' kvs, pointer_field read_configs ''config_suites'' kvs) of
         (Some n, Some acs) \<Rightarrow> Some (n, from_ptr_or acs [])
       | _ \<Rightarrow> None)"

subsection \<open>The store\<close>

record s3_object =
  o_key :: string
  o_modified :: int

record 's s3 =
  ListObjectsV2 :: "'s \<Rightarrow> string \<Rightarrow> string \<Rightarrow> (string + s3_object list) list"
  GetObject :: "'s \<Rightarrow> string \<Rightarrow> string \<Rightarrow> string + string"
  PutObject :: "'s \<Rightarrow> string \<Rightarrow> string \<Rightarrow> string \<Rightarrow> string option \<times> 's"

record suite_store =
  bucketName :: string
  keyPrefix :: string
  displayName :: string
  lastUpdated :: "(string \<times> int) list"
  lastSync :: "int option"

definition minSyncInterval :: int where
  "minSyncInterval = 60000000000"

definition NewS3SuiteStore :: "string \<Rightarrow> string \<Rightarrow> string \<Rightarrow> suite_store" where
  "NewS3SuiteStore bucket key_prefix display = \<lparr>bucketName = bucket, keyPrefix = key_prefix,
     displayName = display, lastUpdated = [], lastSync = None\<rparr>"

definition readSingleSuite ::
    "text_lib \<Rightarrow> 's s3 \<Rightarrow> 's \<Rightarrow> string \<Rightarrow> string \<Rightarrow> string + string \<times> actor_config list" where
  "readSingleSuite lib s3 s bucket key =
     (case GetObject s3 s bucket key of
        Inl e \<Rightarrow> Inl e
      | Inr data \<Rightarrow>
          (case Option.bind (json_read lib data) read_suite of
             None \<Rightarrow> Inl ''cannot unmarshal suite''
           | Some suite \<Rightarrow> Inr suite))"

text \<open>
  The objects of the pages one by one; \<open>k\<close> counts the calls to the database. An error ends the loop and
  keeps what was done before it.
\<close>

fun sync_objects ::
    "text_lib \<Rightarrow> 's s3 \<Rightarrow> 's \<Rightarrow> faults \<Rightarrow> int \<Rightarrow> s3_object list \<Rightarrow> nat \<Rightarrow> suite_store \<Rightarrow> db \<Rightarrow>
     string option \<times> nat \<times> suite_store \<times> db" where
  "sync_objects lib s3 s flt now [] k st d = (None, k, st, d)"
| "sync_objects lib s3 s flt now (ob # obs) k st d =
     (if map_of (lastUpdated st) (o_key ob) = Some (o_modified ob)
      then sync_objects lib s3 s flt now obs k st d
      else case readSingleSuite lib s3 s (bucketName st) (o_key ob) of
        Inl e \<Rightarrow> (Some e, k, st, d)
      | Inr (name, acs) \<Rightarrow>
          if name = displayName st then sync_objects lib s3 s flt now obs k st d
          else (case run_query flt k (ReferenceConfigSuiteUpsert now name (configs_json acs)) d of
                  (Inl e, d') \<Rightarrow> (Some (err_text e), Suc k, st, d')
                | (Inr _, d') \<Rightarrow>
                    sync_objects lib s3 s flt now obs (Suc k)
                      (st\<lparr>lastUpdated := (o_key ob, o_modified ob) # lastUpdated st\<rparr>) d'))"

fun sync_pages ::
    "text_lib \<Rightarrow> 's s3 \<Rightarrow> 's \<Rightarrow> faults \<Rightarrow> int \<Rightarrow> (string + s3_object list) list \<Rightarrow> nat \<Rightarrow> suite_store \<Rightarrow> db \<Rightarrow>
     string option \<times> suite_store \<times> db" where
  "sync_pages lib s3 s flt now [] k st d = (None, st, d)"
| "sync_pages lib s3 s flt now (Inl e # pages) k st d = (Some e, st, d)"
| "sync_pages lib s3 s flt now (Inr obs # pages) k st d =
     (case sync_objects lib s3 s flt now obs k st d of
        (Some e, _, st', d') \<Rightarrow> (Some e, st', d')
      | (None, k', st', d') \<Rightarrow> sync_pages lib s3 s flt now pages k' st' d')"

text \<open>\<open>wall\<close> is the clock in nanoseconds, \<open>now\<close> the second of the database.\<close>

definition synced_recently :: "int \<Rightarrow> suite_store \<Rightarrow> bool" where
  "synced_recently wall st \<longleftrightarrow> (\<exists>t. lastSync st = Some t \<and> wall - t < minSyncInterval)"

definition SyncSuites ::
    "text_lib \<Rightarrow> 's s3 \<Rightarrow> faults \<Rightarrow> int \<Rightarrow> int \<Rightarrow> 's \<Rightarrow> suite_store \<times> db \<Rightarrow> string option \<times> suite_store \<times> db" where
  "SyncSuites lib s3 flt wall now s = (\<lambda>(st, d).
     if synced_recently wall st then (None, st, d)
     else sync_pages lib s3 s flt now (ListObjectsV2 s3 s (bucketName st) (keyPrefix st)) 0
            (st\<lparr>lastSync := Some wall\<rparr>) d)"

definition SetLastUpdated :: "string \<Rightarrow> int \<Rightarrow> suite_store \<Rightarrow> suite_store" where
  "SetLastUpdated key t st = st\<lparr>lastUpdated := (key, t) # lastUpdated st\<rparr>"

text \<open>\<^verbatim>\<open>filepath.Join\<close>: elements joined with slashes, then cleaned of dots and empty elements.\<close>

fun clean_step :: "bool \<Rightarrow> string list \<Rightarrow> string \<Rightarrow> string list" where
  "clean_step rooted stack c =
     (if c = [] \<or> c = ''.'' then stack
      else if c = ''..'' then
        (if stack \<noteq> [] \<and> last stack \<noteq> ''..'' then butlast stack
         else if rooted then stack else stack @ [c])
      else stack @ [c])"

definition slash :: char where
  "slash = CHR ''/''"

definition Clean :: "string \<Rightarrow> string" where
  "Clean path =
     (let rooted = HasPrefix path [slash];
          out = join slash (foldl (clean_step rooted) [] (Split slash path))
      in if rooted then slash # out else if out = [] then ''.'' else out)"

definition Join :: "string \<Rightarrow> string \<Rightarrow> string" where
  "Join dir name = Clean (if dir = [] then name else dir @ slash # name)"

definition suite_key :: "suite_store \<Rightarrow> string" where
  "suite_key st = Join (keyPrefix st) (displayName st @ ''.json'')"

text \<open>The marshalling of a suite cannot fail.\<close>

definition WriteSuite_S3 ::
    "text_lib \<Rightarrow> 's s3 \<Rightarrow> suite_store \<Rightarrow> actor_config list \<Rightarrow> 's \<Rightarrow> string option \<times> 's" where
  "WriteSuite_S3 lib s3 st suite s =
     (if displayName st = [] then (Some ''displayName is required'', s)
      else PutObject s3 s (bucketName st) (suite_key st) (json_write lib (suite_json (displayName st) suite)))"

subsection \<open>The handlers\<close>

text \<open>
  The answer maps actors to the suites that configure them; its order is that of a Go map, that is any.
  A row that does not decode is passed over.
\<close>

fun add_entry :: "string \<Rightarrow> 'a \<Rightarrow> (string \<times> 'a list) list \<Rightarrow> (string \<times> 'a list) list" where
  "add_entry n x [] = [(n, [x])]"
| "add_entry n x ((n', xs) # m) = (if n = n' then (n', xs @ [x]) # m else (n', xs) # add_entry n x m)"

definition add_suite ::
    "(string \<times> (string \<times> smap) list) list \<Rightarrow> reference_suite \<Rightarrow> (string \<times> (string \<times> smap) list) list" where
  "add_suite acc row =
     (case read_configs (rs_config_suites row) of
        None \<Rightarrow> acc
      | Some acs \<Rightarrow> foldl (\<lambda>m ac. add_entry (fst ac) (rs_name row, snd ac) m) acc acs)"

definition ListReferenceConfigSuites ::
    "(string \<Rightarrow> string) \<Rightarrow> faults \<Rightarrow> db \<Rightarrow> (string \<times> (string \<times> smap) list) list reply" where
  "ListReferenceConfigSuites collate flt d =
     (case fst (run_query flt 0 (ReferenceConfigSuiteList collate) d) of
        Inl e \<Rightarrow> ServerError (''Cannot list reference config suites: '' @ err_text e)
      | Inr suites \<Rightarrow> Success (foldl add_suite [] suites))"

definition SyncReferenceConfigSuites ::
    "text_lib \<Rightarrow> 's s3 \<Rightarrow> faults \<Rightarrow> int \<Rightarrow> int \<Rightarrow> 's \<Rightarrow> suite_store \<times> db \<Rightarrow> unit reply \<times> suite_store \<times> db" where
  "SyncReferenceConfigSuites lib s3 flt wall now s st =
     (case SyncSuites lib s3 flt wall now s st of
        (Some e, st') \<Rightarrow> (ServerError (''Cannot sync reference config suites: '' @ e), st')
      | (None, st') \<Rightarrow> (Success (), st'))"

lemmas suite_handlers [handler_simps] = ListReferenceConfigSuites_def SyncReferenceConfigSuites_def

subsection \<open>Written suites read back\<close>

definition go_map :: "smap \<Rightarrow> smap" where
  "go_map m = foldl (\<lambda>m kv. put (fst kv) (snd kv) m) [] m"

lemma put_map: "put k (f v) (map (map_prod id f) m) = map (map_prod id f) (put k v m)"
  by (induction m rule: put.induct) auto

lemma puts_map:
  "foldl (\<lambda>m kv. put (fst kv) (snd kv) m) (map (map_prod id f) acc) (map (map_prod id f) m) =
     map (map_prod id f) (foldl (\<lambda>m kv. put (fst kv) (snd kv) m) acc m)"
proof (induction m arbitrary: acc)
  case (Cons kv m)
  then show ?case by (cases kv) (simp add: put_map [unfolded id_def])
qed simp

lemma smap_json_pairs: "smap_json m = JObj (map (map_prod id JStr) m)"
  by (simp add: smap_json_def) (induction m, auto)

lemma go_value_smap: "go_value (smap_json m) = smap_json (go_map m)"
proof -
  have "map (map_prod id go_value) (map (map_prod id JStr) m) = map (map_prod id JStr) m"
    by (induction m) auto
  then show ?thesis
    using puts_map[of JStr "[]" m] by (simp add: smap_json_pairs go_map_def del: map_map)
qed

lemma map_of_put: "map_of (put k v m) = (map_of m)(k \<mapsto> v)"
  by (induction k v m rule: put.induct) (auto simp: fun_eq_iff)

text \<open>Of a key given twice the last value stays.\<close>

lemma map_of_go_map: "map_of (go_map m) = map_of (rev m)"
proof -
  have "map_of (foldl (\<lambda>m kv. put (fst kv) (snd kv) m) acc m) = map_of acc ++ map_of (rev m)" for acc
    by (induction m arbitrary: acc) (auto simp: map_of_put map_add_def fun_eq_iff split: option.splits)
  from this[of "[]"] show ?thesis by (simp add: go_map_def)
qed

lemma read_actor_config_json: "read_actor_config (actor_config_json ac) = Some (fst ac, go_map (snd ac))"
proof -
  obtain kvs where kvs: "smap_json (go_map (snd ac)) = JObj kvs" by (simp add: smap_json_def)
  have "go_value (JObj kvs) = JObj kvs"
    using go_value_idem[of "smap_json (snd ac)"] by (simp only: go_value_smap kvs)
  moreover have "unmarshal_smap (JObj kvs) = (Some (go_map (snd ac)), False)"
    by (simp only: unmarshal_smap_json flip: kvs)
  ultimately show ?thesis
    by (simp add: read_actor_config_def actor_config_json_def smap_field_def go_value_smap kvs decode_simps
        del: go_value.simps unmarshal_smap.simps)
qed

lemma read_configs_json: "read_configs (configs_json acs) = Some (map (\<lambda>ac. (fst ac, go_map (snd ac))) acs)"
proof -
  have "read_all read_actor_config (map actor_config_json acs) = Some (map (\<lambda>ac. (fst ac, go_map (snd ac))) acs)"
    by (induction acs) (simp_all add: read_actor_config_json)
  then show ?thesis by (simp add: configs_json_def)
qed

lemma read_suite_json:
  "read_suite (suite_json name acs) = Some (name, map (\<lambda>ac. (fst ac, go_map (snd ac))) acs)"
proof -
  have "set_pointer read_configs (Some None) (configs_json acs) =
      Some (Some (map (\<lambda>ac. (fst ac, go_map (snd ac))) acs))"
    using read_configs_json[of acs] by (simp add: configs_json_def)
  then show ?thesis by (simp add: read_suite_def suite_json_def decode_simps)
qed

subsection \<open>The table of suites as a map\<close>

definition suites_of :: "db \<Rightarrow> string \<Rightarrow> json option" where
  "suites_of d n = map_option rs_config_suites (find (\<lambda>r. rs_name r = n) (reference_suites d))"

definition one_row_per_suite :: "db \<Rightarrow> bool" where
  "one_row_per_suite d \<longleftrightarrow> distinct (map rs_name (reference_suites d))"

text \<open>What a statement on reference suites may touch.\<close>

definition only_suites :: "db \<Rightarrow> db \<Rightarrow> bool" where
  "only_suites d d' \<longleftrightarrow>
     d' = d\<lparr>reference_suites := reference_suites d', next_reference_suite := next_reference_suite d'\<rparr>"

lemma only_suites_refl [simp]: "only_suites d d"
  by (simp add: only_suites_def)

lemma only_suites_trans: "only_suites d d1 \<Longrightarrow> only_suites d1 d2 \<Longrightarrow> only_suites d d2"
  by (cases d; cases d1; cases d2) (simp add: only_suites_def)

lemma find_append: "find p (xs @ ys) = (case find p xs of None \<Rightarrow> find p ys | Some x \<Rightarrow> Some x)"
  by (induction xs) auto

lemma upsert_effect:
  assumes "ReferenceConfigSuiteUpsert now name v d = (r, d')"
  shows "\<exists>i. r = Inr i" "suites_of d' = (suites_of d)(name \<mapsto> v)" "only_suites d d'"
    "one_row_per_suite d \<Longrightarrow> one_row_per_suite d'"
proof -
  have keep: "rs_name (refreshed now v row) = rs_name row" for row by (simp add: refreshed_def)
  show "\<exists>i. r = Inr i" "only_suites d d'"
    using assms by (auto simp: ReferenceConfigSuiteUpsert_def only_suites_def Let_def split: option.splits)
  show "suites_of d' = (suites_of d)(name \<mapsto> v)"
  proof (cases "find (\<lambda>r. rs_name r = name) (reference_suites d)")
    case None
    with assms show ?thesis
      by (auto simp: ReferenceConfigSuiteUpsert_def suites_of_def find_append Let_def fun_eq_iff
          split: option.splits)
  next
    case (Some row)
    have "find (\<lambda>r. rs_name r = n) (update_where (\<lambda>r. rs_name r = name) (refreshed now v) (reference_suites d)) =
        map_option (\<lambda>r. if rs_name r = name then refreshed now v r else r)
          (find (\<lambda>r. rs_name r = n) (reference_suites d))" for n
      by (rule find_update_where) (rule keep)
    moreover have "reference_suites d' = update_where (\<lambda>r. rs_name r = name) (refreshed now v) (reference_suites d)"
      using Some assms by (auto simp: ReferenceConfigSuiteUpsert_def Let_def)
    ultimately have found: "suites_of d' n = map_option rs_config_suites (map_option
        (\<lambda>r. if rs_name r = name then refreshed now v r else r)
        (find (\<lambda>r. rs_name r = n) (reference_suites d)))" for n
      by (simp add: suites_of_def)
    have "suites_of d' n = ((suites_of d)(name \<mapsto> v)) n" for n
    proof (cases "find (\<lambda>r. rs_name r = n) (reference_suites d)")
      case None
      then have "suites_of d n = None" "n \<noteq> name" using Some by (auto simp: suites_of_def)
      with None show ?thesis by (simp add: found)
    next
      case (Some r)
      then have "suites_of d n = Some (rs_config_suites r)" by (simp add: suites_of_def)
      with Some find_SomeD[OF Some] show ?thesis by (auto simp: found refreshed_def)
    qed
    then show ?thesis by (rule ext)
  qed
  show "one_row_per_suite d'" if "one_row_per_suite d"
    using assms that
    by (auto simp: ReferenceConfigSuiteUpsert_def one_row_per_suite_def Let_def find_None_iff keep
        map_update_where split: option.splits)
qed

subsection \<open>Synchronising copies the changed suites\<close>

text \<open>
  The abstract store knows the time of each key it has read, and one suite per name. A changed object
  of another server replaces the suite of its name.
\<close>

type_synonym copied = "(string \<Rightarrow> int option) \<times> (string \<Rightarrow> json option)"

definition copy_object ::
    "(string \<Rightarrow> string + string \<times> actor_config list) \<Rightarrow> string \<Rightarrow> copied \<Rightarrow> s3_object \<Rightarrow> copied" where
  "copy_object get display = (\<lambda>(seen, suites) ob.
     if seen (o_key ob) = Some (o_modified ob) then (seen, suites)
     else case get (o_key ob) of
       Inr (name, acs) \<Rightarrow>
         if name = display then (seen, suites)
         else (seen(o_key ob \<mapsto> o_modified ob), suites(name \<mapsto> configs_json acs))
     | Inl _ \<Rightarrow> (seen, suites))"

definition abs_store :: "suite_store \<Rightarrow> db \<Rightarrow> copied" where
  "abs_store st d = (map_of (lastUpdated st), suites_of d)"

definition same_settings :: "suite_store \<Rightarrow> suite_store \<Rightarrow> bool" where
  "same_settings st st' \<longleftrightarrow> st' = st\<lparr>lastUpdated := lastUpdated st'\<rparr>"

lemma same_settings_simps [simp]: "same_settings st st"
  "same_settings (st\<lparr>lastUpdated := l\<rparr>) st' = same_settings st st'"
  by (simp_all add: same_settings_def)

lemma same_settingsD:
  assumes "same_settings st st'"
  shows "bucketName st' = bucketName st" "displayName st' = displayName st" "lastSync st' = lastSync st"
  using arg_cong[OF assms[unfolded same_settings_def], of bucketName]
    arg_cong[OF assms[unfolded same_settings_def], of displayName]
    arg_cong[OF assms[unfolded same_settings_def], of lastSync] by simp_all

lemma same_settings_trans: "same_settings st st1 \<Longrightarrow> same_settings st1 st2 \<Longrightarrow> same_settings st st2"
  by (cases st; cases st1; cases st2) (simp add: same_settings_def)

lemma run_upsert:
  assumes "run_query flt k (ReferenceConfigSuiteUpsert now name v) d = (r, d')"
  shows "only_suites d d'" "one_row_per_suite d \<Longrightarrow> one_row_per_suite d'"
    "r = Inr i \<Longrightarrow> suites_of d' = (suites_of d)(name \<mapsto> v)"
  using assms upsert_effect[of now name v d] by (auto simp: run_query_def split: option.splits)

lemma run_upsert_keeps:
  assumes "run_query flt k (ReferenceConfigSuiteUpsert now name v) d = (r, d')"
  shows "only_suites d d' \<and> (one_row_per_suite d \<longrightarrow> one_row_per_suite d')"
  using run_upsert(1,2)[OF assms] by blast

text \<open>Whatever happens, only reference suites and the times of keys change.\<close>

lemma sync_objects_keeps:
  assumes "sync_objects lib s3 s flt now obs k st d = (r, k', st', d')"
  shows "same_settings st st' \<and> only_suites d d' \<and> (one_row_per_suite d \<longrightarrow> one_row_per_suite d')"
  using assms
proof (induction lib s3 s flt now obs k st d rule: sync_objects.induct)
  case (2 lib s3 s flt now ob obs k st d)
  note self = 2(2) and IH = 2(3) and prem = 2(4)
  show ?case
  proof (cases "map_of (lastUpdated st) (o_key ob) = Some (o_modified ob)")
    case True
    with 2 show ?thesis by simp
  next
    case new: False
    show ?thesis
    proof (cases "readSingleSuite lib s3 s (bucketName st) (o_key ob)")
      case (Inl e)
      with new 2 show ?thesis by simp
    next
      case (Inr p)
      obtain name acs where p: "p = (name, acs)" by (cases p)
      obtain q d1 where q: "run_query flt k (ReferenceConfigSuiteUpsert now name (configs_json acs)) d = (q, d1)"
        by (cases "run_query flt k (ReferenceConfigSuiteUpsert now name (configs_json acs)) d")
      note keeps = run_upsert_keeps[OF q]
      consider "name = displayName st" | e where "name \<noteq> displayName st" "q = Inl e"
        | i where "name \<noteq> displayName st" "q = Inr i" by (cases q) auto
      then show ?thesis
      proof cases
        case 1
        with new Inr p self[OF new Inr p[symmetric]] prem show ?thesis by simp
      next
        case 2
        with new Inr p q prem keeps
        show ?thesis by simp
      next
        case (3 i)
        then have i: "q = Inr i" "name \<noteq> displayName st" by simp_all
        have "sync_objects lib s3 s flt now obs (Suc k)
            (st\<lparr>lastUpdated := (o_key ob, o_modified ob) # lastUpdated st\<rparr>) d1 = (r, k', st', d')"
          using new Inr p q i prem by simp
        with IH[OF new Inr p[symmetric] i(2) q[symmetric] i(1)] keeps show ?thesis
          by (auto intro: only_suites_trans)
      qed
    qed
  qed
qed simp

lemma sync_objects_copies:
  assumes "sync_objects lib s3 s flt now obs k st d = (None, k', st', d')"
  shows "abs_store st' d' =
    foldl (copy_object (readSingleSuite lib s3 s (bucketName st)) (displayName st)) (abs_store st d) obs"
  using assms
proof (induction lib s3 s flt now obs k st d rule: sync_objects.induct)
  case (2 lib s3 s flt now ob obs k st d)
  then show ?case
    by (auto simp: abs_store_def copy_object_def dest: run_upsert(3)
        split: if_splits sum.splits prod.splits)
qed simp

lemma sync_pages_keeps:
  assumes "sync_pages lib s3 s flt now pages k st d = (r, st', d')"
  shows "same_settings st st' \<and> only_suites d d' \<and> (one_row_per_suite d \<longrightarrow> one_row_per_suite d')"
  using assms
proof (induction pages arbitrary: k st d)
  case (Cons page pages)
  show ?case
  proof (cases page)
    case (Inl e)
    with Cons.prems show ?thesis by simp
  next
    case (Inr obs)
    obtain q k1 st1 d1 where q: "sync_objects lib s3 s flt now obs k st d = (q, k1, st1, d1)"
      by (metis prod_cases4)
    show ?thesis
    proof (cases q)
      case None
      with Cons.prems Inr q have "sync_pages lib s3 s flt now pages k1 st1 d1 = (r, st', d')" by simp
      from Cons.IH[OF this] sync_objects_keeps[OF q] show ?thesis
        by (auto intro: only_suites_trans same_settings_trans)
    next
      case (Some e)
      with Cons.prems Inr q sync_objects_keeps[OF q] show ?thesis by simp
    qed
  qed
qed simp

lemma sync_pages_copies:
  assumes "sync_pages lib s3 s flt now pages k st d = (None, st', d')"
  shows "\<exists>obss. pages = map Inr obss \<and> abs_store st' d' =
    foldl (copy_object (readSingleSuite lib s3 s (bucketName st)) (displayName st)) (abs_store st d) (concat obss)"
  using assms
proof (induction pages arbitrary: k st d)
  case (Cons page pages)
  obtain obs where page: "page = Inr obs" using Cons.prems by (cases page) auto
  obtain q k1 st1 d1 where q: "sync_objects lib s3 s flt now obs k st d = (q, k1, st1, d1)"
    by (metis prod_cases4)
  have "q = None" using Cons.prems page q by (cases q) auto
  with q have q: "sync_objects lib s3 s flt now obs k st d = (None, k1, st1, d1)" by simp
  with Cons.prems page have rest: "sync_pages lib s3 s flt now pages k1 st1 d1 = (None, st', d')" by simp
  note same = same_settingsD[OF conjunct1[OF sync_objects_keeps[OF q]]]
  from Cons.IH[OF rest] obtain obss where "pages = map Inr obss" "abs_store st' d' =
      foldl (copy_object (readSingleSuite lib s3 s (bucketName st)) (displayName st)) (abs_store st1 d1) (concat obss)"
    by (auto simp: same)
  with page sync_objects_copies[OF q] show ?case by (intro exI[of _ "obs # obss"]) simp
qed simp

definition listed :: "'s s3 \<Rightarrow> 's \<Rightarrow> string \<Rightarrow> string \<Rightarrow> s3_object list \<Rightarrow> bool" where
  "listed s3 s bucket key_prefix obs \<longleftrightarrow>
     (\<exists>obss. ListObjectsV2 s3 s bucket key_prefix = map Inr obss \<and> obs = concat obss)"

text \<open>A small bucket for the concrete instances: keys with data and time, the newest first.\<close>

type_synonym sample_bucket = "(string \<times> string \<times> int) list"

definition sample_s3 :: "sample_bucket s3" where
  "sample_s3 = \<lparr>
     ListObjectsV2 = (\<lambda>s _ key_prefix. [Inr (map (\<lambda>k. \<lparr>o_key = k, o_modified = snd (the (map_of s k))\<rparr>)
       (filter (\<lambda>k. HasPrefix k key_prefix) (remdups (map fst s))))]),
     GetObject = (\<lambda>s _ k. case map_of s k of None \<Rightarrow> Inl ''NoSuchKey'' | Some (data, _) \<Rightarrow> Inr data),
     PutObject = (\<lambda>s _ k data. (None, (k, data, int (length s)) # s))\<rparr>"

definition suite_lib :: text_lib where
  "suite_lib = \<lparr>json_read = (\<lambda>t. if t = ''A'' then Some (suite_json ''a'' [(''bot'', [(''K'', ''1'')])]) else None),
     json_write = (\<lambda>_. ''A''), sniff = id\<rparr>"

definition server_a :: suite_store where
  "server_a = NewS3SuiteStore ''b'' ''suites'' ''a''"

definition server_b :: suite_store where
  "server_b = NewS3SuiteStore ''b'' ''suites'' ''b''"

lemma sync_success:
  assumes "SyncSuites lib s3 flt wall now s (st, d) = (None, st', d')" and "\<not> synced_recently wall st"
  shows "\<exists>obs. listed s3 s (bucketName st) (keyPrefix st) obs \<and>
    abs_store st' d' =
      foldl (copy_object (readSingleSuite lib s3 s (bucketName st)) (displayName st)) (abs_store st d) obs \<and>
    only_suites d d' \<and> (one_row_per_suite d \<longrightarrow> one_row_per_suite d')"
proof -
  have run: "sync_pages lib s3 s flt now (ListObjectsV2 s3 s (bucketName st) (keyPrefix st)) 0
      (st\<lparr>lastSync := Some wall\<rparr>) d = (None, st', d')"
    using assms by (simp add: SyncSuites_def)
  have "abs_store (st\<lparr>lastSync := Some wall\<rparr>) d = abs_store st d" by (simp add: abs_store_def)
  with sync_pages_copies[OF run] sync_pages_keeps[OF run] show ?thesis
    by (auto simp: listed_def)
qed



subsection \<open>A failed synchronisation\<close>

text \<open>C39. A synchronisation that fails silences the ones after it: for the next minute every further
  request to synchronise is answered as done, reads nothing and changes nothing, since the time of
  the last synchronisation is set before it has succeeded.\<close>

theorem failed_sync_blocks_retry:
  assumes "SyncReferenceConfigSuites lib s3 flt wall now s (st, d) = (ServerError e, st', d')"
    and "later - wall < minSyncInterval"
  shows "SyncReferenceConfigSuites lib' s3' flt' later now' s' (st', d2) = (Success (), st', d2)"
proof -
  obtain e' where fails: "SyncSuites lib s3 flt wall now s (st, d) = (Some e', st', d')"
    using assms(1) by (auto simp: SyncReferenceConfigSuites_def split: prod.splits option.splits)
  then have "\<not> synced_recently wall st" by (auto simp: SyncSuites_def)
  with fails have "sync_pages lib s3 s flt now (ListObjectsV2 s3 s (bucketName st) (keyPrefix st)) 0
      (st\<lparr>lastSync := Some wall\<rparr>) d = (Some e', st', d')"
    by (simp add: SyncSuites_def)
  from same_settingsD(3)[OF conjunct1[OF sync_pages_keeps[OF this]]] have "lastSync st' = Some wall" by simp
  with assms(2) show ?thesis
    by (simp add: SyncReferenceConfigSuites_def SyncSuites_def synced_recently_def)
qed

definition unlistable_s3 :: "sample_bucket s3" where
  "unlistable_s3 = sample_s3\<lparr>ListObjectsV2 := (\<lambda>_ _ _. [Inl ''timeout''])\<rparr>"

theorem failed_sync_blocks_retry_witness:
  "\<exists>st'. SyncReferenceConfigSuites suite_lib unlistable_s3 no_faults 7 0 [] (server_b, empty_db) =
      (ServerError ''Cannot sync reference config suites: timeout'', st', empty_db) \<and>
    SyncReferenceConfigSuites suite_lib sample_s3 no_faults 30000000007 30 [(''suites/a.json'', ''A'', 3)] (st', empty_db) =
      (Success (), st', empty_db)"
proof -
  have "\<exists>st'. SyncReferenceConfigSuites suite_lib unlistable_s3 no_faults 7 0 [] (server_b, empty_db) =
      (ServerError ''Cannot sync reference config suites: timeout'', st', empty_db)"
    by (simp add: SyncReferenceConfigSuites_def SyncSuites_def synced_recently_def server_b_def
        NewS3SuiteStore_def unlistable_s3_def)
  then obtain st' where fails: "SyncReferenceConfigSuites suite_lib unlistable_s3 no_faults 7 0 [] (server_b, empty_db) =
      (ServerError ''Cannot sync reference config suites: timeout'', st', empty_db)" by blast
  from failed_sync_blocks_retry[OF fails, of 30000000007] fails show ?thesis
    by (intro exI[of _ st']) (simp add: minSyncInterval_def)
qed

subsection \<open>The suites of each actor\<close>

text \<open>What the answer should say of one actor: its settings in each suite, suite by suite.\<close>

definition entries_in :: "string \<Rightarrow> reference_suite \<Rightarrow> (string \<times> smap) list" where
  "entries_in n row =
     (case read_configs (rs_config_suites row) of
        None \<Rightarrow> []
      | Some acs \<Rightarrow> map (\<lambda>ac. (rs_name row, snd ac)) (filter (\<lambda>ac. fst ac = n) acs))"

definition by_name :: "(string \<Rightarrow> string) \<Rightarrow> db \<Rightarrow> reference_suite list" where
  "by_name collate d = sort_key (\<lambda>r. (collate (rs_name r), rs_name r)) (reference_suites d)"

definition looked_up :: "(string \<times> 'a list) list \<Rightarrow> string \<Rightarrow> 'a list" where
  "looked_up m n = from_ptr_or (map_of m n) []"

definition no_empty :: "(string \<times> 'a list) list \<Rightarrow> bool" where
  "no_empty m \<longleftrightarrow> distinct (map fst m) \<and> [] \<notin> snd ` set m"

lemma add_entry_facts:
  "looked_up (add_entry n x m) n' = looked_up m n' @ (if n' = n then [x] else [])"
  "fst ` set (add_entry n x m) = insert n (fst ` set m)"
  "no_empty m \<Longrightarrow> no_empty (add_entry n x m)"
proof -
  show "looked_up (add_entry n x m) n' = looked_up m n' @ (if n' = n then [x] else [])"
    by (induction n x m rule: add_entry.induct) (auto simp: looked_up_def)
  show keys: "fst ` set (add_entry n x m) = insert n (fst ` set m)" for m :: "(string \<times> 'a list) list"
    by (induction n x m rule: add_entry.induct) auto
  show "no_empty (add_entry n x m)" if "no_empty m"
    using that
  proof (induction m)
    case (Cons p m)
    have "fst p \<notin> fst ` set (add_entry n x m)" if "n \<noteq> fst p"
      using that Cons.prems keys[of m] by (simp add: no_empty_def)
    with Cons show ?case by (cases p) (auto simp: no_empty_def)
  qed (simp add: no_empty_def)
qed

lemma add_entries_facts:
  "looked_up (foldl (\<lambda>m ac. add_entry (fst ac) (q, snd ac) m) m acs) n =
     looked_up m n @ map (\<lambda>ac. (q, snd ac)) (filter (\<lambda>ac. fst ac = n) acs)"
  "no_empty m \<Longrightarrow> no_empty (foldl (\<lambda>m ac. add_entry (fst ac) (q, snd ac) m) m acs)"
  by (induction acs arbitrary: m) (simp_all add: add_entry_facts)

lemma add_suites_facts:
  "looked_up (foldl add_suite m rows) n = looked_up m n @ concat (map (entries_in n) rows)"
  "no_empty m \<Longrightarrow> no_empty (foldl add_suite m rows)"
  by (induction rows arbitrary: m)
    (simp_all add: add_suite_def entries_in_def add_entries_facts split: option.splits)

lemma no_empty_lookup: "no_empty m \<Longrightarrow> map_of m n = (if looked_up m n = [] then None else Some (looked_up m n))"
proof (cases "map_of m n")
  case (Some xs)
  from map_of_SomeD[OF Some] have "xs \<in> snd ` set m" by (rule rev_image_eqI) simp
  moreover assume "no_empty m"
  ultimately have "xs \<noteq> []" by (metis no_empty_def)
  with Some show ?thesis by (simp add: looked_up_def)
qed (simp add: looked_up_def)

lemma reference_suites_answer:
  "\<exists>answer. ListReferenceConfigSuites collate no_faults d = Success answer \<and> distinct (map fst answer) \<and>
     (\<forall>n. map_of answer n =
       (let es = concat (map (entries_in n) (by_name collate d)) in if es = [] then None else Some es))"
proof -
  let ?answer = "foldl add_suite [] (by_name collate d)"
  have "no_empty ?answer" by (rule add_suites_facts(2)) (simp add: no_empty_def)
  moreover have "looked_up ?answer n = concat (map (entries_in n) (by_name collate d))" for n
    using add_suites_facts(1)[of "[]"] by (simp add: looked_up_def)
  moreover have "ListReferenceConfigSuites collate no_faults d = Success ?answer"
    by (simp add: ListReferenceConfigSuites_def ReferenceConfigSuiteList_def by_name_def)
  ultimately show ?thesis
    by (auto simp: no_empty_lookup Let_def) (simp add: no_empty_def)
qed

text \<open>C40. The list of reference suites says of every actor exactly what the suites hold for it: its
  settings in each suite that decodes, in the order of the suites' names, and nothing of actors that
  no suite configures; no actor is listed twice.\<close>

theorem reference_suites_by_actor:
  "\<exists>answer. ListReferenceConfigSuites collate no_faults d = Success answer \<and> distinct (map fst answer) \<and>
     (\<forall>n. map_of answer n =
       (let es = concat (map (entries_in n) (by_name collate d)) in if es = [] then None else Some es))"
  by (rule reference_suites_answer)

subsection \<open>From one server to the other\<close>

text \<open>
  The documented behaviour of S3: what has been put is read back, other keys are as before, and a
  listing holds every key with the prefix once.
\<close>

definition s3_put_law :: "'s s3 \<Rightarrow> bool" where
  "s3_put_law s3 \<longleftrightarrow>
     (\<forall>s bucket key data s'. PutObject s3 s bucket key data = (None, s') \<longrightarrow>
        GetObject s3 s' bucket key = Inr data \<and>
        (\<forall>k. k \<noteq> key \<longrightarrow> GetObject s3 s' bucket k = GetObject s3 s bucket k) \<and>
        (\<forall>key_prefix obs. HasPrefix key key_prefix \<and> listed s3 s' bucket key_prefix obs \<longrightarrow>
           key \<in> o_key ` set obs \<and> distinct (map o_key obs)))"

lemma sample_s3_law: "s3_put_law sample_s3"
proof -
  have "key \<in> o_key ` set obs \<and> distinct (map o_key obs)"
    if "HasPrefix key key_prefix" "listed sample_s3 ((key, data, t) # s) bucket key_prefix obs" for key key_prefix data t s bucket obs
  proof -
    have "map o_key obs = filter (\<lambda>k. HasPrefix k key_prefix) (remdups (map fst ((key, data, t) # s)))"
      using that(2) by (auto simp: listed_def sample_s3_def Cons_eq_map_conv comp_def)
    moreover from arg_cong[OF this, of set]
    have "o_key ` set obs = {k \<in> insert key (fst ` set s). HasPrefix k key_prefix}" by auto
    ultimately show ?thesis using that(1) by (simp add: distinct_filter)
  qed
  then show ?thesis by (auto simp: s3_put_law_def) (auto simp: sample_s3_def)
qed

lemma copy_object_keeps:
  "o_key ob \<noteq> k \<Longrightarrow> fst (copy_object get display c ob) k = fst c k"
  "(\<And>acs. get (o_key ob) \<noteq> Inr (name, acs)) \<Longrightarrow> snd (copy_object get display c ob) name = snd c name"
  by (cases c; auto simp: copy_object_def split: sum.splits)+

lemma copied_once:
  assumes "distinct (map o_key obs)" and "ob \<in> set obs" and "fst c (o_key ob) \<noteq> Some (o_modified ob)"
    and "get (o_key ob) = Inr (name, acs)" and "name \<noteq> display"
    and others: "\<And>k acs. k \<noteq> o_key ob \<Longrightarrow> get k \<noteq> Inr (name, acs)"
  shows "snd (foldl (copy_object get display) c obs) name = Some (configs_json acs)"
proof -
  obtain xs ys where obs: "obs = xs @ ob # ys" using assms(2) by (meson split_list)
  have before: "fst (foldl (copy_object get display) c xs) (o_key ob) = fst c (o_key ob)"
    if "o_key ob \<notin> o_key ` set xs" for xs c
    using that by (induction xs arbitrary: c) (auto simp: copy_object_keeps(1) neq_commute)
  have after: "snd (foldl (copy_object get display) c ys) name = snd c name"
    if "o_key ob \<notin> o_key ` set ys" for ys c
    using that by (induction ys arbitrary: c) (auto simp: copy_object_keeps(2)[OF others])
  have "o_key ob \<notin> o_key ` set xs" "o_key ob \<notin> o_key ` set ys" using assms(1) by (auto simp: obs)
  with before[of xs c] assms(3-5) show ?thesis
    by (simp add: obs after) (auto simp: copy_object_def split: prod.splits)
qed

lemma go_map_idem [simp]: "go_map (go_map m) = go_map m"
  using puts_ordered[of "[]" m] puts_sorted[of "[]" "go_map m"] by (simp add: go_map_def)

lemma listed_entry:
  assumes "suites_of d name = Some (configs_json acs)" and "(n, m) \<in> set acs"
  shows "(name, go_map m) \<in> set (concat (map (entries_in n) (by_name collate d)))"
proof -
  obtain row where row: "row \<in> set (reference_suites d)" "rs_name row = name" "rs_config_suites row = configs_json acs"
    using assms(1) by (auto simp: suites_of_def dest: find_SomeD)
  have "(n, go_map m) \<in> set (map (\<lambda>ac. (fst ac, go_map (snd ac))) acs)" using assms(2) by force
  then have "(name, go_map m) \<in> set (entries_in n row)"
    using row by (force simp: entries_in_def read_configs_json)
  with row(1) show ?thesis by (auto simp: by_name_def)
qed



end
