(* ===== verification/Cluster_Admin.thy ===== *)
theory Cluster_Admin
  imports K8s_Controller
begin

text \<open>
  The handlers that pass on to the Kubernetes controller: secrets (\<^verbatim>\<open>admin/secret_manage.go\<close>) and pod
  metrics (\<^verbatim>\<open>ListPodMetrics\<close> of \<^verbatim>\<open>admin/deployment_manage.go\<close>). \<open>usage\<close> reads the containers of a metrics
  object: thousandths of a CPU and bytes of memory.
\<close>

definition answer_of :: "string \<Rightarrow> ('a \<Rightarrow> 'b outcome) \<Rightarrow> (kfail + 'a) \<times> 's \<Rightarrow> 'b reply outcome \<times> 's" where
  "answer_of msg f = (\<lambda>(r, s). (case r of
     Inl (Failed e) \<Rightarrow> Return (ServerError (msg @ e))
   | Inl Crashed \<Rightarrow> Panic ''controller''
   | Inr x \<Rightarrow> (case f x of Panic p \<Rightarrow> Panic p | Return y \<Rightarrow> Return (Success y)), s))"

definition AdminListSecrets :: "'s kube_api \<Rightarrow> 's \<Rightarrow> (string \<times> string list) list reply outcome \<times> 's" where
  "AdminListSecrets api s =
     answer_of ''Failed to list secrets: '' (\<lambda>secrets. Return (map (\<lambda>x. (sk_name x, sk_keys x)) secrets))
       (ListSecrets api s)"

text \<open>The copy of the body visits its keys once each, in any order. A missing body is a nil pointer.\<close>

definition AdminUpdateSecret ::
    "'s kube_api \<Rightarrow> string \<Rightarrow> smap option \<Rightarrow> 's \<Rightarrow> unit reply outcome \<times> 's" where
  "AdminUpdateSecret api name body s =
     (case body of
        None \<Rightarrow> (nil_panic, s)
      | Some secretData \<Rightarrow>
          answer_of ''Failed to update secret: '' Return (UpdateSecret api name secretData s))"

definition AdminDeleteSecret :: "'s kube_api \<Rightarrow> string \<Rightarrow> 's \<Rightarrow> unit reply outcome \<times> 's" where
  "AdminDeleteSecret api name s =
     answer_of ''Failed to delete secret: '' Return (DeleteSecret api name s)"

definition ListPodMetrics ::
    "(json \<Rightarrow> (int \<times> int) list) \<Rightarrow> 's kube_api \<Rightarrow> 's \<Rightarrow> (string \<times> int \<times> int) list reply outcome \<times> 's" where
  "ListPodMetrics usage api s =
     answer_of ''Cannot list pod metrics: ''
       (traverse_outcome (\<lambda>(p, m). case usage m of
          [] \<Rightarrow> Panic ''index out of range [0] with length 0''
        | (cpu, mem) # _ \<Rightarrow> Return (pod_name p, cpu, mem)))
       (ListRunningPodsWithMetrics api s)"

lemmas cluster_handlers [handler_simps] =
  AdminListSecrets_def AdminUpdateSecret_def AdminDeleteSecret_def ListPodMetrics_def

lemma answer_of_success:
  "answer_of msg f q = (Return (Success y), s') \<longleftrightarrow> (\<exists>x. q = (Inr x, s') \<and> f x = Return y)"
  by (auto simp: answer_of_def split: prod.splits sum.splits kfail.splits outcome.splits)

subsection \<open>An update of a secret\<close>

definition secret_data :: "k_secret \<Rightarrow> smap" where
  "secret_data x = from_ptr_or (kx_data x) []"

lemma map_of_set_secret_key:
  "map_of (set_secret_key kv m) = (if snd kv = '''' then (map_of m)(fst kv := None) else (map_of m)(fst kv \<mapsto> snd kv))"
proof -
  have "map_of (filter (\<lambda>(k', _). k' \<noteq> k) m) = (map_of m)(k := None)" for k
    by (induction m) (auto simp: fun_eq_iff)
  then show ?thesis by (cases kv) (simp add: set_secret_key_def update_conv')
qed

definition patched :: "smap \<Rightarrow> (string \<Rightarrow> string option) \<Rightarrow> string \<Rightarrow> string option" where
  "patched body old k = (case map_of body k of None \<Rightarrow> old k | Some v \<Rightarrow> if v = '''' then None else Some v)"

lemma map_of_set_secret_keys:
  "distinct (map fst body) \<Longrightarrow> map_of (fold set_secret_key body m) = patched body (map_of m)"
proof (induction body arbitrary: m)
  case (Cons kv body)
  then have "map_of body (fst kv) = None" by (simp add: map_of_eq_None_iff)
  with Cons show ?case
    by (cases kv) (auto simp: map_of_set_secret_key patched_def fun_eq_iff split: option.splits)
qed (simp add: patched_def fun_eq_iff)

lemma get_secret_found:
  assumes "kube_laws api objs" and "get_secret api n s = Inr x"
  shows "objs s (SecretKind, n) = Some (KSecret x) \<and> kx_name x = n"
proof -
  have "kget api (SecretKind, n) s = Inr (KSecret x)"
    using assms(2) by (auto simp: get_secret_def split: sum.splits kobject.splits)
  then have found: "objs s (SecretKind, n) = Some (KSecret x)"
    using assms(1) unfolding kube_laws_def by (elim conjE) metis
  with laws_key[OF assms(1) found] show ?thesis by simp
qed

lemma get_secret_gone:
  assumes "kube_laws api objs" and "get_secret api n s = Inl IsNotFound"
  shows "objs s (SecretKind, n) = None"
proof -
  have "kget api (SecretKind, n) s = Inl IsNotFound"
    using assms(2) by (auto simp: get_secret_def split: sum.splits kobject.splits)
  then show ?thesis using assms(1) unfolding kube_laws_def by (elim conjE) metis
qed

text \<open>C30. A secret that was updated holds what was sent: in an existing secret the keys sent with a
  value have it, those sent empty are gone and all others are as before; a secret that did not exist
  holds exactly the body, empty values included. No other object of the cluster changes.\<close>

theorem updated_secret_holds_body:
  assumes "kube_laws api objs" and "AdminUpdateSecret api name (Some body) s = (Return (Success ()), s')"
    and "distinct (map fst body)"
  shows "\<exists>x. objs s' = (objs s)((SecretKind, name) \<mapsto> KSecret x) \<and>
    map_of (secret_data x) =
      (case objs s (SecretKind, name) of
         Some (KSecret old) \<Rightarrow> patched body (map_of (secret_data old))
       | _ \<Rightarrow> map_of body)"
proof -
  have up: "UpdateSecret api name body s = (Inr (), s')"
    using assms(2) by (simp add: AdminUpdateSecret_def answer_of_success)
  show ?thesis
  proof (cases "get_secret api name s")
    case (Inl e)
    with up have "e = IsNotFound" "createSecret api name body s = (Inr (), s')"
      by (auto simp: UpdateSecret_def split: kerr.splits)
    moreover have "objs s (SecretKind, name) = None" if "e = IsNotFound"
      using Inl that get_secret_gone[OF assms(1)] by simp
    ultimately show ?thesis
      using laws_create[OF assms(1)] by (auto simp: createSecret_def secret_data_def)
  next
    case (Inr old)
    with up have "updateExistingSecret api old body s = (Inr (), s')" by (simp add: UpdateSecret_def)
    moreover have "objs s (SecretKind, name) = Some (KSecret old)" "kx_name old = name"
      using get_secret_found[OF assms(1) Inr] by simp_all
    ultimately show ?thesis
      using laws_update[OF assms(1)]
      by (auto simp: updateExistingSecret_def secret_data_def map_of_set_secret_keys[OF assms(3)])
  qed
qed

definition keyed_secret :: kobject where
  "keyed_secret = KSecret \<lparr>kx_name = ''llm'', kx_labels = [], kx_data = Some [(''OLD'', ''1''), (''KEPT'', ''2'')]\<rparr>"

theorem updated_secret_holds_body_witness:
  "\<exists>s' x. AdminUpdateSecret list_server ''llm'' (Some [(''OLD'', ''''), (''NEW'', ''3'')]) [keyed_secret] =
      (Return (Success ()), s') \<and>
    find_object s' (SecretKind, ''llm'') = Some (KSecret x) \<and>
    map_of (secret_data x) ''OLD'' = None \<and> map_of (secret_data x) ''KEPT'' = Some ''2'' \<and>
    map_of (secret_data x) ''NEW'' = Some ''3''"
proof -
  let ?body = "[(''OLD'', ''''), (''NEW'', ''3'')]"
  have "fst (AdminUpdateSecret list_server ''llm'' (Some ?body) [keyed_secret]) = Return (Success ())"
    by code_simp
  then obtain s' where run: "AdminUpdateSecret list_server ''llm'' (Some ?body) [keyed_secret] = (Return (Success ()), s')"
    by (metis prod.collapse)
  have old: "find_object [keyed_secret] (SecretKind, ''llm'') =
      Some (KSecret \<lparr>kx_name = ''llm'', kx_labels = [], kx_data = Some [(''OLD'', ''1''), (''KEPT'', ''2'')]\<rparr>)"
    by code_simp
  from updated_secret_holds_body[OF list_server_laws run] obtain x where
    x: "find_object s' = (find_object [keyed_secret])((SecretKind, ''llm'') \<mapsto> KSecret x)"
    "map_of (secret_data x) = patched ?body (map_of [(''OLD'', ''1''), (''KEPT'', ''2'')])"
    by (auto simp: old secret_data_def)
  then show ?thesis using run by (intro exI[of _ s'] exI[of _ x]) (simp add: patched_def)
qed

subsection \<open>Metrics of a starting pod\<close>

text \<open>A running pod whose metrics have no container yet makes the list of pod metrics panic.\<close>

lemma metrics_without_container_panic:
  assumes "ListRunningPodsWithMetrics api s = (Inr pods, s')"
  shows "panics (fst (ListPodMetrics usage api s)) \<longleftrightarrow> (\<exists>x \<in> set pods. usage (snd x) = [])"
proof -
  have "panics (traverse_outcome f xs) \<longleftrightarrow> (\<exists>x \<in> set xs. panics (f x))"
    for f :: "pod \<times> json \<Rightarrow> (string \<times> int \<times> int) outcome" and xs
    by (induction xs) (auto split: outcome.splits)
  moreover have "panics (case r of Panic p \<Rightarrow> Panic p | Return y \<Rightarrow> Return (Success y)) \<longleftrightarrow> panics r"
    for r :: "(string \<times> int \<times> int) list outcome" by (cases r) simp_all
  moreover have "panics (case x of (p, m) \<Rightarrow> (case usage m of [] \<Rightarrow> Panic e
      | (cpu, mem) # _ \<Rightarrow> Return (pod_name p, cpu, mem))) \<longleftrightarrow> usage (snd x) = []" for x :: "pod \<times> json" and e
    by (cases x; cases "usage (snd x)") auto
  ultimately show ?thesis
    using assms by (simp add: ListPodMetrics_def answer_of_def)
qed

end
