(* ===== verification/Listings.thy ===== *)
theory Listings
  imports Deployment_Store Actor_Store "HOL-Library.Signed_Division" "HOL-Library.List_Lexorder" "HOL-Library.Char_ord" "HOL-Library.Multiset"
begin

text \<open>
  The paginated lists: the statements \<^verbatim>\<open>ActorListPagenated\<close>, \<^verbatim>\<open>ApiTokenListByPage\<close> and
  \<^verbatim>\<open>DeploymentListPaginated\<close> and the handlers \<^verbatim>\<open>ListActors\<close>, \<^verbatim>\<open>ListApiTokens\<close> and \<^verbatim>\<open>ListDeployments\<close>. What
  all three statements promise of their pages is the locale \<open>paged\<close>. \<open>collate\<close> is the database's
  collation: texts are ordered by what it makes of them, and then by their bytes.
\<close>

subsection \<open>Pages\<close>

definition bigint :: "int \<Rightarrow> bool" where
  "bigint x \<longleftrightarrow> - (2 ^ 63) \<le> x \<and> x < 2 ^ 63"

text \<open>\<^verbatim>\<open>LIMIT size OFFSET size * (page - 1)\<close>: the product is a \<^verbatim>\<open>bigint\<close>, and neither may be negative.\<close>

definition page_rows :: "int \<Rightarrow> int \<Rightarrow> 'r list \<Rightarrow> pgerr + 'r list" where
  "page_rows sz page rows =
     (if \<not> bigint (page - 1) \<or> \<not> bigint (sz * (page - 1)) then Inl (DbError ''bigint out of range'')
      else if sz * (page - 1) < 0 then Inl (DbError ''OFFSET must not be negative'')
      else if sz < 0 then Inl (DbError ''LIMIT must not be negative'')
      else Inr (take (nat sz) (drop (nat (sz * (page - 1))) rows)))"

text \<open>\<open>accepted\<close>: the server accepts the statement's arguments other than the page.\<close>

locale paged =
  fixes ask :: "int \<Rightarrow> int \<Rightarrow> 'd \<Rightarrow> (pgerr + 'r list) \<times> 'd"
    and rows :: "'d \<Rightarrow> 'r list"
    and accepted :: bool
  assumes ask_page: "accepted \<Longrightarrow> ask sz page d = (page_rows sz page (rows d), d)"
    and ask_refused: "\<not> accepted \<Longrightarrow> \<exists>e. ask sz page d = (Inl e, d)"
begin

lemma keeps_db: "snd (ask sz page d) = d"
  using ask_refused [of sz page d] by (cases accepted) (auto simp: ask_page)

lemma answered_page: "fst (ask sz page d) = Inr rs \<Longrightarrow> page_rows sz page (rows d) = Inr rs"
  using ask_refused [of sz page d] by (cases accepted) (auto simp: ask_page)

lemma page_bound: "fst (ask sz page d) = Inr rs \<Longrightarrow> int (length rs) \<le> sz"
  by (drule answered_page) (auto simp: page_rows_def split: if_splits)

lemma page_part:
  "fst (ask sz page d) = Inr rs \<Longrightarrow>
     0 \<le> sz \<and> 0 \<le> sz * (page - 1) \<and> rs = take (nat sz) (drop (nat (sz * (page - 1))) (rows d))"
  by (drule answered_page) (simp add: page_rows_def not_less split: if_splits)

lemma page_content:
  assumes accepted and "0 \<le> sz" and "sz * int n < 2 ^ 63" and "int n < 2 ^ 63"
  shows "fst (ask sz (int n + 1) d) = Inr (take (nat sz) (drop (nat sz * n) (rows d)))"
proof -
  have "0 \<le> sz * int n" using assms(2) by simp
  with assms(3) have "\<not> sz * int n < 0" "bigint (sz * int n)" unfolding bigint_def by linarith+
  moreover have "bigint (int n)" and "nat (sz * int n) = nat sz * n"
    using assms by (simp_all add: bigint_def nat_mult_distrib)
  ultimately show ?thesis using assms(1, 2) unfolding ask_page [OF assms(1)] page_rows_def
    by (simp del: mult_less_0_iff)
qed

lemma bad_page: "0 < sz \<Longrightarrow> page \<le> 0 \<Longrightarrow> \<exists>e. fst (ask sz page d) = Inl e"
  using ask_refused [of sz page d]
  by (cases accepted) (auto simp: ask_page page_rows_def mult_less_0_iff)

text \<open>The first pages one after the other are the first rows.\<close>

lemma pages_in_turn:
  assumes accepted and "0 \<le> sz" and "sz * int n < 2 ^ 63" and "int n < 2 ^ 63"
  shows "\<exists>pages. length pages = n \<and> (\<forall>i < n. fst (ask sz (int i + 1) d) = Inr (pages ! i)) \<and>
    concat pages = take (nat sz * n) (rows d)"
proof (intro exI conjI allI impI)
  let ?page = "\<lambda>i. take (nat sz) (drop (nat sz * i) (rows d))"
  show "length (map ?page [0..<n]) = n" by simp
  show "concat (map ?page [0..<n]) = take (nat sz * n) (rows d)"
    by (induction n) (simp_all add: take_add [of "nat sz * n" "nat sz" for n] add.commute [of "nat sz"])
  fix i assume i: "i < n"
  then have "sz * int i \<le> sz * int n" using assms(2) by (intro mult_left_mono) simp_all
  then show "fst (ask sz (int i + 1) d) = Inr (map ?page [0..<n] ! i)"
    using i assms by (simp add: page_content)
qed

end

subsection \<open>Actors\<close>

definition text_key :: "(string \<Rightarrow> string) \<Rightarrow> string \<Rightarrow> string \<times> string" where
  "text_key collate s = (collate s, s)"

text \<open>Each row: the actor, how many rows there are, its number of tokens and whether it is renameable.\<close>

definition actor_rows :: "(string \<Rightarrow> string) \<Rightarrow> db \<Rightarrow> (actor \<times> nat \<times> nat \<times> bool) list" where
  "actor_rows collate d =
     map (\<lambda>a. (a, length (actors d), token_count d (a_id a), token_count d (a_id a) = 0))
       (sort_key (\<lambda>a. text_key collate (a_name a)) (actors d))"

definition ActorListPagenated ::
    "(string \<Rightarrow> string) \<Rightarrow> int \<Rightarrow> int \<Rightarrow> db \<Rightarrow> (pgerr + (actor \<times> nat \<times> nat \<times> bool) list) \<times> db" where
  "ActorListPagenated collate sz page d = (page_rows sz page (actor_rows collate d), d)"

interpretation actor_pages: paged "ActorListPagenated collate" "actor_rows collate" True for collate
  by unfold_locales (simp_all add: ActorListPagenated_def)

subsection \<open>API tokens\<close>

definition token_rows :: "(string \<Rightarrow> string) \<Rightarrow> int option \<Rightarrow> db \<Rightarrow> (api_token \<times> actor \<times> nat) list" where
  "token_rows collate aid d =
     (let joined = List.map_filter (\<lambda>t. map_option (Pair t) (actor_of d (t_actor_id t))) (api_tokens d);
          kept = filter (\<lambda>(t, a). aid = None \<or> aid = Some (a_id a)) joined
      in map (\<lambda>(t, a). (t, a, length kept)) (sort_key (\<lambda>(t, a). (- t_created_at t, text_key collate (t_id t))) kept))"

definition ApiTokenListByPage ::
    "(string \<Rightarrow> string) \<Rightarrow> int option \<Rightarrow> int \<Rightarrow> int \<Rightarrow> db \<Rightarrow> (pgerr + (api_token \<times> actor \<times> nat) list) \<times> db" where
  "ApiTokenListByPage collate aid sz page d = (page_rows sz page (token_rows collate aid d), d)"

interpretation token_pages: paged "ApiTokenListByPage collate aid" "token_rows collate aid" True for collate aid
  by unfold_locales (simp_all add: ApiTokenListByPage_def)

subsection \<open>Deployments\<close>

text \<open>The order of the enum \<^verbatim>\<open>deployment_status\<close>, as the migrations leave it.\<close>

instantiation DeploymentStatus :: linorder
begin

fun status_position :: "DeploymentStatus \<Rightarrow> nat" where
  "status_position DeploymentStatusDraft = 0"
| "status_position DeploymentStatusReviewing = 1"
| "status_position DeploymentStatusApproved = 2"
| "status_position DeploymentStatusDeploying = 3"
| "status_position DeploymentStatusDeployed = 4"
| "status_position DeploymentStatusFailed = 5"
| "status_position DeploymentStatusRejected = 6"
| "status_position DeploymentStatusRetired = 7"
| "status_position DeploymentStatusCancelled = 8"

definition less_eq_DeploymentStatus :: "DeploymentStatus \<Rightarrow> DeploymentStatus \<Rightarrow> bool" where
  "x \<le> y \<longleftrightarrow> status_position x \<le> status_position y"

definition less_DeploymentStatus :: "DeploymentStatus \<Rightarrow> DeploymentStatus \<Rightarrow> bool" where
  "x < y \<longleftrightarrow> status_position x < status_position y"

instance
proof
  fix x y :: DeploymentStatus
  show "x \<le> y \<Longrightarrow> y \<le> x \<Longrightarrow> x = y"
    by (cases x; cases y) (simp_all add: less_eq_DeploymentStatus_def)
qed (auto simp: less_eq_DeploymentStatus_def less_DeploymentStatus_def)

end

fun status_text :: "DeploymentStatus \<Rightarrow> string" where
  "status_text DeploymentStatusDraft = ''draft''"
| "status_text DeploymentStatusReviewing = ''reviewing''"
| "status_text DeploymentStatusApproved = ''approved''"
| "status_text DeploymentStatusDeploying = ''deploying''"
| "status_text DeploymentStatusDeployed = ''deployed''"
| "status_text DeploymentStatusFailed = ''failed''"
| "status_text DeploymentStatusRejected = ''rejected''"
| "status_text DeploymentStatusRetired = ''retired''"
| "status_text DeploymentStatusCancelled = ''cancelled''"

definition all_statuses :: "DeploymentStatus list" where
  "all_statuses = [DeploymentStatusDraft, DeploymentStatusReviewing, DeploymentStatusApproved,
     DeploymentStatusDeploying, DeploymentStatusDeployed, DeploymentStatusFailed,
     DeploymentStatusRejected, DeploymentStatusRetired, DeploymentStatusCancelled]"

record list_params =
  lp_reviewer :: "string option"
  lp_status :: "string option"
  lp_name :: "string option"
  lp_id :: "int list option"
  lp_sort_by :: "string option"
  lp_sort_order :: "string option"

text \<open>
  The \<^verbatim>\<open>WHERE\<close> clause. \<open>ilike\<close> is the server's matching of a text with a pattern, letters in either case.
\<close>

definition wanted_deployment :: "(string \<Rightarrow> string \<Rightarrow> bool) \<Rightarrow> list_params \<Rightarrow> deployment \<Rightarrow> bool" where
  "wanted_deployment ilike p x \<longleftrightarrow>
     (case lp_reviewer p of None \<Rightarrow> True | Some r \<Rightarrow> r \<in> set (d_reviewers x)) \<and>
     (case lp_status p of None \<Rightarrow> True | Some t \<Rightarrow> status_text (d_status x) = t) \<and>
     (case lp_name p of None \<Rightarrow> True | Some n \<Rightarrow> ilike (''%'' @ n @ ''%'') (d_name x)) \<and>
     (case lp_id p of None \<Rightarrow> True | Some ids \<Rightarrow> d_id x \<in> set ids)"

text \<open>
  The \<^verbatim>\<open>ORDER BY\<close> clause: at most one of the \<^verbatim>\<open>CASE\<close> expressions is not NULL throughout, so it comes
  first, descending if asked; rows it does not tell apart follow by falling id. NULL sorts as the
  greatest value.
\<close>

definition descending :: "('r \<Rightarrow> 'k::linorder) \<Rightarrow> 'r list \<Rightarrow> 'r list" where
  "descending k xs = rev (sort_key k (rev xs))"

definition ordered_by :: "string option \<Rightarrow> ('r \<Rightarrow> 'k::linorder) \<Rightarrow> 'r list \<Rightarrow> 'r list" where
  "ordered_by order k xs =
     (if order = Some ''ASC'' then sort_key k xs
      else if order = Some ''DESC'' then descending k xs
      else xs)"

definition nulls_last :: "int option \<Rightarrow> bool \<times> int" where
  "nulls_last v = (case v of None \<Rightarrow> (True, 0) | Some n \<Rightarrow> (False, n))"

definition sort_deployments :: "(string \<Rightarrow> string) \<Rightarrow> list_params \<Rightarrow> deployment list \<Rightarrow> deployment list" where
  "sort_deployments collate p xs =
     (let by_id = descending d_id xs; order = lp_sort_order p
      in if lp_sort_by p = Some ''name'' then ordered_by order (\<lambda>x. text_key collate (d_name x)) by_id
         else if lp_sort_by p = Some ''status'' then ordered_by order d_status by_id
         else if lp_sort_by p = Some ''approved_at'' then ordered_by order (\<lambda>x. nulls_last (d_approved_at x)) by_id
         else if lp_sort_by p = Some ''created_at'' then ordered_by order d_created_at by_id
         else by_id)"

definition deployment_rows ::
    "(string \<Rightarrow> string) \<Rightarrow> (string \<Rightarrow> string \<Rightarrow> bool) \<Rightarrow> list_params \<Rightarrow> db \<Rightarrow> (deployment \<times> nat) list" where
  "deployment_rows collate ilike p d =
     (let kept = filter (wanted_deployment ilike p) (deployments d)
      in map (\<lambda>x. (x, length kept)) (sort_deployments collate p kept))"

text \<open>A status that is none of the enum fails the statement.\<close>

definition valid_status :: "list_params \<Rightarrow> bool" where
  "valid_status p \<longleftrightarrow> (case lp_status p of None \<Rightarrow> True | Some t \<Rightarrow> t \<in> set (map status_text all_statuses))"

definition DeploymentListPaginated ::
    "(string \<Rightarrow> string) \<Rightarrow> (string \<Rightarrow> string \<Rightarrow> bool) \<Rightarrow> list_params \<Rightarrow> int \<Rightarrow> int \<Rightarrow> db \<Rightarrow>
     (pgerr + (deployment \<times> nat) list) \<times> db" where
  "DeploymentListPaginated collate ilike p sz page d =
     (if valid_status p then (page_rows sz page (deployment_rows collate ilike p d), d)
      else (Inl (DbError (''invalid input value for enum deployment_status: '' @ from_ptr_or (lp_status p) [])), d))"

interpretation deployment_pages:
    paged "DeploymentListPaginated collate ilike p" "deployment_rows collate ilike p" "valid_status p"
  for collate ilike p
  by unfold_locales (simp_all add: DeploymentListPaginated_def)

subsection \<open>The handlers\<close>

definition defaultPage :: int where "defaultPage = 1"

definition defaultPageSize :: int where "defaultPageSize = 10"

text \<open>Go's \<^verbatim>\<open>int\<close> has 64 bits; its division truncates, and panics on zero.\<close>

definition int64 :: "int \<Rightarrow> int" where
  "int64 x = signed_take_bit 63 x"

definition total_pages :: "int \<Rightarrow> int \<Rightarrow> int outcome" where
  "total_pages cnt sz =
     (if sz = 0 then Panic ''integer divide by zero'' else Return (int64 (int64 (cnt + sz - 1) sdiv sz)))"

text \<open>The answer's list of actors, with their number of tokens and whether they are renameable, and its total of pages.\<close>

definition ListActors ::
    "(string \<Rightarrow> string) \<Rightarrow> faults \<Rightarrow> int option \<Rightarrow> int option \<Rightarrow> db \<Rightarrow>
     ((actor \<times> nat \<times> bool) list \<times> int) reply outcome" where
  "ListActors collate flt page page_size d =
     (let size = from_ptr_or page_size defaultPageSize
      in case fst (run_query flt 0 (ActorListPagenated collate size (from_ptr_or page defaultPage)) d) of
           Inl e \<Rightarrow> Return (ServerError (''Cannot list actors: '' @ err_text e))
         | Inr [] \<Rightarrow> Return (Success ([], 0))
         | Inr ((a, cnt, rest) # rows) \<Rightarrow>
             (case total_pages (int cnt) size of
                Panic e \<Rightarrow> Panic e
              | Return n \<Rightarrow>
                  Return (Success (map (\<lambda>(a, _, tokens, renameable). (a, tokens, renameable))
                    ((a, cnt, rest) # rows), n))))"

definition ListApiTokens ::
    "(string \<Rightarrow> string) \<Rightarrow> faults \<Rightarrow> int option \<Rightarrow> int option \<Rightarrow> int option \<Rightarrow> db \<Rightarrow>
     ((api_token \<times> actor) list \<times> int) reply outcome" where
  "ListApiTokens collate flt aid page page_size d =
     (let size = from_ptr_or page_size defaultPageSize
      in case fst (run_query flt 0 (ApiTokenListByPage collate aid (Clamp size 1 1000)
               (max (from_ptr_or page defaultPage) 1)) d) of
           Inl e \<Rightarrow> Return (ServerError (''Cannot list API tokens: '' @ err_text e))
         | Inr rows \<Rightarrow>
             (case total_pages (case rows of [] \<Rightarrow> 0 | (t, a, cnt) # _ \<Rightarrow> int cnt) size of
                Panic e \<Rightarrow> Panic e
              | Return n \<Rightarrow> Return (Success (map (\<lambda>(t, a, _). (t, a)) rows, n))))"

text \<open>A listed deployment, and the answer: deployments, their total, the page and its size.\<close>

record deployment_item =
  di_id :: int
  di_name :: string
  di_status :: DeploymentStatus
  di_notes :: "json option"
  di_reviewers :: "string list"
  di_created_by :: string
  di_created_at :: int
  di_approved_by :: "string option"
  di_approved_at :: "int option"
  di_finished_by :: "string option"
  di_finished_at :: "int option"

definition item_of :: "deployment \<Rightarrow> deployment_item" where
  "item_of x =
     \<lparr>di_id = d_id x, di_name = d_name x, di_status = d_status x, di_notes = deserializeNotes (d_notes x),
      di_reviewers = d_reviewers x, di_created_by = d_created_by x, di_created_at = d_created_at x,
      di_approved_by = d_approved_by x, di_approved_at = d_approved_at x,
      di_finished_by = d_finished_by x, di_finished_at = d_finished_at x\<rparr>"

definition ListDeployments ::
    "(string \<Rightarrow> string) \<Rightarrow> (string \<Rightarrow> string \<Rightarrow> bool) \<Rightarrow> faults \<Rightarrow> list_params \<Rightarrow> int option \<Rightarrow> int option \<Rightarrow> db \<Rightarrow>
     (deployment_item list \<times> int \<times> int \<times> int) reply" where
  "ListDeployments collate ilike flt p page page_size d =
     (let n = from_ptr_or page defaultPage; size = Clamp (from_ptr_or page_size defaultPageSize) 1 100
      in case fst (run_query flt 0 (DeploymentListPaginated collate ilike p size n) d) of
           Inl e \<Rightarrow> ServerError (''Cannot list deployments: '' @ err_text e)
         | Inr [] \<Rightarrow> Success ([], 0, 0, 0)
         | Inr ((x, cnt) # rows) \<Rightarrow>
             Success (map (item_of \<circ> fst) ((x, cnt) # rows), int cnt, n, size))"

subsection \<open>The number of pages\<close>

lemma int64_id: "bigint x \<Longrightarrow> int64 x = x"
  by (simp add: bigint_def int64_def signed_take_bit_int_eq_self)

lemma sdiv_nonneg: "0 \<le> x \<Longrightarrow> 0 < y \<Longrightarrow> x sdiv (y::int) = x div y"
  by (simp add: signed_divide_int_def sgn_if)

lemma enough_pages:
  assumes "0 < sz" and "0 \<le> (cnt :: int)"
  shows "cnt \<le> sz * ((cnt + sz - 1) div sz) \<and> sz * ((cnt + sz - 1) div sz) < cnt + sz"
proof -
  let ?n = "cnt + sz - 1"
  have "sz * (?n div sz) + ?n mod sz = ?n" by (rule mult_div_mod_eq)
  moreover have "0 \<le> ?n mod sz" "?n mod sz < sz" using assms(1) by simp_all
  ultimately show ?thesis by linarith
qed

lemma total_pages_positive:
  assumes "0 \<le> cnt" and "0 < sz" and "cnt + sz \<le> 2 ^ 63"
  shows "total_pages cnt sz = Return ((cnt + sz - 1) div sz)"
proof -
  let ?n = "(cnt + sz - 1) div sz"
  have n: "0 \<le> ?n" using assms by (simp add: pos_imp_zdiv_nonneg_iff)
  then have "1 * ?n \<le> sz * ?n" using assms(2) by (intro mult_right_mono) simp_all
  with n have "bigint ?n" "bigint (cnt + sz - 1)"
    using enough_pages [OF assms(2) assms(1)] assms by (simp_all add: bigint_def)
  with assms show ?thesis by (simp add: total_pages_def int64_id sdiv_nonneg)
qed

text \<open>All the pages of a total are the rows, and none of them is empty.\<close>

context paged
begin

lemma pages_cover:
  assumes accepted and "0 < sz" and "int (length (rows d)) + sz \<le> 2 ^ 63"
  shows "\<exists>pages. int (length pages) = (int (length (rows d)) + sz - 1) div sz \<and>
    (\<forall>i < length pages. fst (ask sz (int i + 1) d) = Inr (pages ! i) \<and> pages ! i \<noteq> []) \<and>
    concat pages = rows d"
proof -
  let ?L = "int (length (rows d))"
  define n where "n = nat ((?L + sz - 1) div sz)"
  have "0 \<le> (?L + sz - 1) div sz" using assms(2) by (simp add: pos_imp_zdiv_nonneg_iff)
  then have n: "int n = (?L + sz - 1) div sz" by (simp add: n_def)
  have upto: "?L \<le> sz * int n" "sz * int n < ?L + sz" using enough_pages [OF assms(2), of ?L] n by simp_all
  have "1 * int n \<le> sz * int n" using assms(2) by (intro mult_right_mono) simp_all
  with upto assms(3) have "sz * int n < 2 ^ 63" "int n < 2 ^ 63" by linarith+
  from pages_in_turn [OF assms(1) _ this, of d] obtain pages where pages: "length pages = n"
      "\<And>i. i < n \<Longrightarrow> fst (ask sz (int i + 1) d) = Inr (pages ! i)"
      "concat pages = take (nat sz * n) (rows d)"
    using assms(2) by fastforce
  have "pages ! i \<noteq> []" if i: "i < n" for i
  proof -
    have "sz * int i \<le> sz * (int n - 1)" using i assms(2) by (intro mult_left_mono) simp_all
    with upto(2) have "sz * int i < ?L" by (simp add: algebra_simps)
    moreover have "0 \<le> sz * int i" using assms(2) by simp
    ultimately have "nat (sz * int i) < length (rows d)" by linarith
    moreover from page_part [OF pages(2) [OF i]]
    have "pages ! i = take (nat sz) (drop (nat (sz * int i)) (rows d))" by simp
    ultimately show ?thesis using assms(2) by simp
  qed
  moreover have "length (rows d) \<le> nat sz * n"
    using upto(1) assms(2) by (metis (mono_tags) int_nat_eq less_imp_le nat_le_iff nat_int of_nat_mult zle_int)
  ultimately show ?thesis using pages n by (intro exI [of _ pages]) simp
qed

end

subsection \<open>Sorting\<close>

lemma sorted_insort_key_pair:
  assumes "sorted (map (\<lambda>x. (k x, g x)) ys)" and "\<And>y. y \<in> set ys \<Longrightarrow> g x \<le> g y"
  shows "sorted (map (\<lambda>x. (k x, g x)) (insort_key k x ys))"
  using assms by (induction ys) (auto simp: set_insort_key less_eq_prod_def)

text \<open>A stable sort keeps the order of what its key does not tell apart.\<close>

lemma sorted_sort_key_pair:
  "sorted (map g xs) \<Longrightarrow> sorted (map (\<lambda>x. (k x, g x)) (sort_key k xs))"
proof (induction xs)
  case (Cons x xs)
  then show ?case using sorted_insort_key_pair [of k g "sort_key k xs" x] by simp
qed simp

lemma sorted_descending:
  "sorted (rev (map g xs)) \<Longrightarrow> sorted (rev (map (\<lambda>x. (k x, g x)) (descending k xs)))"
  using sorted_sort_key_pair [of g "rev xs" k] by (simp add: descending_def rev_map)

lemma mset_descending [simp]: "mset (descending k xs) = mset xs"
  by (simp add: descending_def)

lemma sorted_descending_self: "sorted (rev (map k (descending k xs)))"
  by (simp add: descending_def rev_map)

lemma mset_ordered_by [simp]: "mset (ordered_by order k xs) = mset xs"
  by (simp add: ordered_by_def)

lemma mset_sort_deployments [simp]: "mset (sort_deployments collate p xs) = mset xs"
  by (simp add: sort_deployments_def Let_def)

text \<open>What the two directions make of a key: falling ids tell apart equal keys.\<close>

lemma ordered_by_sorted:
  assumes "ys = ordered_by order k (descending g xs)"
  shows "order = Some ''ASC'' \<Longrightarrow> sorted (map (\<lambda>x. (k x, - g x)) ys)"
    and "order = Some ''DESC'' \<Longrightarrow> sorted (rev (map (\<lambda>x. (k x, g x :: int)) ys))"
proof -
  have falling: "sorted (rev (map g (descending g xs)))" by (rule sorted_descending_self)
  then have "sorted (map (\<lambda>x. - g x) (descending g xs))"
    by (simp add: descending_def sorted_wrt_rev sorted_wrt_map sorted_map)
  then show "order = Some ''ASC'' \<Longrightarrow> sorted (map (\<lambda>x. (k x, - g x)) ys)"
    using assms sorted_sort_key_pair by (simp add: ordered_by_def)
  show "order = Some ''DESC'' \<Longrightarrow> sorted (rev (map (\<lambda>x. (k x, g x)) ys))"
    using assms sorted_descending [OF falling] by (simp add: ordered_by_def)
qed

subsection \<open>The handlers' answers\<close>

lemma mset_actor_rows: "mset (map fst (actor_rows collate d)) = mset (actors d)"
  by (simp add: actor_rows_def comp_def)

lemma sorted_actor_rows: "sorted (map (\<lambda>r. text_key collate (a_name (fst r))) (actor_rows collate d))"
  by (simp add: actor_rows_def comp_def)

lemma actor_row_count: "r \<in> set (actor_rows collate d) \<Longrightarrow> fst (snd r) = length (actors d)"
  by (auto simp: actor_rows_def)

lemma length_actor_rows [simp]: "length (actor_rows collate d) = length (actors d)"
  by (simp add: actor_rows_def)

text \<open>A page that is not empty is answered with its rows and the total of pages.\<close>

definition shown_actor :: "actor \<times> nat \<times> nat \<times> bool \<Rightarrow> actor \<times> nat \<times> bool" where
  "shown_actor = (\<lambda>(a, _, tokens, renameable). (a, tokens, renameable))"

lemma actor_page_answer:
  assumes "fst (ActorListPagenated collate sz page d) = Inr rows" and "rows \<noteq> []" and "0 < sz"
    and "int (length (actors d)) + sz \<le> 2 ^ 63"
  shows "ListActors collate no_faults (Some page) (Some sz) d =
    Return (Success (map shown_actor rows, (int (length (actors d)) + sz - 1) div sz))"
proof -
  obtain a cnt rest more where rows: "rows = (a, cnt, rest) # more" using assms(2) by (metis neq_Nil_conv prod_cases3)
  have "rows = take (nat sz) (drop (nat (sz * (page - 1))) (actor_rows collate d))"
    using actor_pages.page_part [OF assms(1)] by simp
  then have "(a, cnt, rest) \<in> set (actor_rows collate d)"
    using rows by (metis in_set_dropD in_set_takeD list.set_intros(1))
  from actor_row_count [OF this] have "cnt = length (actors d)" by simp
  then show ?thesis using assms(1, 3, 4) rows
    by (simp add: ListActors_def total_pages_positive shown_actor_def)
qed

text \<open>The pages of the actors' list, as many as its first page announces, show every actor once, by name.\<close>

lemma actor_pages_list_everyone:
  assumes "0 < sz" and "int (length (actors d)) + sz \<le> 2 ^ 63"
  shows "\<exists>pages. (\<forall>i < length pages. ListActors collate no_faults (Some (int i + 1)) (Some sz) d =
      Return (Success (pages ! i, int (length pages)))) \<and>
    mset (map fst (concat pages)) = mset (actors d) \<and>
    sorted (map (\<lambda>r. text_key collate (a_name (fst r))) (concat pages))"
proof -
  from actor_pages.pages_cover [OF TrueI assms(1), where d = d and collate = collate] assms(2)
  obtain pages where n: "int (length pages) = (int (length (actors d)) + sz - 1) div sz"
    and page: "\<And>i. i < length pages \<Longrightarrow> fst (ActorListPagenated collate sz (int i + 1) d) = Inr (pages ! i) \<and> pages ! i \<noteq> []"
    and all: "concat pages = actor_rows collate d" by auto
  have same: "fst (shown_actor r) = fst r" for r by (simp add: shown_actor_def split: prod.splits)
  have "concat (map (map shown_actor) pages) = map shown_actor (actor_rows collate d)"
    using all by (simp flip: map_concat)
  moreover have "ListActors collate no_faults (Some (int i + 1)) (Some sz) d =
      Return (Success (map (map shown_actor) pages ! i, int (length (map (map shown_actor) pages))))"
    if "i < length pages" for i
    using actor_page_answer [of collate sz "int i + 1" d "pages ! i"] page [OF that] that assms n by simp
  ultimately show ?thesis
    using mset_actor_rows [of collate d] sorted_actor_rows [of collate d]
    by (intro exI [of _ "map (map shown_actor) pages"]) (simp add: comp_def same)
qed

definition three_actors :: db where
  "three_actors = empty_db\<lparr>actors := map (\<lambda>(i, n). sample_actor\<lparr>a_id := i, a_name := n\<rparr>) [(1, ''cook''), (2, ''baker''), (3, ''abbot'')]\<rparr>"

text \<open>Every token of an actor there is, is listed.\<close>

lemma length_token_rows:
  assumes "\<And>t. t \<in> set (api_tokens d) \<Longrightarrow> actor_of d (t_actor_id t) \<noteq> None"
  shows "length (token_rows collate None d) = length (api_tokens d)"
proof -
  have "length (List.map_filter (\<lambda>t. map_option (Pair t) (actor_of d (t_actor_id t))) ts) = length ts"
    if "\<And>t. t \<in> set ts \<Longrightarrow> actor_of d (t_actor_id t) \<noteq> None" for ts :: "api_token list"
    using that
  proof (induction ts)
    case (Cons t ts)
    then obtain a where "actor_of d (t_actor_id t) = Some a" by fastforce
    with Cons show ?case by (simp add: map_filter_simps)
  qed (simp add: map_filter_simps)
  then show ?thesis using assms by (simp add: token_rows_def Let_def)
qed

lemma token_row_count: "r \<in> set (token_rows collate aid d) \<Longrightarrow> snd (snd r) = length (token_rows collate aid d)"
  by (auto simp: token_rows_def Let_def)

lemma token_page_answer:
  assumes "fst (ApiTokenListByPage collate aid (Clamp sz 1 1000) page d) = Inr rows" and "rows \<noteq> []"
    and "1 \<le> page" and "0 < sz" and "int (length (token_rows collate aid d)) + sz \<le> 2 ^ 63"
  shows "ListApiTokens collate no_faults aid (Some page) (Some sz) d =
    Return (Success (map (\<lambda>(t, a, _). (t, a)) rows, (int (length (token_rows collate aid d)) + sz - 1) div sz))"
proof -
  obtain t a cnt more where rows: "rows = (t, a, cnt) # more" using assms(2) by (metis neq_Nil_conv prod_cases3)
  from token_pages.page_part [OF assms(1)]
  have "(t, a, cnt) \<in> set (token_rows collate aid d)"
    using rows by (metis in_set_dropD in_set_takeD list.set_intros(1))
  from token_row_count [OF this] have "cnt = length (token_rows collate aid d)" by simp
  then show ?thesis using assms(1, 3, 4, 5) rows
    by (simp add: ListApiTokens_def total_pages_positive max_absorb1)
qed

text \<open>Token pages are cut at 1000 rows but counted by the page size asked for: zero panics, and
  from 2000 on the announced pages miss tokens.\<close>

lemma token_page_count_is_of_asked_size:
  assumes "2000 \<le> sz" and "1000 < length (token_rows collate aid d)"
    and "int (length (token_rows collate aid d)) + sz \<le> 2 ^ 63"
  shows "panics (ListApiTokens collate no_faults aid None (Some 0) d) \<and>
    (\<exists>rows n. ListApiTokens collate no_faults aid None (Some sz) d = Return (Success (rows, n)) \<and>
      length rows = 1000 \<and> 1000 * n < int (length (token_rows collate aid d)))"
proof
  have "fst (ApiTokenListByPage collate aid (Clamp 0 1 1000) 1 d) = Inr (take 1 (token_rows collate aid d))"
    using token_pages.page_content [OF TrueI, of 1 0 collate aid d] by (simp add: Clamp_def)
  then show "panics (ListApiTokens collate no_faults aid None (Some 0) d)"
    by (simp add: ListApiTokens_def total_pages_def defaultPage_def)
next
  let ?L = "int (length (token_rows collate aid d))" and ?rows = "take 1000 (token_rows collate aid d)"
  let ?n = "(?L + sz - 1) div sz"
  have clamp: "Clamp sz 1 1000 = 1000" using assms(1) by (simp add: Clamp_def)
  have "fst (ApiTokenListByPage collate aid (Clamp sz 1 1000) 1 d) = Inr ?rows"
    using token_pages.page_content [OF TrueI, of 1000 0 collate aid d] by (simp add: clamp)
  moreover have "?rows \<noteq> []" using assms(2) by auto
  ultimately have "ListApiTokens collate no_faults aid (Some 1) (Some sz) d =
      Return (Success (map (\<lambda>(t, a, _). (t, a)) ?rows, ?n))"
    using assms by (intro token_page_answer) simp_all
  moreover have "1000 * ?n < ?L"
  proof (cases "1 < ?n")
    case True
    then have "2000 * (?n - 1) \<le> sz * (?n - 1)" using assms(1) by (intro mult_right_mono) simp_all
    moreover have "1 * 2000 \<le> (?n - 1) * 2000" using True by (intro mult_right_mono) simp_all
    ultimately show ?thesis using enough_pages [of sz ?L] assms(1) by (simp add: algebra_simps)
  qed (use assms(2) in simp)
  ultimately show "\<exists>rows n. ListApiTokens collate no_faults aid None (Some sz) d = Return (Success (rows, n)) \<and>
      length rows = 1000 \<and> 1000 * n < ?L"
    using assms(2) by (intro exI [of _ "map (\<lambda>(t, a, _). (t, a)) ?rows"] exI [of _ ?n])
      (simp add: ListApiTokens_def defaultPage_def)
qed

definition many_tokens :: db where
  "many_tokens = empty_db\<lparr>actors := [sample_actor],
     api_tokens := map (\<lambda>i. \<lparr>t_id = replicate i (CHR ''x''), t_actor_id = 1, t_expire_at = 99,
       t_created_by = ''ops'', t_created_at = int i, t_permissions = []\<rparr>) [0..<1500]\<rparr>"

lemma filtered_rows:
  "deployment_rows collate ilike p d =
     map (\<lambda>x. (x, length (filter (wanted_deployment ilike p) (deployments d))))
       (sort_deployments collate p (filter (wanted_deployment ilike p) (deployments d)))"
  by (simp add: deployment_rows_def Let_def)

lemma listed_deployments_are_a_page:
  assumes "ListDeployments collate ilike flt p page page_size d = Success (items, cnt, n, sz)" and "items \<noteq> []"
  shows "n = from_ptr_or page 1 \<and> sz = Clamp (from_ptr_or page_size 10) 1 100 \<and>
    cnt = int (length (filter (wanted_deployment ilike p) (deployments d))) \<and>
    items = map item_of (take (nat sz) (drop (nat (sz * (n - 1)))
      (sort_deployments collate p (filter (wanted_deployment ilike p) (deployments d)))))"
proof -
  let ?size = "Clamp (from_ptr_or page_size 10) 1 100" and ?page = "from_ptr_or page 1"
  obtain rows where rows: "fst (run_query flt 0 (DeploymentListPaginated collate ilike p ?size ?page) d) = Inr rows"
      "rows \<noteq> []" "items = map (item_of \<circ> fst) rows" "cnt = int (snd (hd rows))" "n = ?page" "sz = ?size"
    using assms by (auto simp: ListDeployments_def defaultPage_def defaultPageSize_def Let_def
      split: sum.splits list.splits)
  then have "fst (DeploymentListPaginated collate ilike p ?size ?page d) = Inr rows"
    by (cases "flt 0") simp_all
  from deployment_pages.page_part [OF this] rows(5, 6)
  have part: "rows = take (nat sz) (drop (nat (sz * (n - 1))) (deployment_rows collate ilike p d))" by simp
  have "hd rows \<in> set (deployment_rows collate ilike p d)"
    using rows(2) part by (metis hd_in_set in_set_dropD in_set_takeD)
  then have "cnt = int (length (filter (wanted_deployment ilike p) (deployments d)))"
    using rows(4) by (auto simp: filtered_rows)
  with rows part show ?thesis by (simp add: filtered_rows drop_map take_map)
qed



end
