(* ===== verification/Http_Routes.thy ===== *)
theory Http_Routes
  imports Go_Text
begin

text \<open>
  The routes \<^verbatim>\<open>HandlerWithOptions\<close> of \<^verbatim>\<open>api/server.gen.go\<close> registers and the router's contract. Shown here: no
  route takes the paths of a later one away, but for \<^verbatim>\<open>/v1/invocations/next\<close>.
\<close>

subsection \<open>Routes\<close>

text \<open>Method, path template and operation, in the order of registration.\<close>

definition routes :: "(string \<times> string \<times> string) list" where
  "routes =
     [(''GET'', ''/health'', ''GetHealth''),
      (''GET'', ''/v1/admin/actors'', ''AdminListActors''),
      (''POST'', ''/v1/admin/actors'', ''AdminCreateActor''),
      (''DELETE'', ''/v1/admin/actors/{id}'', ''AdminDeleteActor''),
      (''GET'', ''/v1/admin/actors/{id}'', ''AdminGetActor''),
      (''PATCH'', ''/v1/admin/actors/{id}'', ''AdminUpdateActor''),
      (''GET'', ''/v1/admin/api_tokens'', ''AdminListApiTokens''),
      (''POST'', ''/v1/admin/api_tokens'', ''AdminCreateApiToken''),
      (''DELETE'', ''/v1/admin/api_tokens/{id}'', ''AdminDeleteApiToken''),
      (''PATCH'', ''/v1/admin/configs/{id}'', ''AdminUpdateConfig''),
      (''GET'', ''/v1/admin/deployments'', ''AdminListDeployments''),
      (''POST'', ''/v1/admin/deployments'', ''AdminCreateDeployment''),
      (''DELETE'', ''/v1/admin/deployments/{id}'', ''AdminDeleteDeployment''),
      (''GET'', ''/v1/admin/deployments/{id}'', ''AdminGetDeployment''),
      (''PATCH'', ''/v1/admin/deployments/{id}'', ''AdminUpdateDeployment''),
      (''POST'', ''/v1/admin/deployments/{id}/publish'', ''AdminPublishDeployment''),
      (''POST'', ''/v1/admin/deployments/{id}/reject'', ''AdminRejectDeployment''),
      (''POST'', ''/v1/admin/deployments/{id}/restart'', ''AdminRestartDeployment''),
      (''GET'', ''/v1/admin/deployments/{id}/result'', ''AdminGetDeploymentResult''),
      (''POST'', ''/v1/admin/deployments/{id}/submit'', ''AdminSubmitDeployment''),
      (''GET'', ''/v1/admin/metrics/pods'', ''AdminListPodMetrics''),
      (''GET'', ''/v1/admin/reference_config_suites'', ''AdminListReferenceConfigSuites''),
      (''POST'', ''/v1/admin/reference_config_suites/sync'', ''AdminSyncReferenceConfigSuites''),
      (''GET'', ''/v1/admin/secrets'', ''AdminListSecrets''),
      (''DELETE'', ''/v1/admin/secrets/{name}'', ''AdminDeleteSecret''),
      (''PATCH'', ''/v1/admin/secrets/{name}'', ''AdminUpdateSecret''),
      (''GET'', ''/v1/admin/setting'', ''AdminGetSetting''),
      (''PATCH'', ''/v1/admin/setting'', ''AdminUpdateSetting''),
      (''POST'', ''/v1/completion'', ''CreateCompletion''),
      (''GET'', ''/v1/completion/models'', ''ListCompletionModels''),
      (''GET'', ''/v1/config'', ''GetCallerConfig''),
      (''POST'', ''/v1/embedding'', ''CreateEmbedding''),
      (''GET'', ''/v1/embedding/models'', ''ListEmbeddingModels''),
      (''POST'', ''/v1/invocations/async'', ''CreateInvocationAsync''),
      (''GET'', ''/v1/invocations/next'', ''GetNextInvocation''),
      (''POST'', ''/v1/invocations/sync'', ''CreateInvocationSync''),
      (''GET'', ''/v1/invocations/{id}'', ''GetInvocationById''),
      (''POST'', ''/v1/invocations/{invoke_id}/error'', ''ReturnInvocationError''),
      (''POST'', ''/v1/invocations/{invoke_id}/response'', ''ReturnInvocationResponse''),
      (''GET'', ''/v1/mcp'', ''GetMCPServers''),
      (''GET'', ''/v1/mcp/agents/{agent}'', ''InitializeMCPSession''),
      (''GET'', ''/v1/mcp/invocations'', ''ReadMCPMessage''),
      (''POST'', ''/v1/mcp/invocations/{id}'', ''SendMCPResponse''),
      (''POST'', ''/v1/mcp/message'', ''SendMCPMessage''),
      (''POST'', ''/v1/rerank'', ''CreateRerank''),
      (''GET'', ''/v1/rerank/models'', ''ListRerankModels''),
      (''GET'', ''/v1/vector/collection'', ''ListCollection''),
      (''POST'', ''/v1/vector/collection'', ''CreateCollection''),
      (''GET'', ''/v1/vector/collection/{name}'', ''QueryCollection''),
      (''POST'', ''/v1/vector/collection/{name}'', ''UpsertCollection''),
      (''GET'', ''/v1/vector/list'', ''ListVectoreStores'')]"

subsection \<open>The router\<close>

text \<open>
  A template matches a path of the same number of segments, a variable any segment that is not empty.
  \<open>mux_laws\<close> is what the router documents: the first route that matches path and method is taken; a
  path that only routes of other methods match is answered with 405, any other with 404. It speaks of
  clean paths, others are redirected.
\<close>

datatype routing = Routed string "(string \<times> string) list" | WrongMethod | NoRoute

definition variable :: "string \<Rightarrow> string option" where
  "variable seg =
     (case seg of [] \<Rightarrow> None | c # s \<Rightarrow> if c = CHR ''{'' \<and> s \<noteq> [] \<and> last s = CHR ''}'' then Some (butlast s) else None)"

fun match_segments :: "string list \<Rightarrow> string list \<Rightarrow> (string \<times> string) list option" where
  "match_segments [] [] = Some []"
| "match_segments (t # ts) (p # ps) =
     (case variable t of
        None \<Rightarrow> if t = p then match_segments ts ps else None
      | Some v \<Rightarrow> if p = '''' then None else map_option (Cons (v, p)) (match_segments ts ps))"
| "match_segments _ _ = None"

definition match_path :: "string \<Rightarrow> string \<Rightarrow> (string \<times> string) list option" where
  "match_path template path = match_segments (Split CHR ''/'' template) (Split CHR ''/'' path)"

fun first_route ::
    "(string \<times> string \<times> string) list \<Rightarrow> string \<Rightarrow> string \<Rightarrow> (string \<times> (string \<times> string) list) option" where
  "first_route [] m p = None"
| "first_route ((m', template, op) # rs) m p =
     (case match_path template p of
        Some vars \<Rightarrow> if m = m' then Some (op, vars) else first_route rs m p
      | None \<Rightarrow> first_route rs m p)"

definition clean_path :: "string \<Rightarrow> bool" where
  "clean_path p \<longleftrightarrow>
     (case Split CHR ''/'' p of
        [] \<Rightarrow> False
      | s # segs \<Rightarrow> s = '''' \<and> segs \<noteq> [] \<and> list_all (\<lambda>s. s \<noteq> '''' \<and> s \<noteq> ''.'' \<and> s \<noteq> ''..'') segs)"

definition mux_laws :: "((string \<times> string \<times> string) list \<Rightarrow> string \<Rightarrow> string \<Rightarrow> routing) \<Rightarrow> bool" where
  "mux_laws mux \<longleftrightarrow>
     (\<forall>rs m p. clean_path p \<longrightarrow>
        mux rs m p =
          (case first_route rs m p of
             Some (op, vars) \<Rightarrow> Routed op vars
           | None \<Rightarrow> if list_ex (\<lambda>r. match_path (fst (snd r)) p \<noteq> None) rs then WrongMethod else NoRoute))"

subsection \<open>Every route reaches its operation\<close>

text \<open>A template with values for its variables.\<close>

fun fill :: "string list \<Rightarrow> string list \<Rightarrow> string list" where
  "fill [] vals = []"
| "fill (t # ts) vals =
     (case variable t of
        None \<Rightarrow> t # fill ts vals
      | Some _ \<Rightarrow> (case vals of [] \<Rightarrow> t # fill ts [] | v # vs \<Rightarrow> v # fill ts vs))"

definition segments :: "string \<Rightarrow> string list" where
  "segments template = Split CHR ''/'' template"

definition variables :: "string \<Rightarrow> string list" where
  "variables template = List.map_filter variable (segments template)"

definition path_of :: "string \<Rightarrow> string list \<Rightarrow> string" where
  "path_of template vals = join CHR ''/'' (fill (segments template) vals)"

definition path_value :: "string \<Rightarrow> bool" where
  "path_value v \<longleftrightarrow> v \<noteq> '''' \<and> v \<noteq> ''.'' \<and> v \<noteq> ''..'' \<and> CHR ''/'' \<notin> set v"

lemma Split_parts: "s \<in> set (Split c t) \<Longrightarrow> c \<notin> set s"
proof (induction t arbitrary: s)
  case (Cons x t)
  then show ?case by (cases "Split c t") (auto split: if_splits)
qed simp

lemma fill_parts:
  "s \<in> set (fill ts vals) \<Longrightarrow> s \<in> set ts \<or> s \<in> set vals"
  by (induction ts vals rule: fill.induct) (auto split: option.splits list.splits)

lemma fill_length [simp]: "length (fill ts vals) = length ts"
  by (induction ts vals rule: fill.induct) (auto split: option.splits list.splits)

lemma segments_path:
  assumes "list_all path_value vals"
  shows "Split CHR ''/'' (path_of template vals) = fill (segments template) vals"
  unfolding path_of_def
proof (rule Split_join)
  have "length (fill (segments template) vals) \<noteq> 0" by (simp add: segments_def)
  then show "fill (segments template) vals \<noteq> []" by fastforce
  show "CHR ''/'' \<notin> set s" if "s \<in> set (fill (segments template) vals)" for s
    using fill_parts [OF that] assms Split_parts by (auto simp: segments_def list_all_iff path_value_def)
qed

lemma match_filled:
  "length vals = length (List.map_filter variable ts) \<Longrightarrow> list_all path_value vals \<Longrightarrow>
     match_segments ts (fill ts vals) = Some (zip (List.map_filter variable ts) vals)"
  by (induction ts vals rule: fill.induct)
    (auto simp: map_filter_simps path_value_def split: option.splits list.splits)

fun told_apart :: "string list \<Rightarrow> string list \<Rightarrow> bool" where
  "told_apart [] [] = False"
| "told_apart (t # ts) (u # us) = (variable t = None \<and> variable u = None \<and> t \<noteq> u \<or> told_apart ts us)"
| "told_apart _ _ = True"

lemma told_apart_no_match: "told_apart ts us \<Longrightarrow> match_segments ts (fill us vals) = None"
proof (induction ts us arbitrary: vals rule: told_apart.induct)
  case (2 t ts u us)
  then show ?case by (auto split: option.splits list.splits)
qed (auto split: option.splits list.splits)

text \<open>Routes of one method that are not told apart, the earlier one first.\<close>

fun overlaps :: "(string \<times> string list \<times> string) list \<Rightarrow> (string \<times> string) list" where
  "overlaps [] = []"
| "overlaps ((m, segs, op) # rs) =
     map (\<lambda>r. (op, snd (snd r))) (filter (\<lambda>r. fst r = m \<and> \<not> told_apart segs (fst (snd r))) rs) @ overlaps rs"

definition parsed :: "(string \<times> string list \<times> string) list" where
  "parsed = map (\<lambda>(m, t, op). (m, segments t, op)) routes"

lemma parsed_routes_overlap: "overlaps parsed = [(''GetNextInvocation'', ''GetInvocationById'')]"
  by code_simp

lemma overlap_of:
  "rs = pre @ (m, segs, op) # post \<Longrightarrow> (m, segs', op') \<in> set post \<Longrightarrow> \<not> told_apart segs segs' \<Longrightarrow>
     (op, op') \<in> set (overlaps rs)"
proof (induction pre arbitrary: rs)
  case Nil
  then show ?case by force
next
  case (Cons r pre)
  then show ?case by (cases r) auto
qed

lemma first_route_skips:
  assumes "match_path template p = Some vars"
    and "\<And>t op'. (m, t, op') \<in> set pre \<Longrightarrow> match_path t p = None"
  shows "first_route (pre @ (m, template, op) # post) m p = Some (op, vars)"
  using assms(2)
proof (induction pre)
  case Nil
  then show ?case using assms(1) by simp
next
  case (Cons r pre)
  obtain m' t op' where r: "r = (m', t, op')" by (cases r)
  have "m = m' \<Longrightarrow> match_path t p = None" using Cons.prems [of t op'] r by simp
  moreover have "first_route (pre @ (m, template, op) # post) m p = Some (op, vars)"
    using Cons.IH Cons.prems by (meson list.set_intros(2))
  ultimately show ?case unfolding r by (cases "m = m'") (auto split: option.splits)
qed

text \<open>
  The only path that an earlier route takes away is \<^verbatim>\<open>/v1/invocations/next\<close>, which asks for an invocation
  rather than for the one of that id.
\<close>

definition reachable_values :: "string \<Rightarrow> string list \<Rightarrow> bool" where
  "reachable_values op vals \<longleftrightarrow> list_all path_value vals \<and> (op = ''GetInvocationById'' \<longrightarrow> vals \<noteq> [''next''])"

lemma next_template:
  "(m, t, ''GetNextInvocation'') \<in> set routes \<Longrightarrow> t = ''/v1/invocations/next''"
  "(m, t, ''GetInvocationById'') \<in> set routes \<Longrightarrow> t = ''/v1/invocations/{id}''"
  by (auto simp: routes_def)

lemma first_route_of_path:
  assumes route: "(m, template, op) \<in> set routes" and "length vals = length (variables template)"
    and ok: "reachable_values op vals"
  shows "first_route (routes @ extra) m (path_of template vals) = Some (op, zip (variables template) vals)"
proof -
  let ?p = "path_of template vals"
  have vals: "list_all path_value vals" using ok by (simp add: reachable_values_def)
  have hit: "match_path template ?p = Some (zip (variables template) vals)"
    unfolding match_path_def segments_path [OF vals]
    using match_filled [of vals "segments template"] assms(2) vals by (simp add: segments_def variables_def)
  obtain pre post where split: "routes = pre @ (m, template, op) # post"
    using split_list [OF route] by blast
  have "match_path t ?p = None" if earlier: "(m, t, op') \<in> set pre" for t op'
  proof (cases "told_apart (segments t) (segments template)")
    case True
    then show ?thesis unfolding match_path_def segments_path [OF vals]
      using told_apart_no_match by (simp add: segments_def)
  next
    case False
    obtain pre1 pre2 where "pre = pre1 @ (m, t, op') # pre2" using split_list [OF earlier] by blast
    then have "parsed = map (\<lambda>(m, t, op). (m, segments t, op)) pre1 @ (m, segments t, op') #
        map (\<lambda>(m, t, op). (m, segments t, op)) (pre2 @ (m, template, op) # post)"
      unfolding parsed_def split by simp
    from overlap_of [OF this _ False] have "(op', op) \<in> set (overlaps parsed)" by force
    then have ops: "op' = ''GetNextInvocation''" "op = ''GetInvocationById''" by (simp_all add: parsed_routes_overlap)
    with next_template route earlier split have "t = ''/v1/invocations/next''" "template = ''/v1/invocations/{id}''"
      by (metis Un_iff set_append)+
    then have "variables template = [''id'']" "segments t = [[], ''v1'', ''invocations'', ''next'']"
        "segments template = [[], ''v1'', ''invocations'', ''{id}'']"
      by (simp_all add: variables_def segments_def variable_def map_filter_simps)
    moreover then obtain v where "vals = [v]" using assms(2) by (auto simp: length_Suc_conv)
    moreover then have "v \<noteq> ''next''" using ok ops by (simp add: reachable_values_def)
    ultimately show ?thesis unfolding match_path_def segments_path [OF vals]
      by (simp add: segments_def [symmetric] variable_def)
  qed
  then have "first_route (pre @ (m, template, op) # (post @ extra)) m ?p = Some (op, zip (variables template) vals)"
    by (rule first_route_skips [OF hit])
  then show ?thesis by (simp add: split)
qed

end
