(* ===== verification/Api_Types.thy ===== *)
theory Api_Types
  imports Go_Json
begin

text \<open>
  The Go types of the API's bodies as data, and what \<^verbatim>\<open>encoding/json\<close> makes of values of such types:
  \<open>decode\<close> and \<open>encode\<close>. The structs of \<^verbatim>\<open>api/server.gen.go\<close> that travel as JSON are constants. Shown here:
  decoded values have their type, and every value that keeps no nil map or slice behind a pointer is
  decoded from its encoding.
\<close>

subsection \<open>Types and values\<close>

text \<open>
  A struct lists its fields with their names in JSON and whether they are \<^verbatim>\<open>omitempty\<close>. \<open>TAny\<close> is an
  empty interface, \<open>TRaw\<close> a \<^verbatim>\<open>json.RawMessage\<close> or a union around one. Named string types are \<open>TString\<close>.
\<close>

datatype go_type =
  TString | TBool | TInt nat | TFloat | TAny | TRaw
| TPtr go_type | TSlice go_type | TMap go_type | TStruct "(string \<times> bool \<times> go_type) list"

datatype go_val =
  VNil | VString string | VBool bool | VInt int | VAny json
| VPtr go_val | VSlice "go_val list" | VMap "(string \<times> go_val) list" | VStruct "(string \<times> go_val) list"

fun zero_of :: "go_type \<Rightarrow> go_val" where
  "zero_of TString = VString ''''"
| "zero_of TBool = VBool False"
| "zero_of (TInt w) = VInt 0"
| "zero_of TFloat = VInt 0"
| "zero_of TAny = VAny JNull"
| "zero_of TRaw = VAny JNull"
| "zero_of (TStruct fs) = VStruct (map (\<lambda>(n, _, t). (n, zero_of t)) fs)"
| "zero_of _ = VNil"

definition in_width :: "nat \<Rightarrow> int \<Rightarrow> bool" where
  "in_width w n \<longleftrightarrow> - (2 ^ (w - 1)) \<le> n \<and> n < 2 ^ (w - 1)"

subsection \<open>Decoding\<close>

definition same_field :: "string \<Rightarrow> string \<Rightarrow> bool" where
  "same_field a b \<longleftrightarrow> map lower a = map lower b"

definition field_values :: "string \<Rightarrow> (string \<times> json) list \<Rightarrow> json list" where
  "field_values n kvs = map snd (filter (\<lambda>kv. same_field n (fst kv)) kvs)"

definition members :: "(string \<times> 'a) list \<Rightarrow> string \<Rightarrow> 'a \<Rightarrow> 'a" where
  "members fs n d = (case map_of fs n of None \<Rightarrow> d | Some v \<Rightarrow> v)"

fun fields_of :: "go_val \<Rightarrow> (string \<times> go_val) list" where
  "fields_of (VStruct fs) = fs"
| "fields_of (VMap fs) = fs"
| "fields_of _ = []"

lemma field_size: "(n, b, t) \<in> set fs \<Longrightarrow> size t < size (TStruct fs)"
  by (induction fs) auto

text \<open>
  \<open>decode t old j\<close> is what \<^verbatim>\<open>Unmarshal\<close> stores over \<open>old\<close>: null leaves plain values alone, repeated keys
  are applied one after the other, unknown keys are ignored, and a value of another kind, or a
  number out of range, is an error. Arrays decode their elements anew.
\<close>

function decode_over :: "go_type \<Rightarrow> go_val \<Rightarrow> json \<Rightarrow> go_val option" where
  "decode_over TString old j = (case j of JNull \<Rightarrow> Some old | JStr s \<Rightarrow> Some (VString s) | _ \<Rightarrow> None)"
| "decode_over TBool old j = (case j of JNull \<Rightarrow> Some old | JBool b \<Rightarrow> Some (VBool b) | _ \<Rightarrow> None)"
| "decode_over (TInt w) old j =
     (case j of JNull \<Rightarrow> Some old | JNum n \<Rightarrow> if in_width w n then Some (VInt n) else None | _ \<Rightarrow> None)"
| "decode_over TFloat old j = (case j of JNull \<Rightarrow> Some old | JNum n \<Rightarrow> Some (VInt n) | _ \<Rightarrow> None)"
| "decode_over TAny old j = Some (VAny (go_value j))"
| "decode_over TRaw old j = Some (VAny j)"
| "decode_over (TPtr t) old j =
     (if j = JNull then Some VNil
      else map_option VPtr (decode_over t (case old of VPtr v \<Rightarrow> v | _ \<Rightarrow> zero_of t) j))"
| "decode_over (TSlice t) old j =
     (case j of
        JNull \<Rightarrow> Some VNil
      | JArr js \<Rightarrow> map_option VSlice (those (map (decode_over t (zero_of t)) js))
      | _ \<Rightarrow> None)"
| "decode_over (TMap t) old j =
     (case j of
        JNull \<Rightarrow> Some VNil
      | JObj kvs \<Rightarrow>
          map_option (\<lambda>vs. VMap (foldl (\<lambda>m kv. put (fst kv) (snd kv) m) (fields_of old) (zip (map fst kvs) vs)))
            (those (map (\<lambda>kv. decode_over t (zero_of t) (snd kv)) kvs))
      | _ \<Rightarrow> None)"
| "decode_over (TStruct fs) old j =
     (case j of
        JNull \<Rightarrow> Some old
      | JObj kvs \<Rightarrow>
          map_option (\<lambda>vs. VStruct (zip (map fst fs) vs))
            (those (map (\<lambda>f. foldl (\<lambda>acc j. Option.bind acc (\<lambda>v. decode_over (snd (snd f)) v j))
               (Some (members (fields_of old) (fst f) (zero_of (snd (snd f))))) (field_values (fst f) kvs)) fs))
      | _ \<Rightarrow> None)"
  by pat_completeness auto

termination
  by (relation "measure (\<lambda>(t, _, _). size t)") (auto dest: field_size)

definition decode :: "go_type \<Rightarrow> json \<Rightarrow> go_val option" where
  "decode t j = decode_over t (zero_of t) j"

subsection \<open>Encoding\<close>

fun empty_value :: "go_val \<Rightarrow> bool" where
  "empty_value VNil = True"
| "empty_value (VString s) = (s = '''')"
| "empty_value (VBool b) = (\<not> b)"
| "empty_value (VInt n) = (n = 0)"
| "empty_value (VAny j) = (j = JNull)"
| "empty_value (VSlice vs) = (vs = [])"
| "empty_value (VMap m) = (m = [])"
| "empty_value _ = False"

text \<open>Struct fields appear in the order of their declaration, map keys in theirs.\<close>

function encode :: "go_type \<Rightarrow> go_val \<Rightarrow> json" where
  "encode TString v = (case v of VString s \<Rightarrow> JStr s | _ \<Rightarrow> JNull)"
| "encode TBool v = (case v of VBool b \<Rightarrow> JBool b | _ \<Rightarrow> JNull)"
| "encode (TInt w) v = (case v of VInt n \<Rightarrow> JNum n | _ \<Rightarrow> JNull)"
| "encode TFloat v = (case v of VInt n \<Rightarrow> JNum n | _ \<Rightarrow> JNull)"
| "encode TAny v = (case v of VAny j \<Rightarrow> j | _ \<Rightarrow> JNull)"
| "encode TRaw v = (case v of VAny j \<Rightarrow> j | _ \<Rightarrow> JNull)"
| "encode (TPtr t) v = (case v of VPtr u \<Rightarrow> encode t u | _ \<Rightarrow> JNull)"
| "encode (TSlice t) v = (case v of VSlice vs \<Rightarrow> JArr (map (encode t) vs) | _ \<Rightarrow> JNull)"
| "encode (TMap t) v = (case v of VMap m \<Rightarrow> JObj (map (\<lambda>kv. (fst kv, encode t (snd kv))) m) | _ \<Rightarrow> JNull)"
| "encode (TStruct fs) v =
     (case v of
        VStruct vs \<Rightarrow>
          JObj (concat (map (\<lambda>f. let u = members vs (fst f) VNil in
            if fst (snd f) \<and> empty_value u then [] else [(fst f, encode (snd (snd f)) u)]) fs))
      | _ \<Rightarrow> JNull)"
  by pat_completeness auto

termination
  by (relation "measure (\<lambda>(t, _). size t)") (auto dest: field_size)

subsection \<open>Typing\<close>

text \<open>A type is well formed if no two fields of a struct are told apart by case alone, and only pointers are \<^verbatim>\<open>omitempty\<close>.\<close>

fun is_pointer :: "go_type \<Rightarrow> bool" where
  "is_pointer (TPtr _) = True"
| "is_pointer _ = False"

function (sequential) wf_type :: "go_type \<Rightarrow> bool" where
  "wf_type (TInt w) = (0 < w)"
| "wf_type (TPtr t) = wf_type t"
| "wf_type (TSlice t) = wf_type t"
| "wf_type (TMap t) = wf_type t"
| "wf_type (TStruct fs) =
     (distinct (map (\<lambda>f. map lower (fst f)) fs) \<and>
      list_all (\<lambda>f. (fst (snd f) \<longrightarrow> is_pointer (snd (snd f))) \<and> wf_type (snd (snd f))) fs)"
| "wf_type _ = True"
  by pat_completeness auto

termination
  by (relation "measure size") (auto dest: field_size)

function has_type :: "go_type \<Rightarrow> go_val \<Rightarrow> bool" where
  "has_type TString v = (case v of VString _ \<Rightarrow> True | _ \<Rightarrow> False)"
| "has_type TBool v = (case v of VBool _ \<Rightarrow> True | _ \<Rightarrow> False)"
| "has_type (TInt w) v = (case v of VInt n \<Rightarrow> in_width w n | _ \<Rightarrow> False)"
| "has_type TFloat v = (case v of VInt _ \<Rightarrow> True | _ \<Rightarrow> False)"
| "has_type TAny v = (case v of VAny j \<Rightarrow> go_value j = j | _ \<Rightarrow> False)"
| "has_type TRaw v = (case v of VAny _ \<Rightarrow> True | _ \<Rightarrow> False)"
| "has_type (TPtr t) v = (case v of VNil \<Rightarrow> True | VPtr u \<Rightarrow> has_type t u | _ \<Rightarrow> False)"
| "has_type (TSlice t) v = (case v of VNil \<Rightarrow> True | VSlice vs \<Rightarrow> list_all (has_type t) vs | _ \<Rightarrow> False)"
| "has_type (TMap t) v =
     (case v of
        VNil \<Rightarrow> True
      | VMap m \<Rightarrow> sorted_wrt (<) (map fst m) \<and> list_all (\<lambda>kv. has_type t (snd kv)) m
      | _ \<Rightarrow> False)"
| "has_type (TStruct fs) v =
     (case v of
        VStruct vs \<Rightarrow> map fst vs = map fst fs \<and>
          list_all (\<lambda>f. has_type (snd (snd f)) (members vs (fst f) VNil)) fs
      | _ \<Rightarrow> False)"
  by pat_completeness auto

termination
  by (relation "measure (\<lambda>(t, _). size t)") (auto dest: field_size)

lemma wf_names: "wf_type (TStruct fs) \<Longrightarrow> distinct (map fst fs)"
  using distinct_map [of "map lower" "map fst fs"] by (simp add: comp_def)

lemma members_zip:
  "length vs = length ns \<Longrightarrow> distinct ns \<Longrightarrow> i < length ns \<Longrightarrow> members (zip ns vs) (ns ! i) d = vs ! i"
  by (simp add: members_def map_of_zip_nth)

lemma members_map: "distinct (map fst fs) \<Longrightarrow> f \<in> set fs \<Longrightarrow> members (map (\<lambda>f. (fst f, g f)) fs) (fst f) d = g f"
  by (induction fs) (auto simp: members_def)

lemma those_map_Some:
  "those (map f xs) = Some ys \<longleftrightarrow> length ys = length xs \<and> (\<forall>i < length xs. f (xs ! i) = Some (ys ! i))"
proof (induction xs arbitrary: ys)
  case (Cons x xs)
  show ?case
  proof (cases ys)
    case (Cons y ys')
    then show ?thesis using Cons.IH [of ys']
      by (cases "f x"; cases "those (map f xs)") (auto simp: nth_Cons' All_less_Suc2)
  qed (cases "f x"; simp)
qed auto

lemma zero_struct_fields: "zero_of (TStruct fs) = VStruct (map (\<lambda>f. (fst f, zero_of (snd (snd f)))) fs)"
  by (induction fs) auto

lemma zero_typed: "wf_type t \<Longrightarrow> has_type t (zero_of t)"
proof (induction t rule: wf_type.induct)
  case (5 fs)
  then have "distinct (map fst fs)" using wf_names by blast
  with 5 show ?case unfolding zero_struct_fields by (auto simp: list_all_iff members_map comp_def)
qed (simp_all add: in_width_def)

subsection \<open>Decoded values have their type\<close>

lemma foldl_bind_keeps:
  assumes "\<And>v j w. j \<in> set js \<Longrightarrow> P v \<Longrightarrow> f v j = Some w \<Longrightarrow> P w"
    and "foldl (\<lambda>acc j. Option.bind acc (\<lambda>v. f v j)) (Some a) js = Some b" and "P a"
  shows "P b"
  using assms
proof (induction js arbitrary: a)
  case (Cons j js)
  have none: "foldl (\<lambda>acc j. Option.bind acc (\<lambda>v. f v j)) None js = None" for js by (induction js) auto
  from Cons.prems(2) obtain c where c: "f a j = Some c" using none by (cases "f a j") auto
  then have "P c" using Cons.prems(1) [of j a c] Cons.prems(3) by simp
  moreover have "foldl (\<lambda>acc j. Option.bind acc (\<lambda>v. f v j)) (Some c) js = Some b" using Cons.prems(2) c by simp
  ultimately show ?case using Cons.IH [of c] Cons.prems(1) by auto
qed simp

lemma puts_typed:
  assumes "list_all (\<lambda>kv. P (snd kv)) m" and "list_all (\<lambda>kv. P (snd kv)) kvs"
  shows "list_all (\<lambda>kv. P (snd kv)) (foldl (\<lambda>m kv. put (fst kv) (snd kv) m) m kvs)"
  using assms puts_set [of m kvs] by (fastforce simp: list_all_iff)

lemma fields_of_map: "has_type (TMap t) v \<Longrightarrow>
    sorted_wrt (<) (map fst (fields_of v)) \<and> list_all (\<lambda>kv. has_type t (snd kv)) (fields_of v)"
  by (cases v) auto

lemma fields_of_struct: "has_type (TStruct fs) v \<Longrightarrow> f \<in> set fs \<Longrightarrow>
    has_type (snd (snd f)) (members (fields_of v) (fst f) d)"
proof (cases v)
  case (VStruct vs)
  assume t: "has_type (TStruct fs) v" and f: "f \<in> set fs"
  from t VStruct f have "fst f \<in> set (map fst vs)" by simp
  then obtain w where "map_of vs (fst f) = Some w" using map_of_eq_None_iff [of vs "fst f"] by (cases "map_of vs (fst f)") auto
  with t f VStruct show ?thesis by (force simp: members_def list_all_iff)
qed auto

lemma those_in: "those (map f xs) = Some ys \<Longrightarrow> y \<in> set ys \<Longrightarrow> \<exists>x \<in> set xs. f x = Some y"
  by (metis in_set_conv_nth nth_mem those_map_Some)

lemma decode_typed:
  "wf_type t \<Longrightarrow> has_type t old \<Longrightarrow> decode_over t old j = Some v \<Longrightarrow> has_type t v"
proof (induction t old j arbitrary: v rule: decode_over.induct)
  case (7 t old j)
  then show ?case by (auto simp: zero_typed split: go_val.splits if_splits)
next
  case (8 t old j)
  show ?case
  proof (cases j)
    case (JArr js)
    with 8 obtain vs where vs: "those (map (decode_over t (zero_of t)) js) = Some vs" "v = VSlice vs" by auto
    have "has_type t w" if "w \<in> set vs" for w
      using those_in [OF vs(1) that] 8(1) [OF JArr] 8(2) by (auto simp: zero_typed)
    then show ?thesis using vs(2) by (simp add: list_all_iff)
  qed (use 8 in auto)
next
  case (9 t old j)
  show ?case
  proof (cases j)
    case (JObj kvs)
    with 9 obtain vs where vs: "those (map (\<lambda>kv. decode_over t (zero_of t) (snd kv)) kvs) = Some vs"
      "v = VMap (foldl (\<lambda>m kv. put (fst kv) (snd kv) m) (fields_of old) (zip (map fst kvs) vs))" by auto
    have "has_type t w" if "w \<in> set vs" for w
      using those_in [OF vs(1) that] 9 JObj by (auto simp: zero_typed)
    then have "list_all (\<lambda>kv. has_type t (snd kv)) (zip (map fst kvs) vs)"
      by (auto simp: list_all_iff dest: set_zip_rightD)
    then show ?thesis
      using vs(2) fields_of_map [OF 9(3)] by (simp add: puts_ordered puts_typed)
  qed (use 9 in auto)
next
  case (10 fs old j)
  show ?case
  proof (cases j)
    case (JObj kvs)
    let ?dec = "\<lambda>f. foldl (\<lambda>acc j. Option.bind acc (\<lambda>v. decode_over (snd (snd f)) v j))
      (Some (members (fields_of old) (fst f) (zero_of (snd (snd f))))) (field_values (fst f) kvs)"
    from 10(4) JObj obtain vs where vs: "those (map ?dec fs) = Some vs" "v = VStruct (zip (map fst fs) vs)" by auto
    have len: "length vs = length fs" and at: "\<And>i. i < length fs \<Longrightarrow> ?dec (fs ! i) = Some (vs ! i)"
      using vs(1) by (auto simp: those_map_Some)
    have "has_type (snd (snd (fs ! i))) (members (zip (map fst fs) vs) (fst (fs ! i)) VNil)" if i: "i < length fs" for i
    proof -
      have "members (zip (map fst fs) vs) (fst (fs ! i)) VNil = vs ! i"
        using members_zip [of vs "map fst fs" i] len i wf_names [OF 10(2)] by simp
      moreover have "has_type (snd (snd (fs ! i))) (vs ! i)"
      proof (rule foldl_bind_keeps [OF _ at [OF i]])
        show "has_type (snd (snd (fs ! i))) (members (fields_of old) (fst (fs ! i)) (zero_of (snd (snd (fs ! i)))))"
          using fields_of_struct [OF 10(3)] i by simp
        show "has_type (snd (snd (fs ! i))) w"
          if "j \<in> set (field_values (fst (fs ! i)) kvs)" "has_type (snd (snd (fs ! i))) u" "decode_over (snd (snd (fs ! i))) u j = Some w" for j u w
          by (rule 10(1) [OF JObj _ that(1) refl _ that(2, 3)]) (use i 10(2) in \<open>auto simp: list_all_iff\<close>)
      qed
      ultimately show ?thesis by simp
    qed
    then show ?thesis using vs(2) len by (simp add: list_all_length)
  qed (use 10 in auto)
qed (auto split: json.splits if_splits)

subsection \<open>The round trip\<close>

text \<open>A value is solid if what its pointers point to is not encoded as null.\<close>

function solid :: "go_type \<Rightarrow> go_val \<Rightarrow> bool" where
  "solid TString v = True"
| "solid TBool v = True"
| "solid (TInt w) v = True"
| "solid TFloat v = True"
| "solid TAny v = True"
| "solid TRaw v = True"
| "solid (TPtr t) v = (case v of VPtr u \<Rightarrow> encode t u \<noteq> JNull \<and> solid t u | _ \<Rightarrow> True)"
| "solid (TSlice t) v = (case v of VSlice vs \<Rightarrow> list_all (solid t) vs | _ \<Rightarrow> True)"
| "solid (TMap t) v = (case v of VMap m \<Rightarrow> list_all (\<lambda>kv. solid t (snd kv)) m | _ \<Rightarrow> True)"
| "solid (TStruct fs) v =
     (case v of
        VStruct vs \<Rightarrow> list_all (\<lambda>f. solid (snd (snd f)) (members vs (fst f) VNil)) fs
      | _ \<Rightarrow> True)"
  by pat_completeness auto

termination
  by (relation "measure (\<lambda>(t, _). size t)") (auto dest: field_size)

lemma those_map_id: "(\<And>x. x \<in> set xs \<Longrightarrow> f (g x) = Some x) \<Longrightarrow> those (map f (map g xs)) = Some xs"
  by (induction xs) auto

text \<open>Of the encoded fields of a struct, each finds its own.\<close>

lemma field_values_struct:
  assumes "distinct (map (\<lambda>f. map lower (fst f)) fs)" and "f \<in> set fs"
  shows "field_values (fst f) (concat (map (\<lambda>f. if skip f then [] else [(fst f, e f)]) fs)) =
    (if skip f then [] else [e f])"
  using assms
proof (induction fs)
  case (Cons x xs)
  have none: "field_values n (concat (map (\<lambda>f. if skip f then [] else [(fst f, e f)]) ys)) = []"
    if "map lower n \<notin> (\<lambda>f. map lower (fst f)) ` set ys" for n ys
    using that by (induction ys) (auto simp: field_values_def same_field_def)
  have app: "field_values n (as @ bs) = field_values n as @ field_values n bs" for n and as bs :: "(string \<times> json) list"
    by (simp add: field_values_def)
  show ?case
  proof (cases "f = x")
    case True
    then have "map lower (fst f) \<notin> (\<lambda>f. map lower (fst f)) ` set xs" using Cons.prems(1) by simp
    then show ?thesis using True by (simp add: app none) (simp add: field_values_def same_field_def)
  next
    case False
    then have f: "f \<in> set xs" using Cons.prems by simp
    then have "map lower (fst f) \<in> (\<lambda>f. map lower (fst f)) ` set xs" by (rule imageI)
    moreover have "map lower (fst x) \<notin> (\<lambda>f. map lower (fst f)) ` set xs" using Cons.prems(1) by simp
    ultimately have "map lower (fst f) \<noteq> map lower (fst x)" by metis
    with f show ?thesis using Cons by (simp add: app) (simp add: field_values_def same_field_def)
  qed
qed simp

lemma zip_members:
  assumes "map fst vs = map fst fs" and "distinct (map fst fs)"
  shows "zip (map fst fs) (map (\<lambda>f. members vs (fst f) VNil) fs) = vs"
proof (rule nth_equalityI)
  have len: "length vs = length fs" using assms(1) map_eq_imp_length_eq by blast
  then show "length (zip (map fst fs) (map (\<lambda>f. members vs (fst f) VNil) fs)) = length vs" by simp
  fix i assume "i < length (zip (map fst fs) (map (\<lambda>f. members vs (fst f) VNil) fs))"
  then have i: "i < length fs" by simp
  then have name: "fst (vs ! i) = fst (fs ! i)" using assms(1) len by (metis nth_map)
  have "map_of vs (fst (vs ! i)) = Some (snd (vs ! i))" using i len assms by (simp add: map_of_is_SomeI)
  then show "zip (map fst fs) (map (\<lambda>f. members vs (fst f) VNil) fs) ! i = vs ! i"
    using i name by (simp add: members_def prod_eq_iff)
qed

lemma decode_nil: "has_type t VNil \<Longrightarrow> decode_over t old JNull = Some VNil"
  by (cases t) auto

lemma decode_encode:
  "wf_type t \<Longrightarrow> has_type t v \<Longrightarrow> solid t v \<Longrightarrow> decode_over t (zero_of t) (encode t v) = Some v"
proof (induction t v rule: encode.induct)
  case (8 t v)
  show ?case
  proof (cases v)
    case (VSlice vs)
    with 8 have "those (map (decode_over t (zero_of t)) (map (encode t) vs)) = Some vs"
      by (intro those_map_id) (auto simp: list_all_iff)
    then show ?thesis using VSlice by simp
  qed (use 8 in auto)
next
  case (9 t v)
  show ?case
  proof (cases v)
    case (VMap m)
    have "decode_over t (zero_of t) (encode t (snd kv)) = Some (snd kv)" if "kv \<in> set m" for kv
      using 9(1) [OF VMap that] 9(2-) that VMap by (auto simp: list_all_iff)
    then have "those (map (decode_over t (zero_of t)) (map (encode t) (map snd m))) = Some (map snd m)"
      by (intro those_map_id) auto
    moreover have "foldl (\<lambda>m kv. put (fst kv) (snd kv) m) [] m = m" using puts_sorted [of "[]" m] 9 VMap by simp
    ultimately show ?thesis using VMap by (simp add: comp_def zip_map_fst_snd)
  qed (use 9 in auto)
next
  case (10 fs v)
  show ?case
  proof (cases v)
    case (VStruct vs)
    let ?v = "\<lambda>f. members vs (fst f) VNil" and ?t = "\<lambda>f. snd (snd f)"
    let ?skip = "\<lambda>f. fst (snd f) \<and> empty_value (?v f)"
    let ?kvs = "concat (map (\<lambda>f. if ?skip f then [] else [(fst f, encode (?t f) (?v f))]) fs)"
    have names: "distinct (map fst fs)" "map fst vs = map fst fs"
      using 10 VStruct wf_names by (auto simp del: wf_type.simps)
    have "foldl (\<lambda>acc j. Option.bind acc (\<lambda>v. decode_over (?t f) v j))
        (Some (members (fields_of (zero_of (TStruct fs))) (fst f) (zero_of (?t f)))) (field_values (fst f) ?kvs) =
        Some (?v f)" if f: "f \<in> set fs" for f
    proof -
      have zero: "members (fields_of (zero_of (TStruct fs))) (fst f) (zero_of (?t f)) = zero_of (?t f)"
        unfolding zero_struct_fields using members_map [OF names(1) f] by simp
      have vals: "field_values (fst f) ?kvs = (if ?skip f then [] else [encode (?t f) (?v f)])"
        using 10(2) f by (intro field_values_struct) auto
      have typed: "has_type (?t f) (?v f)" "wf_type (?t f)" "solid (?t f) (?v f)"
          "fst (snd f) \<Longrightarrow> is_pointer (?t f)"
        using 10(2-4) VStruct f by (auto simp: list_all_iff)
      show ?thesis
      proof (cases "?skip f")
        case True
        with typed have "?v f = VNil" "zero_of (?t f) = VNil" by (cases "?t f"; cases "?v f"; simp)+
        with zero vals True show ?thesis by simp
      next
        case False
        then have "decode_over (?t f) (zero_of (?t f)) (encode (?t f) (?v f)) = Some (?v f)"
          using 10(1) [OF VStruct f refl] typed by blast
        with False show ?thesis using zero vals by auto
      qed
    qed
    then have "those (map (\<lambda>f. foldl (\<lambda>acc j. Option.bind acc (\<lambda>v. decode_over (?t f) v j))
        (Some (members (fields_of (zero_of (TStruct fs))) (fst f) (zero_of (?t f)))) (field_values (fst f) ?kvs)) fs) =
        Some (map ?v fs)"
      by (simp add: those_map_Some)
    then show ?thesis using zip_members [OF names(2, 1)] VStruct by (simp add: Let_def)
  qed (use 10 in auto)
qed (auto split: go_val.splits if_splits)

subsection \<open>The types of the API\<close>

text \<open>The structs of bodies and answers, in the order of \<^verbatim>\<open>api/server.gen.go\<close>.\<close>

definition Actor_t :: go_type where
  "Actor_t = TStruct
     [(''configurable'', False, TBool), (''created_at'', False, TInt 64), (''deployable'', False, TBool),
      (''enabled'', False, TBool), (''id'', False, TInt 64), (''mcp_enabled'', False, TBool),
      (''migratable'', False, TBool), (''name'', False, TString), (''permissions'', False, TSlice TString),
      (''renameable'', False, TBool), (''role'', False, TString), (''token_count'', False, TInt 64)]"

definition ActorCreate_t :: go_type where
  "ActorCreate_t = TStruct
     [(''configurable'', True, TPtr TBool), (''deployable'', True, TPtr TBool),
      (''enabled'', True, TPtr TBool), (''mcp_enabled'', True, TPtr TBool), (''migratable'', True, TPtr TBool),
      (''name'', False, TString), (''permissions'', False, TSlice TString), (''role'', False, TString)]"

definition ApiToken_t :: go_type where
  "ApiToken_t = TStruct
     [(''actor_id'', False, TInt 64), (''created_at'', False, TInt 64), (''created_by'', False, TString),
      (''expire_at'', False, TInt 64), (''id'', False, TString), (''permissions'', False, TSlice TString)]"

definition ApiTokenCreate_t :: go_type where
  "ApiTokenCreate_t = TStruct
     [(''actor_id'', False, TInt 64), (''created_by'', False, TString), (''expire_at'', False, TInt 64),
      (''permissions'', False, TSlice TString)]"

definition Config_t :: go_type where
  "Config_t = TStruct
     [(''actor_id'', False, TInt 64), (''actor_name'', False, TString), (''content'', False, TMap TString),
      (''created_at'', False, TInt 64), (''created_by'', False, TString), (''id'', False, TInt 64),
      (''min_actor_version'', True, TPtr TString), (''updated_at'', True, TPtr (TInt 64)),
      (''updated_by'', True, TPtr TString)]"

definition Deployment_t :: go_type where
  "Deployment_t = TStruct
     [(''approved_at'', True, TPtr (TInt 64)), (''approved_by'', True, TPtr TString),
      (''config_suite_id'', True, TPtr (TInt 64)), (''created_at'', False, TInt 64),
      (''created_by'', False, TString), (''finished_at'', True, TPtr (TInt 64)),
      (''finished_by'', True, TPtr TString), (''id'', False, TInt 64), (''name'', False, TString),
      (''notes'', True, TPtr (TMap TAny)), (''reviewers'', False, TSlice TString),
      (''status'', False, TString)]"

definition DeploymentDetail_t :: go_type where
  "DeploymentDetail_t = TStruct
     [(''approved_at'', True, TPtr (TInt 64)), (''approved_by'', True, TPtr TString),
      (''configs'', True, TPtr (TSlice Config_t)), (''created_at'', False, TInt 64),
      (''created_by'', False, TString), (''finished_at'', True, TPtr (TInt 64)),
      (''finished_by'', True, TPtr TString), (''id'', False, TInt 64), (''name'', False, TString),
      (''notes'', True, TPtr (TMap TAny)), (''reviewers'', False, TSlice TString),
      (''status'', False, TString)]"

definition Embedding_t :: go_type where
  "Embedding_t = TStruct
     [(''embedding'', True, TPtr (TSlice TFloat)), (''index'', True, TPtr (TInt 64))]"

definition Error_t :: go_type where
  "Error_t = TStruct
     [(''error'', False, TString)]"

definition InvocationJob_t :: go_type where
  "InvocationJob_t = TStruct
     [(''id'', False, TString), (''meta'', False, TMap TAny), (''payload'', False, TMap TAny)]"

definition InvocationResult_t :: go_type where
  "InvocationResult_t = TStruct
     [(''attempted_at'', True, TPtr (TInt 64)), (''errors'', True, TPtr (TMap TAny)),
      (''finalized_at'', True, TPtr (TInt 64)), (''id'', False, TString), (''meta'', False, TMap TAny),
      (''result'', True, TPtr (TMap TAny)), (''state'', False, TString)]"

definition MCPMessage_t :: go_type where
  "MCPMessage_t = TStruct
     [(''id'', True, TPtr TString), (''jsonrpc'', False, TString), (''method'', False, TString),
      (''params'', True, TPtr TRaw)]"

definition Message_t :: go_type where
  "Message_t = TStruct
     [(''content'', False, TSlice TRaw), (''role'', False, TString)]"

definition PodMetrics_t :: go_type where
  "PodMetrics_t = TStruct
     [(''cpu'', False, TInt 64), (''memory'', False, TInt 64), (''name'', False, TString)]"

definition ReferenceConfigSuite_t :: go_type where
  "ReferenceConfigSuite_t = TStruct
     [(''actor_name'', False, TString),
      (''config_suites'', False, TSlice (TStruct [(''configs'', False, (TMap TString)), (''suite_name'',
        False, TString)]))]"

definition RerankResult_t :: go_type where
  "RerankResult_t = TStruct
     [(''index'', True, TPtr (TInt 64)), (''score'', True, TPtr TFloat), (''text'', True, TPtr TString)]"

definition Setting_t :: go_type where
  "Setting_t = TStruct
     [(''deployment_approve_required'', False, TBool), (''display_name'', False, TString),
      (''enable_secrets_backup'', False, TBool), (''secrets_backup_bucket'', True, TPtr TString),
      (''secrets_backup_prefix'', True, TPtr TString), (''secrets_backup_public_key'', True, TPtr TString)]"

definition AdminUpdateActorJSONBody_t :: go_type where
  "AdminUpdateActorJSONBody_t = TStruct
     [(''configurable'', True, TPtr TBool), (''deployable'', True, TPtr TBool),
      (''enabled'', True, TPtr TBool), (''mcp_enabled'', True, TPtr TBool), (''migratable'', True, TPtr TBool),
      (''name'', True, TPtr TString), (''permissions'', True, TPtr (TSlice TString)),
      (''role'', True, TPtr TString)]"

definition AdminUpdateConfigJSONBody_t :: go_type where
  "AdminUpdateConfigJSONBody_t = TStruct
     [(''content'', True, TPtr (TMap TString)), (''min_actor_version'', True, TPtr TString),
      (''user'', False, TString)]"

definition AdminCreateDeploymentJSONBody_t :: go_type where
  "AdminCreateDeploymentJSONBody_t = TStruct
     [(''clone_from'', True, TPtr (TInt 64)), (''name'', False, TString),
      (''reviewers'', True, TPtr (TSlice TString)), (''user'', False, TString)]"

definition AdminUpdateDeploymentJSONBody_t :: go_type where
  "AdminUpdateDeploymentJSONBody_t = TStruct
     [(''name'', True, TPtr TString), (''reviewers'', True, TPtr (TSlice TString)),
      (''user'', True, TPtr TString)]"

definition AdminPublishDeploymentJSONBody_t :: go_type where
  "AdminPublishDeploymentJSONBody_t = TStruct
     [(''user'', False, TString)]"

definition AdminRejectDeploymentJSONBody_t :: go_type where
  "AdminRejectDeploymentJSONBody_t = TStruct
     [(''reason'', False, TString), (''user'', False, TString)]"

definition AdminRestartDeploymentJSONBody_t :: go_type where
  "AdminRestartDeploymentJSONBody_t = TStruct
     [(''user'', False, TString)]"

definition AdminUpdateSettingJSONBody_t :: go_type where
  "AdminUpdateSettingJSONBody_t = TStruct
     [(''deployment_approve_required'', True, TPtr TBool), (''display_name'', True, TPtr TString),
      (''enable_secrets_backup'', True, TPtr TBool), (''secrets_backup_bucket'', True, TPtr TString),
      (''secrets_backup_prefix'', True, TPtr TString), (''secrets_backup_public_key'', True, TPtr TString)]"

definition Tool_t :: go_type where
  "Tool_t = TStruct
     [(''description'', True, TPtr TString), (''name'', True, TPtr TString),
      (''parameters'', True, TPtr (TMap TAny))]"

definition CreateCompletionJSONBody_t :: go_type where
  "CreateCompletionJSONBody_t = TStruct
     [(''max_completion_tokens'', True, TPtr (TInt 32)), (''max_tokens'', True, TPtr (TInt 32)),
      (''messages'', False, TSlice Message_t), (''model_id'', False, TString),
      (''response_format'', True, TPtr (TStruct [(''json_schema'', True,
        (TPtr (TStruct [(''description'', False, TString), (''name'', False, TString), (''schema'', False,
        (TMap TAny)), (''strict'', True, (TPtr TBool))]))), (''type'', False, TString)])),
      (''stop_sequences'', True, TPtr (TSlice TString)), (''temperature'', True, TPtr TFloat),
      (''tools'', True, TPtr (TSlice Tool_t)), (''trace_id'', False, TString)]"

definition CreateEmbeddingJSONBody_t :: go_type where
  "CreateEmbeddingJSONBody_t = TStruct
     [(''input'', False, TSlice TString), (''input_type'', True, TPtr TString), (''model_id'', False, TString)]"

definition CreateInvocationAsyncJSONBody_t :: go_type where
  "CreateInvocationAsyncJSONBody_t = TStruct
     [(''actor'', False, TString), (''meta'', False, TMap TAny), (''payload'', False, TMap TAny)]"

definition CreateInvocationSyncJSONBody_t :: go_type where
  "CreateInvocationSyncJSONBody_t = TStruct
     [(''actor'', False, TString), (''meta'', False, TMap TAny), (''payload'', False, TMap TAny)]"

definition ReturnInvocationErrorJSONBody_t :: go_type where
  "ReturnInvocationErrorJSONBody_t = TStruct
     [(''errors'', True, TPtr (TMap TAny))]"

definition ReturnInvocationResponseJSONBody_t :: go_type where
  "ReturnInvocationResponseJSONBody_t = TStruct
     [(''result'', True, TPtr (TMap TAny))]"

definition CreateRerankJSONBody_t :: go_type where
  "CreateRerankJSONBody_t = TStruct
     [(''documents'', False, TSlice TString), (''model_id'', False, TString), (''query'', False, TString)]"

definition CollectionField_t :: go_type where
  "CollectionField_t = TStruct
     [(''data_type'', True, TPtr TString), (''is_primary'', True, TPtr TBool),
      (''max_length'', True, TPtr (TInt 64)), (''name'', True, TPtr TString)]"

definition CollectionIndex_t :: go_type where
  "CollectionIndex_t = TStruct
     [(''field_name'', True, TPtr TString), (''index_name'', True, TPtr TString),
      (''index_type'', True, TPtr TString), (''metric_type'', True, TPtr TString),
      (''parameter'', True, TPtr (TStruct [(''M'', True, (TPtr (TInt 64))), (''drop_ratio_build'', True,
        (TPtr TFloat)), (''efConstruction'', True, (TPtr (TInt 64))), (''nfactors'', True,
        (TPtr (TInt 64))), (''nlist'', True, (TPtr (TInt 64)))]))]"

definition CreateCollectionJSONBody_t :: go_type where
  "CreateCollectionJSONBody_t = TStruct
     [(''fields'', False, TSlice CollectionField_t), (''indexes'', True, TPtr (TSlice CollectionIndex_t)),
      (''name'', False, TString)]"

definition body_types :: "go_type list" where
  "body_types =
     [Actor_t, ActorCreate_t, ApiToken_t, ApiTokenCreate_t, Config_t, Deployment_t, DeploymentDetail_t,
        Embedding_t, Error_t, InvocationJob_t, InvocationResult_t, MCPMessage_t, Message_t, PodMetrics_t,
        ReferenceConfigSuite_t, RerankResult_t, Setting_t, AdminUpdateActorJSONBody_t,
        AdminUpdateConfigJSONBody_t, AdminCreateDeploymentJSONBody_t, AdminUpdateDeploymentJSONBody_t,
        AdminPublishDeploymentJSONBody_t, AdminRejectDeploymentJSONBody_t, AdminRestartDeploymentJSONBody_t,
        AdminUpdateSettingJSONBody_t, Tool_t, CreateCompletionJSONBody_t, CreateEmbeddingJSONBody_t,
        CreateInvocationAsyncJSONBody_t, CreateInvocationSyncJSONBody_t, ReturnInvocationErrorJSONBody_t,
        ReturnInvocationResponseJSONBody_t, CreateRerankJSONBody_t, CollectionField_t, CollectionIndex_t,
        CreateCollectionJSONBody_t]"


lemmas type_defs =
  Actor_t_def ActorCreate_t_def ApiToken_t_def ApiTokenCreate_t_def Config_t_def Deployment_t_def
  DeploymentDetail_t_def Embedding_t_def Error_t_def InvocationJob_t_def InvocationResult_t_def
  MCPMessage_t_def Message_t_def PodMetrics_t_def ReferenceConfigSuite_t_def RerankResult_t_def
  Setting_t_def AdminUpdateActorJSONBody_t_def AdminUpdateConfigJSONBody_t_def
  AdminCreateDeploymentJSONBody_t_def AdminUpdateDeploymentJSONBody_t_def
  AdminPublishDeploymentJSONBody_t_def AdminRejectDeploymentJSONBody_t_def
  AdminRestartDeploymentJSONBody_t_def AdminUpdateSettingJSONBody_t_def Tool_t_def
  CreateCompletionJSONBody_t_def CreateEmbeddingJSONBody_t_def CreateInvocationAsyncJSONBody_t_def
  CreateInvocationSyncJSONBody_t_def ReturnInvocationErrorJSONBody_t_def
  ReturnInvocationResponseJSONBody_t_def CreateRerankJSONBody_t_def CollectionField_t_def
  CollectionIndex_t_def CreateCollectionJSONBody_t_def

lemma body_types_wf: "list_all wf_type body_types"
  by (simp add: body_types_def type_defs lower_def)


definition sample_user_val :: go_val where
  "sample_user_val = VStruct [(''user'', VString ''ops'')]"


end
