(* ===== verification/Http_Tables.thy ===== *)
theory Http_Tables
  imports Api_Types
begin

text \<open>
  What \<^verbatim>\<open>api/server.gen.go\<close> generates for each operation, as tables: the parameters its wrapper binds, in
  order, the body its strict handler decodes, and the responses it can answer with, each with the type
  encoded as its body. One group of operations has one table of each kind.
\<close>

subsection \<open>Parameters\<close>

text \<open>Where a parameter comes from; query and header parameters may be required.\<close>

datatype param_kind = PathParam | QueryParam bool | HeaderParam bool

type_synonym param = "param_kind \<times> string \<times> go_type"

subsection \<open>The tables\<close>

definition actor_params :: "(string \<times> param list) list" where
  "actor_params =
     [(''GetHealth'', []),
      (''AdminListActors'', [(QueryParam False, ''page'', TPtr (TInt 64)), (QueryParam False, ''page_size'',
        TPtr (TInt 64)), (QueryParam False, ''name'', TPtr TString)]),
      (''AdminCreateActor'', []),
      (''AdminDeleteActor'', [(PathParam, ''id'', TInt 64)]),
      (''AdminGetActor'', [(PathParam, ''id'', TInt 64)]),
      (''AdminUpdateActor'', [(PathParam, ''id'', TInt 64)])]"

definition actor_bodies :: "(string \<times> go_type option) list" where
  "actor_bodies =
     [(''GetHealth'', None),
      (''AdminListActors'', None),
      (''AdminCreateActor'', Some ActorCreate_t),
      (''AdminDeleteActor'', None),
      (''AdminGetActor'', None),
      (''AdminUpdateActor'', Some AdminUpdateActorJSONBody_t)]"

definition actor_responses :: "(string \<times> (nat \<times> go_type option) list) list" where
  "actor_responses =
     [(''GetHealth'', [(200, Some (TStruct [(''status'', False, TString)]))]),
      (''AdminListActors'', [(200, Some (TStruct [(''data'', False, (TSlice Actor_t)), (''meta'', False,
        (TStruct [(''total_pages'', False, (TInt 64))]))])), (401, None), (500, Some Error_t)]),
      (''AdminCreateActor'', [(201, Some Actor_t), (400, Some Error_t), (401, None), (500, Some Error_t)]),
      (''AdminDeleteActor'', [(200, None), (401, None), (404, None), (409, None), (500, Some Error_t)]),
      (''AdminGetActor'', [(200, Some (TStruct [(''data'', False, Actor_t)])), (401, None), (404, None), (500,
        Some Error_t)]),
      (''AdminUpdateActor'', [(200, Some (TStruct [(''data'', False, Actor_t)])), (400, Some Error_t), (401,
        None), (404, None), (500, Some Error_t)])]"

definition token_params :: "(string \<times> param list) list" where
  "token_params =
     [(''AdminListApiTokens'', [(QueryParam False, ''page'', TPtr (TInt 64)), (QueryParam False, ''page_size'',
        TPtr (TInt 64)), (QueryParam False, ''actor_id'', TPtr (TInt 64)), (QueryParam False, ''created_by'',
        TPtr TString)]),
      (''AdminCreateApiToken'', []),
      (''AdminDeleteApiToken'', [(PathParam, ''id'', TString)]),
      (''AdminUpdateConfig'', [(PathParam, ''id'', TInt 64)])]"

definition token_bodies :: "(string \<times> go_type option) list" where
  "token_bodies =
     [(''AdminListApiTokens'', None),
      (''AdminCreateApiToken'', Some ApiTokenCreate_t),
      (''AdminDeleteApiToken'', None),
      (''AdminUpdateConfig'', Some AdminUpdateConfigJSONBody_t)]"

definition token_responses :: "(string \<times> (nat \<times> go_type option) list) list" where
  "token_responses =
     [(''AdminListApiTokens'', [(200, Some (TStruct [(''data'', False, (TSlice ApiToken_t)), (''meta'', False,
        (TStruct [(''total_pages'', False, (TInt 64))]))])), (401, None), (500, Some Error_t)]),
      (''AdminCreateApiToken'', [(201, Some ApiToken_t), (400, Some Error_t), (401, None), (500, Some Error_t)]),
      (''AdminDeleteApiToken'', [(204, None), (401, None), (500, Some Error_t)]),
      (''AdminUpdateConfig'', [(200, Some (TStruct [(''data'', False, Config_t)])), (400, Some Error_t), (401,
        None), (404, None), (500, Some Error_t)])]"

definition deploy_params :: "(string \<times> param list) list" where
  "deploy_params =
     [(''AdminListDeployments'', [(QueryParam False, ''page'', TPtr (TInt 64)), (QueryParam False,
        ''page_size'', TPtr (TInt 64)), (QueryParam False, ''reviewer'', TPtr TString), (QueryParam False,
        ''status'', TPtr TString), (QueryParam False, ''name'', TPtr TString), (QueryParam False, ''id'',
        TPtr (TSlice (TInt 64))), (QueryParam False, ''sort_by'', TPtr TString), (QueryParam False,
        ''sort_order'', TPtr TString)]),
      (''AdminCreateDeployment'', []),
      (''AdminDeleteDeployment'', [(PathParam, ''id'', TInt 64)]),
      (''AdminGetDeployment'', [(PathParam, ''id'', TInt 64)]),
      (''AdminUpdateDeployment'', [(PathParam, ''id'', TInt 64)])]"

definition deploy_bodies :: "(string \<times> go_type option) list" where
  "deploy_bodies =
     [(''AdminListDeployments'', None),
      (''AdminCreateDeployment'', Some AdminCreateDeploymentJSONBody_t),
      (''AdminDeleteDeployment'', None),
      (''AdminGetDeployment'', None),
      (''AdminUpdateDeployment'', Some AdminUpdateDeploymentJSONBody_t)]"

definition deploy_responses :: "(string \<times> (nat \<times> go_type option) list) list" where
  "deploy_responses =
     [(''AdminListDeployments'', [(200, Some (TStruct [(''data'', False, (TSlice Deployment_t)), (''meta'',
        False, (TStruct [(''page'', False, (TInt 64)), (''page_size'', False, (TInt 64)), (''total'', False,
        (TInt 64))]))])), (401, None), (500, Some Error_t)]),
      (''AdminCreateDeployment'', [(201, Some (TStruct [(''data'', False, Deployment_t)])), (400, Some Error_t),
        (401, None), (500, Some Error_t)]),
      (''AdminDeleteDeployment'', [(200, None), (401, None), (404, None), (500, Some Error_t)]),
      (''AdminGetDeployment'', [(200, Some DeploymentDetail_t), (401, None), (404, None), (500, Some Error_t)]),
      (''AdminUpdateDeployment'', [(200, Some (TStruct [(''data'', False, Deployment_t)])), (401, None), (404,
        None), (500, Some Error_t)])]"

definition publishing_params :: "(string \<times> param list) list" where
  "publishing_params =
     [(''AdminPublishDeployment'', [(PathParam, ''id'', TInt 64)]),
      (''AdminRejectDeployment'', [(PathParam, ''id'', TInt 64)]),
      (''AdminRestartDeployment'', [(PathParam, ''id'', TInt 64)]),
      (''AdminGetDeploymentResult'', [(PathParam, ''id'', TInt 64)]),
      (''AdminSubmitDeployment'', [(PathParam, ''id'', TInt 64)])]"

definition publishing_bodies :: "(string \<times> go_type option) list" where
  "publishing_bodies =
     [(''AdminPublishDeployment'', Some AdminPublishDeploymentJSONBody_t),
      (''AdminRejectDeployment'', Some AdminRejectDeploymentJSONBody_t),
      (''AdminRestartDeployment'', Some AdminRestartDeploymentJSONBody_t),
      (''AdminGetDeploymentResult'', None),
      (''AdminSubmitDeployment'', None)]"

definition publishing_responses :: "(string \<times> (nat \<times> go_type option) list) list" where
  "publishing_responses =
     [(''AdminPublishDeployment'', [(201, None), (400, Some Error_t), (401, None), (404, None), (500,
        Some Error_t)]),
      (''AdminRejectDeployment'', [(201, None), (400, Some Error_t), (401, None), (404, None), (500,
        Some Error_t)]),
      (''AdminRestartDeployment'', [(201, None), (401, None), (404, None), (500, Some Error_t)]),
      (''AdminGetDeploymentResult'', [(200, Some (TStruct [(''error'', True, (TPtr TString)), (''logs'', True,
        (TPtr (TMap (TMap TAny)))), (''status'', False, TString)])), (400, Some Error_t), (401, None), (404,
        None), (500, Some Error_t)]),
      (''AdminSubmitDeployment'', [(200, None), (400, Some Error_t), (401, None), (404, None), (500,
        Some Error_t)])]"

definition cluster_params :: "(string \<times> param list) list" where
  "cluster_params =
     [(''AdminListPodMetrics'', []),
      (''AdminListReferenceConfigSuites'', []),
      (''AdminSyncReferenceConfigSuites'', []),
      (''AdminListSecrets'', []),
      (''AdminDeleteSecret'', [(PathParam, ''name'', TString)]),
      (''AdminUpdateSecret'', [(PathParam, ''name'', TString)])]"

definition cluster_bodies :: "(string \<times> go_type option) list" where
  "cluster_bodies =
     [(''AdminListPodMetrics'', None),
      (''AdminListReferenceConfigSuites'', None),
      (''AdminSyncReferenceConfigSuites'', None),
      (''AdminListSecrets'', None),
      (''AdminDeleteSecret'', None),
      (''AdminUpdateSecret'', Some (TMap TString))]"

definition cluster_responses :: "(string \<times> (nat \<times> go_type option) list) list" where
  "cluster_responses =
     [(''AdminListPodMetrics'', [(200, Some (TStruct [(''pods'', False, (TSlice PodMetrics_t))])), (401, None),
        (500, Some Error_t)]),
      (''AdminListReferenceConfigSuites'', [(200, Some (TStruct [(''data'', False,
        (TSlice ReferenceConfigSuite_t))])), (401, None), (500, Some Error_t)]),
      (''AdminSyncReferenceConfigSuites'', [(201, None), (401, None), (500, Some Error_t)]),
      (''AdminListSecrets'', [(200, Some (TStruct [(''data'', False, (TSlice (TStruct [(''keys'', False,
        (TSlice TString)), (''name'', False, TString)])))])), (401, None), (500, Some Error_t)]),
      (''AdminDeleteSecret'', [(200, None), (401, None), (500, Some Error_t)]),
      (''AdminUpdateSecret'', [(200, None), (401, None), (500, Some Error_t)])]"

definition setting_params :: "(string \<times> param list) list" where
  "setting_params =
     [(''AdminGetSetting'', []),
      (''AdminUpdateSetting'', [])]"

definition setting_bodies :: "(string \<times> go_type option) list" where
  "setting_bodies =
     [(''AdminGetSetting'', None),
      (''AdminUpdateSetting'', Some AdminUpdateSettingJSONBody_t)]"

definition setting_responses :: "(string \<times> (nat \<times> go_type option) list) list" where
  "setting_responses =
     [(''AdminGetSetting'', [(200, Some Setting_t), (401, None), (500, Some Error_t)]),
      (''AdminUpdateSetting'', [(200, None), (400, Some Error_t), (401, None), (404, None), (500,
        Some Error_t)])]"

definition model_params :: "(string \<times> param list) list" where
  "model_params =
     [(''CreateCompletion'', []),
      (''ListCompletionModels'', [(QueryParam True, ''trace_id'', TString)]),
      (''GetCallerConfig'', [(HeaderParam False, ''X-Actor-Version'', TString)]),
      (''CreateEmbedding'', []),
      (''ListEmbeddingModels'', [])]"

definition model_bodies :: "(string \<times> go_type option) list" where
  "model_bodies =
     [(''CreateCompletion'', Some CreateCompletionJSONBody_t),
      (''ListCompletionModels'', None),
      (''GetCallerConfig'', None),
      (''CreateEmbedding'', Some CreateEmbeddingJSONBody_t),
      (''ListEmbeddingModels'', None)]"

definition model_responses :: "(string \<times> (nat \<times> go_type option) list) list" where
  "model_responses =
     [(''CreateCompletion'', [(200, Some (TStruct [(''messages'', False, (TSlice Message_t))])), (400,
        Some Error_t), (401, None), (500, Some Error_t)]),
      (''ListCompletionModels'', [(200, Some (TStruct [(''data'', False, (TSlice (TStruct [(''id'', False,
        TString), (''name'', False, TString), (''provider'', False, TString)])))])), (401, None)]),
      (''GetCallerConfig'', [(200, Some (TStruct [(''data'', False, (TMap TString))])), (400, Some Error_t),
        (401, None), (404, None), (500, Some Error_t)]),
      (''CreateEmbedding'', [(200, Some (TStruct [(''data'', True, (TPtr (TSlice Embedding_t)))])), (401,
        None)]),
      (''ListEmbeddingModels'', [(200, Some (TStruct [(''data'', True, (TPtr (TSlice (TStruct [(''dimension'',
        True, (TPtr (TInt 64))), (''id'', True, (TPtr TString)), (''name'', True, (TPtr TString)), (''provider'',
        True, (TPtr TString))]))))])), (401, None)])]"

definition invocation_params :: "(string \<times> param list) list" where
  "invocation_params =
     [(''CreateInvocationAsync'', []),
      (''GetNextInvocation'', [(QueryParam False, ''wait'', TPtr (TInt 64))]),
      (''CreateInvocationSync'', [(QueryParam False, ''wait'', TPtr (TInt 64))]),
      (''GetInvocationById'', [(PathParam, ''id'', TString), (QueryParam False, ''wait'', TPtr (TInt 64))]),
      (''ReturnInvocationError'', [(PathParam, ''invoke_id'', TString)]),
      (''ReturnInvocationResponse'', [(PathParam, ''invoke_id'', TString)])]"

definition invocation_bodies :: "(string \<times> go_type option) list" where
  "invocation_bodies =
     [(''CreateInvocationAsync'', Some CreateInvocationAsyncJSONBody_t),
      (''GetNextInvocation'', None),
      (''CreateInvocationSync'', Some CreateInvocationSyncJSONBody_t),
      (''GetInvocationById'', None),
      (''ReturnInvocationError'', Some ReturnInvocationErrorJSONBody_t),
      (''ReturnInvocationResponse'', Some ReturnInvocationResponseJSONBody_t)]"

definition invocation_responses :: "(string \<times> (nat \<times> go_type option) list) list" where
  "invocation_responses =
     [(''CreateInvocationAsync'', [(201, Some (TStruct [(''id'', False, TString)])), (400, Some Error_t), (401,
        None), (500, Some Error_t)]),
      (''GetNextInvocation'', [(200, Some InvocationJob_t), (400, Some Error_t), (401, None), (404, None), (500,
        Some Error_t)]),
      (''CreateInvocationSync'', [(201, Some InvocationResult_t), (400, Some Error_t), (401, None), (408, None),
        (500, Some Error_t)]),
      (''GetInvocationById'', [(200, Some InvocationResult_t), (202, Some InvocationResult_t), (400,
        Some Error_t), (401, None), (404, None), (500, Some Error_t)]),
      (''ReturnInvocationError'', [(200, None), (400, Some Error_t), (401, None), (404, None), (500,
        Some Error_t)]),
      (''ReturnInvocationResponse'', [(200, None), (400, Some Error_t), (401, None), (404, None), (500,
        Some Error_t)])]"

definition mcp_params :: "(string \<times> param list) list" where
  "mcp_params =
     [(''GetMCPServers'', [(QueryParam True, ''trace_id'', TString)]),
      (''InitializeMCPSession'', [(PathParam, ''agent'', TString)]),
      (''ReadMCPMessage'', []),
      (''SendMCPResponse'', [(PathParam, ''id'', TString)]),
      (''SendMCPMessage'', [(QueryParam True, ''session_id'', TString)])]"

definition mcp_bodies :: "(string \<times> go_type option) list" where
  "mcp_bodies =
     [(''GetMCPServers'', None),
      (''InitializeMCPSession'', None),
      (''ReadMCPMessage'', None),
      (''SendMCPResponse'', None),
      (''SendMCPMessage'', Some MCPMessage_t)]"

definition mcp_responses :: "(string \<times> (nat \<times> go_type option) list) list" where
  "mcp_responses =
     [(''GetMCPServers'', [(200, Some (TStruct [(''data'', False, (TSlice (TStruct [(''id'', False, TString),
        (''name'', False, TString)])))])), (401, None), (500, Some Error_t)]),
      (''InitializeMCPSession'', [(200, None), (401, None)]),
      (''ReadMCPMessage'', [(200, Some (TStruct [(''data'', False, MCPMessage_t), (''id'', False, TString)])),
        (401, None), (404, None), (500, None)]),
      (''SendMCPResponse'', [(200, None), (401, None)]),
      (''SendMCPMessage'', [(200, Some TRaw), (401, None)])]"

definition vector_params :: "(string \<times> param list) list" where
  "vector_params =
     [(''CreateRerank'', []),
      (''ListRerankModels'', []),
      (''ListCollection'', [(HeaderParam True, ''MAOS_VECTOR_DATABASE_NAME'', TString)]),
      (''CreateCollection'', [(HeaderParam True, ''MAOS_VECTOR_DATABASE_NAME'', TString)]),
      (''QueryCollection'', [(PathParam, ''name'', TString)]),
      (''UpsertCollection'', [(PathParam, ''name'', TString)]),
      (''ListVectoreStores'', [])]"

definition vector_bodies :: "(string \<times> go_type option) list" where
  "vector_bodies =
     [(''CreateRerank'', Some CreateRerankJSONBody_t),
      (''ListRerankModels'', None),
      (''ListCollection'', None),
      (''CreateCollection'', Some CreateCollectionJSONBody_t),
      (''QueryCollection'', None),
      (''UpsertCollection'', Some (TMap TAny)),
      (''ListVectoreStores'', None)]"

definition vector_responses :: "(string \<times> (nat \<times> go_type option) list) list" where
  "vector_responses =
     [(''CreateRerank'', [(201, Some (TStruct [(''data'', True, (TPtr (TSlice RerankResult_t)))])), (401,
        None)]),
      (''ListRerankModels'', [(200, Some (TStruct [(''data'', True, (TPtr (TSlice (TStruct [(''id'', True,
        (TPtr TString)), (''name'', True, (TPtr TString)), (''provider'', True, (TPtr TString))]))))])), (401,
        None)]),
      (''ListCollection'', [(200, Some (TStruct [(''data'', True, (TPtr (TSlice TString)))])), (401, None)]),
      (''CreateCollection'', [(200, Some (TStruct [(''data'', True, (TPtr TString))])), (401, None)]),
      (''QueryCollection'', [(200, Some (TMap TAny)), (401, None)]),
      (''UpsertCollection'', [(200, Some (TMap TAny)), (401, None)]),
      (''ListVectoreStores'', [(200, Some (TStruct [(''data'', True, (TPtr (TSlice TString)))])), (401, None)])]"


subsection \<open>All operations\<close>

definition wrapper_params :: "(string \<times> param list) list" where
  "wrapper_params =
     actor_params @ token_params @ deploy_params @ publishing_params @ cluster_params @ setting_params @
     model_params @ invocation_params @ mcp_params @ vector_params"

definition handler_bodies :: "(string \<times> go_type option) list" where
  "handler_bodies =
     actor_bodies @ token_bodies @ deploy_bodies @ publishing_bodies @ cluster_bodies @ setting_bodies @
     model_bodies @ invocation_bodies @ mcp_bodies @ vector_bodies"

definition operation_responses :: "(string \<times> (nat \<times> go_type option) list) list" where
  "operation_responses =
     actor_responses @ token_responses @ deploy_responses @ publishing_responses @ cluster_responses @
     setting_responses @ model_responses @ invocation_responses @ mcp_responses @ vector_responses"

definition params_of :: "string \<Rightarrow> param list" where
  "params_of op = members wrapper_params op []"

definition body_of :: "string \<Rightarrow> go_type option" where
  "body_of op = members handler_bodies op None"

definition responses_of :: "string \<Rightarrow> (nat \<times> go_type option) list" where
  "responses_of op = members operation_responses op []"

lemmas table_defs =
  wrapper_params_def actor_params_def token_params_def deploy_params_def publishing_params_def
  cluster_params_def setting_params_def model_params_def invocation_params_def mcp_params_def vector_params_def
  handler_bodies_def actor_bodies_def token_bodies_def deploy_bodies_def publishing_bodies_def
  cluster_bodies_def setting_bodies_def model_bodies_def invocation_bodies_def mcp_bodies_def vector_bodies_def
  operation_responses_def actor_responses_def token_responses_def deploy_responses_def
  publishing_responses_def cluster_responses_def setting_responses_def model_responses_def
  invocation_responses_def mcp_responses_def vector_responses_def

lemma same_operations:
  "map fst handler_bodies = map fst wrapper_params" "map fst operation_responses = map fst wrapper_params"
  by (simp_all add: table_defs)

lemma bodies_wf: "list_all (\<lambda>(_, b). case b of None \<Rightarrow> True | Some t \<Rightarrow> wf_type t) handler_bodies"
  using body_types_wf by (simp add: table_defs body_types_def lower_def)

lemma body_of_wf: "body_of op = Some t \<Longrightarrow> wf_type t"
  using bodies_wf map_of_SomeD [of handler_bodies op "Some t"]
  by (auto simp: body_of_def members_def list_all_iff split: option.splits)

lemma responses_wf:
  "list_all (\<lambda>(_, rs). list_all (\<lambda>(_, b). case b of None \<Rightarrow> True | Some t \<Rightarrow> wf_type t) rs) operation_responses"
  using body_types_wf by (simp add: table_defs body_types_def lower_def)

lemma response_wf: "map_of (responses_of op) status = Some (Some t) \<Longrightarrow> wf_type t"
proof -
  assume t: "map_of (responses_of op) status = Some (Some t)"
  then obtain rs where "map_of operation_responses op = Some rs" "responses_of op = rs"
    by (auto simp: responses_of_def members_def split: option.splits)
  with t responses_wf show ?thesis by (fastforce simp: list_all_iff dest: map_of_SomeD)
qed

end
