(* ===== verification/Http_Api.thy ===== *)
theory Http_Api
  imports Http_Routes Http_Tables Access
begin

text \<open>
  How \<^verbatim>\<open>api/server.gen.go\<close> takes a request to an operation: the wrapper binds the parameters, the strict
  handler decodes the body, calls the middleware and the operation and writes the answer, with the error
  handlers of \<^verbatim>\<open>app/server/app.go\<close>. The router, the binding of single values and the reading of JSON text
  are libraries and therefore arguments. Shown here: a client's call arrives with its arguments, and only
  requests the middleware lets through reach an operation.
\<close>

subsection \<open>Requests and answers\<close>

record http_request =
  h_method :: string
  h_path :: string
  h_query :: "(string \<times> string list) list"
  h_headers :: "(string \<times> string list) list"
  h_body :: string

text \<open>
  An error is answered with the text \<^verbatim>\<open>{"error": ...}\<close>; a panic of the operation ends the connection
  without an answer, and an operation that never returns leaves it without one.
\<close>

datatype answer = JsonAnswer nat json | StatusOnly nat | ErrorAnswer nat string | Aborted

text \<open>
  \<^verbatim>\<open>mux.Router\<close>, \<^verbatim>\<open>runtime.BindStyledParameterWithOptions\<close> and \<^verbatim>\<open>runtime.BindQueryParameter\<close>; the first
  JSON value of a body, and the error of \<^verbatim>\<open>Decode\<close> where there is none or it is not of the type.
\<close>

record http_lib =
  route_request :: "(string \<times> string \<times> string) list \<Rightarrow> string \<Rightarrow> string \<Rightarrow> routing"
  bind_simple :: "go_type \<Rightarrow> string \<Rightarrow> string + go_val"
  bind_form :: "bool \<Rightarrow> go_type \<Rightarrow> string list \<Rightarrow> string + go_val"
  first_json :: "string \<Rightarrow> json option"
  decode_error :: "go_type \<Rightarrow> string \<Rightarrow> string"

text \<open>\<^verbatim>\<open>http.CanonicalHeaderKey\<close>, and the headers under their canonical names.\<close>

definition raise_case :: "char \<Rightarrow> char" where
  "raise_case c = (let n = (of_char c :: nat) in if 97 \<le> n \<and> n \<le> 122 then char_of (n - 32) else c)"

fun canonical_from :: "bool \<Rightarrow> string \<Rightarrow> string" where
  "canonical_from up [] = []"
| "canonical_from up (c # s) = (if up then raise_case c else lower c) # canonical_from (c = CHR ''-'') s"

definition CanonicalHeaderKey :: "string \<Rightarrow> string" where
  "CanonicalHeaderKey k = canonical_from True k"

text \<open>\<^verbatim>\<open>Header.Get\<close> and \<^verbatim>\<open>url.Values.Get\<close>: the first value, or the empty string.\<close>

definition first_value :: "(string \<times> string list) list \<Rightarrow> string \<Rightarrow> string" where
  "first_value kvs k = (case map_of kvs k of Some (s # _) \<Rightarrow> s | _ \<Rightarrow> '''')"

subsection \<open>The wrapper\<close>

definition param_or_error :: "string \<Rightarrow> string + go_val \<Rightarrow> string + string \<times> go_val" where
  "param_or_error name r =
     (case r of
        Inl e \<Rightarrow> Inl (''Invalid format for parameter '' @ name @ '': '' @ e)
      | Inr v \<Rightarrow> Inr (name, v))"

definition bind_path :: "http_lib \<Rightarrow> (string \<times> string) list \<Rightarrow> string \<Rightarrow> go_type \<Rightarrow> string + string \<times> go_val" where
  "bind_path lib vars name t = param_or_error name (bind_simple lib t (members vars name ''''))"

definition bind_query :: "http_lib \<Rightarrow> http_request \<Rightarrow> bool \<Rightarrow> string \<Rightarrow> go_type \<Rightarrow> string + string \<times> go_val" where
  "bind_query lib rq required name t =
     (if required \<and> first_value (h_query rq) name = ''''
      then Inl (''Query argument '' @ name @ '' is required, but not found'')
      else param_or_error name (bind_form lib required t (members (h_query rq) name [])))"

text \<open>An optional header parameter is kept as a pointer.\<close>

definition bind_header :: "http_lib \<Rightarrow> http_request \<Rightarrow> bool \<Rightarrow> string \<Rightarrow> go_type \<Rightarrow> string + string \<times> go_val" where
  "bind_header lib rq required name t =
     (case map_of (h_headers rq) (CanonicalHeaderKey name) of
        None \<Rightarrow>
          if required then Inl (''Header parameter '' @ name @ '' is required, but not found'')
          else Inr (name, VNil)
      | Some vs \<Rightarrow>
          if length vs \<noteq> 1 then Inl (''Expected one value for '' @ name @ '', got '' @ FormatInt (int (length vs)))
          else param_or_error name (case bind_simple lib t (hd vs) of
            Inl e \<Rightarrow> Inl e
          | Inr v \<Rightarrow> Inr (if required then v else VPtr v)))"

fun bind_param ::
    "http_lib \<Rightarrow> (string \<times> string) list \<Rightarrow> http_request \<Rightarrow> param \<Rightarrow> string + string \<times> go_val" where
  "bind_param lib vars rq (PathParam, name, t) = bind_path lib vars name t"
| "bind_param lib vars rq (QueryParam required, name, t) = bind_query lib rq required name t"
| "bind_param lib vars rq (HeaderParam required, name, t) = bind_header lib rq required name t"

fun bind_params ::
    "http_lib \<Rightarrow> (string \<times> string) list \<Rightarrow> http_request \<Rightarrow> param list \<Rightarrow> string + (string \<times> go_val) list" where
  "bind_params lib vars rq [] = Inr []"
| "bind_params lib vars rq (p # ps) =
     (case bind_param lib vars rq p of
        Inl e \<Rightarrow> Inl e
      | Inr a \<Rightarrow> (case bind_params lib vars rq ps of Inl e \<Rightarrow> Inl e | Inr args \<Rightarrow> Inr (a # args)))"

subsection \<open>The strict handler\<close>

text \<open>
  The middleware and the operations are arguments over a state of their own. An operation gives an
  error, no response, or a status with the value to encode.
\<close>

type_synonym 's middleware = "string \<Rightarrow> 's \<Rightarrow> auth_result \<times> 's"

type_synonym 's operations =
  "string \<Rightarrow> token option \<Rightarrow> (string \<times> go_val) list \<Rightarrow> go_val option \<Rightarrow> 's \<Rightarrow>
   (string + (nat \<times> go_val) option) outcome \<times> 's"

definition decode_body :: "http_lib \<Rightarrow> go_type option \<Rightarrow> string \<Rightarrow> string + go_val option" where
  "decode_body lib bt body =
     (case bt of
        None \<Rightarrow> Inr None
      | Some t \<Rightarrow>
          (case Option.bind (first_json lib body) (decode t) of
             None \<Rightarrow> Inl (''can't decode JSON body: '' @ decode_error lib t body)
           | Some v \<Rightarrow> Inr (Some v)))"

definition visit_response :: "string \<Rightarrow> nat \<Rightarrow> go_val \<Rightarrow> answer" where
  "visit_response op status v =
     (case map_of (responses_of op) status of
        None \<Rightarrow> ErrorAnswer 500 ''unexpected response type''
      | Some None \<Rightarrow> StatusOnly status
      | Some (Some t) \<Rightarrow> JsonAnswer status (encode t v))"

definition answer_operation :: "string \<Rightarrow> (string + (nat \<times> go_val) option) outcome \<Rightarrow> answer" where
  "answer_operation op r =
     (case r of
        Panic _ \<Rightarrow> Aborted
      | Return (Inl e) \<Rightarrow> ErrorAnswer 500 e
      | Return (Inr None) \<Rightarrow> StatusOnly 200
      | Return (Inr (Some (status, v))) \<Rightarrow> visit_response op status v)"

definition run_operation ::
    "'s middleware \<Rightarrow> 's operations \<Rightarrow> string \<Rightarrow> (string \<times> go_val) list \<Rightarrow> go_val option \<Rightarrow> string \<Rightarrow>
     's \<Rightarrow> answer \<times> 's" where
  "run_operation auth operate op args body header st =
     (case auth header st of
        (Refused status e, st') \<Rightarrow> (ErrorAnswer status e, st')
      | (Anonymous, st') \<Rightarrow> map_prod (answer_operation op) id (operate op None args body st')
      | (Accepted tk, st') \<Rightarrow> map_prod (answer_operation op) id (operate op (Some tk) args body st'))"

subsection \<open>The server\<close>

text \<open>
  \<^verbatim>\<open>Run\<close> registers the routes twice on the one router, the second time with wrappers that answer
  their errors with plain text; no request ever reaches those.
\<close>

definition serve ::
    "http_lib \<Rightarrow> 's middleware \<Rightarrow> 's operations \<Rightarrow> http_request \<Rightarrow> 's \<Rightarrow> answer \<times> 's" where
  "serve lib auth operate rq st =
     (case route_request lib (routes @ routes) (h_method rq) (h_path rq) of
        NoRoute \<Rightarrow> (StatusOnly 404, st)
      | WrongMethod \<Rightarrow> (StatusOnly 405, st)
      | Routed op vars \<Rightarrow>
          (case bind_params lib vars rq (params_of op) of
             Inl e \<Rightarrow> (ErrorAnswer 400 e, st)
           | Inr args \<Rightarrow>
               (case decode_body lib (body_of op) (h_body rq) of
                  Inl e \<Rightarrow> (ErrorAnswer 400 e, st)
                | Inr body \<Rightarrow>
                    run_operation auth operate op args body (first_value (h_headers rq) ''Authorization'') st)))"

subsection \<open>A client's call\<close>

text \<open>The texts a value is sent as in path, query and headers, and which parameters can carry which values.\<close>

fun text_of :: "go_val \<Rightarrow> string option" where
  "text_of (VString s) = (if s = '''' then None else Some s)"
| "text_of (VInt n) = Some (FormatInt n)"
| "text_of _ = None"

definition texts_of :: "go_val \<Rightarrow> string list option" where
  "texts_of v =
     (case v of
        VNil \<Rightarrow> Some []
      | VPtr (VSlice vs) \<Rightarrow> if vs = [] then None else those (map text_of vs)
      | VPtr u \<Rightarrow> map_option (\<lambda>s. [s]) (text_of u)
      | _ \<Rightarrow> map_option (\<lambda>s. [s]) (text_of v))"

definition simple_type :: "go_type \<Rightarrow> bool" where
  "simple_type t \<longleftrightarrow> t = TString \<or> t = TInt 64"

definition form_type :: "go_type \<Rightarrow> bool" where
  "form_type t =
     (case t of TPtr (TSlice u) \<Rightarrow> simple_type u | TPtr u \<Rightarrow> simple_type u | _ \<Rightarrow> simple_type t)"

fun sendable :: "param \<Rightarrow> go_val \<Rightarrow> bool" where
  "sendable (PathParam, name, t) v = (has_type t v \<and> (case text_of v of None \<Rightarrow> False | Some s \<Rightarrow> path_value s))"
| "sendable (QueryParam required, name, t) v =
     (has_type t v \<and> (case texts_of v of None \<Rightarrow> False | Some ss \<Rightarrow> required \<longrightarrow> ss \<noteq> []))"
| "sendable (HeaderParam required, name, t) v =
     (if required then has_type t v \<and> text_of v \<noteq> None
      else case v of VNil \<Rightarrow> True | VPtr u \<Rightarrow> has_type t u \<and> text_of u \<noteq> None | _ \<Rightarrow> False)"

text \<open>What the binding functions document: a value is bound from the texts it is written as.\<close>

definition binding_laws :: "http_lib \<Rightarrow> bool" where
  "binding_laws lib \<longleftrightarrow>
     (\<forall>t v s. simple_type t \<and> has_type t v \<and> text_of v = Some s \<longrightarrow> bind_simple lib t s = Inr v) \<and>
     (\<forall>required t v ss. form_type t \<and> has_type t v \<and> texts_of v = Some ss \<and> (required \<longrightarrow> ss \<noteq> []) \<longrightarrow>
        bind_form lib required t ss = Inr v)"

definition text_or_empty :: "go_val \<Rightarrow> string" where
  "text_or_empty v = (case text_of v of None \<Rightarrow> '''' | Some s \<Rightarrow> s)"

definition texts_or_none :: "go_val \<Rightarrow> string list" where
  "texts_or_none v = (case texts_of v of None \<Rightarrow> [] | Some ss \<Rightarrow> ss)"

fun in_path :: "param \<times> go_val \<Rightarrow> bool" where
  "in_path ((PathParam, _, _), v) = True"
| "in_path _ = False"

fun in_query :: "param \<times> go_val \<Rightarrow> bool" where
  "in_query ((QueryParam _, _, _), v) = (texts_or_none v \<noteq> [])"
| "in_query _ = False"

fun in_headers :: "param \<times> go_val \<Rightarrow> bool" where
  "in_headers ((HeaderParam _, _, _), v) = (v \<noteq> VNil)"
| "in_headers _ = False"

definition arg_name :: "param \<times> go_val \<Rightarrow> string" where
  "arg_name a = fst (snd (fst a))"

definition header_text :: "go_val \<Rightarrow> string" where
  "header_text v = text_or_empty (case v of VPtr u \<Rightarrow> u | _ \<Rightarrow> v)"

definition path_texts :: "(param \<times> go_val) list \<Rightarrow> string list" where
  "path_texts args = map (\<lambda>a. text_or_empty (snd a)) (filter in_path args)"

definition call_request ::
    "string \<Rightarrow> string \<Rightarrow> (param \<times> go_val) list \<Rightarrow> string \<Rightarrow> string \<Rightarrow> http_request" where
  "call_request m template args header body =
     \<lparr>h_method = m, h_path = path_of template (path_texts args),
      h_query = map (\<lambda>a. (arg_name a, texts_or_none (snd a))) (filter in_query args),
      h_headers = (''Authorization'', [header]) #
        map (\<lambda>a. (CanonicalHeaderKey (arg_name a), [header_text (snd a)])) (filter in_headers args),
      h_body = body\<rparr>"

subsection \<open>Calls arrive\<close>

lemma routes_clean: "list_all (\<lambda>(m, t, op). clean_path t) routes"
  by code_simp

lemma routes_bind_their_variables:
  "list_all (\<lambda>(m, t, op). map (\<lambda>p. fst (snd p)) (filter (\<lambda>p. fst p = PathParam) (params_of op)) = variables t) routes"
  by code_simp

definition bindable :: "param \<Rightarrow> bool" where
  "bindable p = (case fst p of QueryParam _ \<Rightarrow> form_type (snd (snd p)) | _ \<Rightarrow> simple_type (snd (snd p)))"

lemma wrapper_params_facts:
  "list_all (\<lambda>(_, ps). distinct (''Authorization'' # map (\<lambda>p. CanonicalHeaderKey (fst (snd p))) ps) \<and>
     list_all bindable ps) wrapper_params"
  by code_simp

lemma members_case: "members kvs k z = z \<or> (k, members kvs k z) \<in> set kvs"
  by (auto simp: members_def dest: map_of_SomeD split: option.split)

lemma params_of_facts:
  "distinct (''Authorization'' # map (\<lambda>p. CanonicalHeaderKey (fst (snd p))) (params_of op))" "list_all bindable (params_of op)"
  using wrapper_params_facts members_case [of wrapper_params op "[]"]
  unfolding params_of_def list_all_iff [of _ wrapper_params] by fastforce+

lemma lookup_mapped:
  "distinct (map k xs) \<Longrightarrow> a \<in> set xs \<Longrightarrow>
     map_of (map (\<lambda>x. (k x, g x)) (filter P xs)) (k a) = (if P a then Some (g a) else None)"
proof (induction xs)
  case (Cons x xs)
  show ?case
  proof (cases "a = x")
    case True
    have "k x \<notin> k ` set (filter P xs)" using Cons.prems by auto
    then have "map_of (map (\<lambda>x. (k x, g x)) (filter P xs)) (k x) = None"
      by (simp add: map_of_eq_None_iff image_image)
    then show ?thesis using True by simp
  next
    case False
    then have "a \<in> set xs" using Cons.prems by simp
    then have "k a \<noteq> k x" using Cons.prems(1) by (metis distinct.simps(2) image_eqI list.simps(9) set_map)
    then show ?thesis using Cons False by auto
  qed
qed simp

lemma map_of_Authorization:
  "k \<noteq> ''Authorization'' \<Longrightarrow> map_of ((''Authorization'', h) # kvs) k = map_of kvs k"
  by simp

lemma route_facts:
  assumes "(m, template, op) \<in> set routes"
  shows "clean_path template"
    and "map (\<lambda>p. fst (snd p)) (filter (\<lambda>p. fst p = PathParam) (params_of op)) = variables template"
    and "distinct (''Authorization'' # map (\<lambda>p. CanonicalHeaderKey (fst (snd p))) (params_of op))"
    and "list_all bindable (params_of op)"
  using assms routes_clean routes_bind_their_variables params_of_facts [of op]
  by (auto simp only: list_all_iff split_paired_all case_prod_conv dest!: bspec)

text \<open>A call of the operation of a route with a value for each of its parameters.\<close>

definition typed_call :: "string \<Rightarrow> string \<Rightarrow> string \<Rightarrow> (param \<times> go_val) list \<Rightarrow> bool" where
  "typed_call m template op args \<longleftrightarrow>
     (m, template, op) \<in> set routes \<and> map fst args = params_of op \<and> list_all (\<lambda>(p, v). sendable p v) args"

lemma texts_nonempty: "texts_of v = Some ss \<Longrightarrow> s \<in> set ss \<Longrightarrow> s \<noteq> []"
proof -
  have one: "text_of u = Some s \<Longrightarrow> s \<noteq> []" for u s by (cases u) (auto split: if_splits)
  have many: "those (map text_of vs) = Some ss \<Longrightarrow> s \<in> set ss \<Longrightarrow> s \<noteq> []" for vs
    by (metis one those_in)
  show "texts_of v = Some ss \<Longrightarrow> s \<in> set ss \<Longrightarrow> s \<noteq> []"
    by (auto simp: texts_of_def simp del: text_of.simps split: go_val.splits if_splits dest: many one)
qed

lemma keys:
  assumes "typed_call m template op args"
  shows "distinct (''Authorization'' # map (\<lambda>a. CanonicalHeaderKey (arg_name a)) args)"
proof -
  have "map (\<lambda>a. CanonicalHeaderKey (arg_name a)) args = map (\<lambda>p. CanonicalHeaderKey (fst (snd p))) (map fst args)"
    by (simp add: arg_name_def comp_def)
  moreover have "map fst args = params_of op" using assms by (simp add: typed_call_def)
  ultimately show ?thesis using assms route_facts(3) [of m template op] by (metis typed_call_def)
qed

lemma names: "typed_call m template op args \<Longrightarrow> distinct (map arg_name args)"
  using keys by (auto simp: distinct_map inj_on_def)

lemma in_path_kind: "in_path a \<longleftrightarrow> fst (fst a) = PathParam"
  by (cases a rule: in_path.cases) auto

lemma path_variables:
  assumes "typed_call m template op args"
  shows "variables template = map arg_name (filter in_path args)"
proof -
  have "filter (\<lambda>p. fst p = PathParam) (map fst args) = map fst (filter in_path args)"
    by (simp add: filter_map comp_def in_path_kind [abs_def])
  then show ?thesis using assms route_facts(2) [of m template op] by (simp add: typed_call_def arg_name_def [abs_def] comp_def)
qed

lemma path_vars:
  "typed_call m template op args \<Longrightarrow> zip (variables template) (path_texts args) = map (\<lambda>a. (arg_name a, text_or_empty (snd a))) (filter in_path args)"
  using path_variables [of m template op args]
  by (simp add: path_texts_def zip_map_map zip_same_conv_map)

lemma arg_kind:
  assumes call: "typed_call m template op args" and a: "a \<in> set args"
  shows "bindable (fst a) \<and> sendable (fst a) (snd a)"
proof -
  have "fst a \<in> set (params_of op)" using call a by (metis image_eqI list.set_map typed_call_def)
  then show ?thesis using call route_facts(4) [of m template op] a by (auto simp: typed_call_def list_all_iff split_beta)
qed

lemma bind_arg:
  assumes rq: "rq = call_request m template args header body" and call: "typed_call m template op args" and laws: "binding_laws lib" and a: "a \<in> set args"
  shows "bind_param lib (zip (variables template) (path_texts args)) rq (fst a) = Inr (arg_name a, snd a)"
proof -
  obtain k name t v where arg: "a = ((k, name, t), v)" by (metis prod.collapse)
  note laws = laws [unfolded binding_laws_def]
  note ok = arg_kind [OF call a, unfolded arg fst_conv snd_conv]
  show ?thesis
  proof (cases k)
    case PathParam
    from lookup_mapped [OF names [OF call] a, of "\<lambda>a. text_or_empty (snd a)" in_path]
    show ?thesis using ok laws PathParam
      by (auto simp: arg arg_name_def bindable_def path_vars [OF call] bind_path_def members_def text_or_empty_def
          param_or_error_def split: option.splits)
  next
    case (QueryParam required)
    from lookup_mapped [OF names [OF call] a, of "\<lambda>a. texts_or_none (snd a)" in_query]
    have found: "map_of (h_query rq) name = (if texts_or_none v \<noteq> [] then Some (texts_or_none v) else None)"
      using QueryParam by (simp add: rq arg arg_name_def call_request_def)
    obtain ss where ss: "texts_of v = Some ss" "required \<longrightarrow> ss \<noteq> []" "has_type t v" "form_type t"
      using ok QueryParam by (auto simp: bindable_def split: option.splits)
    then have "bind_form lib required t ss = Inr v" using laws by blast
    moreover have "members (h_query rq) name [] = ss" using found ss by (simp add: members_def texts_or_none_def)
    moreover have "first_value (h_query rq) name \<noteq> ''''" if required
      using found ss that texts_nonempty [OF ss(1)]
      by (cases ss) (auto simp: first_value_def texts_or_none_def)
    ultimately show ?thesis using QueryParam by (simp add: arg arg_name_def bind_query_def param_or_error_def)
  next
    case (HeaderParam required)
    have "CanonicalHeaderKey name \<noteq> ''Authorization''" using keys [OF call] a arg by (force simp: arg_name_def)
    then have found: "map_of (h_headers rq) (CanonicalHeaderKey name) = (if v \<noteq> VNil then Some [header_text v] else None)"
      using lookup_mapped [of "\<lambda>a. CanonicalHeaderKey (arg_name a)" args a "\<lambda>a. [header_text (snd a)]" in_headers]
        keys [OF call] a HeaderParam by (simp add: rq arg arg_name_def call_request_def)
    have bound: "bind_simple lib t s = Inr u" if "has_type t u" "text_of u = Some s" for u s
      using ok laws HeaderParam that by (simp add: bindable_def)
    show ?thesis
    proof (cases required)
      case True
      then obtain s where "text_of v = Some s" "has_type t v" using ok HeaderParam by auto
      then show ?thesis using True HeaderParam found bound [of v s]
        by (cases v) (auto simp: arg arg_name_def bind_header_def param_or_error_def header_text_def text_or_empty_def)
    next
      case False
      then consider "v = VNil" | u s where "v = VPtr u" "text_of u = Some s" "has_type t u"
        using ok HeaderParam by (auto split: go_val.splits)
      then show ?thesis using False HeaderParam found bound
        by cases (simp_all add: arg arg_name_def bind_header_def param_or_error_def header_text_def text_or_empty_def)
    qed
  qed
qed

lemma bind_params_all:
  "(\<And>a. a \<in> set args \<Longrightarrow> bind_param lib vars rq (fst a) = Inr (arg_name a, snd a)) \<Longrightarrow>
     bind_params lib vars rq (map fst args) = Inr (map (\<lambda>a. (arg_name a, snd a)) args)"
  by (induction args) auto

lemma filled_clean:
  assumes "clean_path template" and "list_all path_value vals"
  shows "clean_path (path_of template vals)"
proof -
  obtain segs where segs: "segments template = '''' # segs" "segs \<noteq> []"
    "list_all (\<lambda>s. s \<noteq> '''' \<and> s \<noteq> ''.'' \<and> s \<noteq> ''..'') segs"
    using assms(1) by (auto simp: clean_path_def segments_def split: list.splits)
  have "fill (segments template) vals = '''' # fill segs vals" using segs(1) by (simp add: variable_def)
  moreover have "s \<noteq> '''' \<and> s \<noteq> ''.'' \<and> s \<noteq> ''..''" if "s \<in> set (fill segs vals)" for s
    using fill_parts [OF that] segs(3) assms(2) by (auto simp: list_all_iff path_value_def)
  moreover have "fill segs vals \<noteq> []" using segs(2) fill_length [of segs vals] by (metis length_0_conv)
  ultimately show ?thesis
    using segments_path [OF assms(2), of template] by (simp add: clean_path_def list_all_iff)
qed

lemma call_path_values:
  assumes "typed_call m template op args"
  shows "list_all path_value (path_texts args)"
proof -
  have "path_value (text_or_empty (snd a))" if "a \<in> set args" "in_path a" for a
    using arg_kind [OF assms that(1)] that(2)
    by (cases a rule: in_path.cases) (auto simp: text_or_empty_def split: option.splits)
  then show ?thesis by (auto simp: path_texts_def list_all_iff)
qed

lemma call_is_routed:
  assumes laws: "mux_laws (route_request lib)" and call: "typed_call m template op args"
    and other: "op = ''GetInvocationById'' \<Longrightarrow> path_texts args \<noteq> [''next'']"
  shows "route_request lib (routes @ extra) m (path_of template (path_texts args)) =
    Routed op (zip (variables template) (path_texts args))"
proof -
  have route: "(m, template, op) \<in> set routes" using call by (simp add: typed_call_def)
  note vals = call_path_values [OF call]
  have "length (path_texts args) = length (variables template)"
    by (simp add: path_variables [OF call] path_texts_def)
  with route have "first_route (routes @ extra) m (path_of template (path_texts args)) =
      Some (op, zip (variables template) (path_texts args))"
    by (rule first_route_of_path) (use vals other in \<open>auto simp: reachable_values_def\<close>)
  moreover have "clean_path (path_of template (path_texts args))"
    by (rule filled_clean [OF route_facts(1) [OF route] vals])
  ultimately show ?thesis using laws by (simp add: mux_laws_def)
qed

text \<open>The body a client sends for a value, as the text library reads it.\<close>

definition body_carries :: "http_lib \<Rightarrow> go_type option \<Rightarrow> string \<Rightarrow> go_val option \<Rightarrow> bool" where
  "body_carries lib bt body v \<longleftrightarrow>
     (case bt of
        None \<Rightarrow> v = None
      | Some t \<Rightarrow>
          (case v of
             None \<Rightarrow> False
           | Some w \<Rightarrow> has_type t w \<and> solid t w \<and> first_json lib body = Some (encode t w)))"

lemma body_arrives:
  assumes "body_carries lib (body_of op) body v"
  shows "decode_body lib (body_of op) body = Inr v"
proof (cases "body_of op")
  case (Some t)
  then show ?thesis using assms decode_encode [OF body_of_wf [OF Some]]
    by (auto simp: body_carries_def decode_body_def decode_def split: option.splits)
qed (use assms in \<open>simp add: body_carries_def decode_body_def\<close>)

lemma call_reaches:
  assumes "mux_laws (route_request lib)" and "binding_laws lib" and "typed_call m template op args"
    and "op = ''GetInvocationById'' \<Longrightarrow> path_texts args \<noteq> [''next'']"
    and "body_carries lib (body_of op) body v"
  shows "serve lib auth operate (call_request m template args header body) st =
    run_operation auth operate op (map (\<lambda>a. (arg_name a, snd a)) args) v header st"
proof -
  let ?rq = "call_request m template args header body"
  have "bind_params lib (zip (variables template) (path_texts args)) ?rq (map fst args) =
      Inr (map (\<lambda>a. (arg_name a, snd a)) args)"
    using bind_params_all bind_arg [OF refl assms(3) assms(2)] by blast
  moreover have "map fst args = params_of op" using assms(3) by (simp add: typed_call_def)
  ultimately show ?thesis
    using call_is_routed [OF assms(1, 3, 4), of routes] body_arrives [OF assms(5)]
    by (simp add: serve_def call_request_def first_value_def)
qed

text \<open>What a client makes of an answer whose status it knows the type of.\<close>

definition read_answer :: "string \<Rightarrow> answer \<Rightarrow> (nat \<times> go_val) option" where
  "read_answer op a =
     (case a of
        JsonAnswer status j \<Rightarrow>
          (case map_of (responses_of op) status of
             Some (Some t) \<Rightarrow> map_option (Pair status) (decode t j)
           | _ \<Rightarrow> None)
      | StatusOnly status \<Rightarrow> Some (status, VNil)
      | _ \<Rightarrow> None)"

lemma read_visited:
  assumes "map_of (responses_of op) status = Some bt"
    and "case bt of None \<Rightarrow> w = VNil | Some t \<Rightarrow> has_type t w \<and> solid t w"
  shows "read_answer op (visit_response op status w) = Some (status, w)"
proof (cases bt)
  case (Some t)
  then have "decode t (encode t w) = Some w"
    using assms decode_encode [OF response_wf [of op status t]] by (simp add: decode_def)
  then show ?thesis using Some assms(1) by (simp add: read_answer_def visit_response_def)
qed (use assms in \<open>simp add: read_answer_def visit_response_def\<close>)


subsection \<open>A library that keeps the laws\<close>

definition plain_mux :: "(string \<times> string \<times> string) list \<Rightarrow> string \<Rightarrow> string \<Rightarrow> routing" where
  "plain_mux rs m p =
     (case first_route rs m p of
        Some (op, vars) \<Rightarrow> Routed op vars
      | None \<Rightarrow> if list_ex (\<lambda>r. match_path (fst (snd r)) p \<noteq> None) rs then WrongMethod else NoRoute)"

definition plain_simple :: "go_type \<Rightarrow> string \<Rightarrow> string + go_val" where
  "plain_simple t s =
     (case t of
        TString \<Rightarrow> Inr (VString s)
      | TInt w \<Rightarrow> (case ParseInt w s of None \<Rightarrow> Inl ''not an integer'' | Some n \<Rightarrow> Inr (VInt n))
      | _ \<Rightarrow> Inl ''not a simple type'')"

fun plain_slice :: "go_type \<Rightarrow> string list \<Rightarrow> string + go_val list" where
  "plain_slice t [] = Inr []"
| "plain_slice t (s # ss) =
     (case plain_simple t s of
        Inl e \<Rightarrow> Inl e
      | Inr v \<Rightarrow> (case plain_slice t ss of Inl e \<Rightarrow> Inl e | Inr vs \<Rightarrow> Inr (v # vs)))"

definition plain_form :: "bool \<Rightarrow> go_type \<Rightarrow> string list \<Rightarrow> string + go_val" where
  "plain_form required t ss =
     (case ss of
        [] \<Rightarrow> Inr VNil
      | s # _ \<Rightarrow>
          (case t of
             TPtr (TSlice u) \<Rightarrow>
               (case plain_slice u ss of Inl e \<Rightarrow> Inl e | Inr vs \<Rightarrow> Inr (VPtr (VSlice vs)))
           | TPtr u \<Rightarrow> (case plain_simple u s of Inl e \<Rightarrow> Inl e | Inr v \<Rightarrow> Inr (VPtr v))
           | _ \<Rightarrow> plain_simple t s))"

definition plain_lib :: "(string \<Rightarrow> json option) \<Rightarrow> http_lib" where
  "plain_lib reader =
     \<lparr>route_request = plain_mux, bind_simple = plain_simple, bind_form = plain_form, first_json = reader,
      decode_error = (\<lambda>_ _. ''invalid'')\<rparr>"

lemma plain_mux_laws: "mux_laws plain_mux"
  by (simp add: mux_laws_def plain_mux_def)

lemma plain_simple_text: "simple_type t \<Longrightarrow> has_type t v \<Longrightarrow> text_of v = Some s \<Longrightarrow> plain_simple t s = Inr v"
  by (auto simp: simple_type_def plain_simple_def in_width_def ParseInt_FormatInt split: go_val.splits if_splits)

lemma plain_slice_texts:
  "simple_type t \<Longrightarrow> list_all (has_type t) vs \<Longrightarrow> those (map text_of vs) = Some ss \<Longrightarrow> plain_slice t ss = Inr vs"
  by (induction vs arbitrary: ss) (auto simp: plain_simple_text split: option.splits)

lemma plain_form_texts:
  assumes "form_type t" and "has_type t v" and "texts_of v = Some ss" and "required \<longrightarrow> ss \<noteq> []"
  shows "plain_form required t ss = Inr v"
proof -
  have ss: "those (map text_of vs) = Some ss \<Longrightarrow> vs \<noteq> [] \<Longrightarrow> ss \<noteq> []" for vs
    by (cases vs) (auto split: option.splits)
  consider "simple_type t" | u where "t = TPtr u" "simple_type u" | u where "t = TPtr (TSlice u)" "simple_type u"
    using assms(1) by (auto simp: form_type_def split: go_type.splits)
  then show ?thesis
  proof cases
    case 1
    then have "text_of v = Some (hd ss)" "ss = [hd ss]" using assms(2, 3)
      by (auto simp: simple_type_def texts_of_def split: go_val.splits if_splits)
    then show ?thesis using plain_simple_text [OF 1 assms(2)] 1
      by (cases ss) (auto simp: plain_form_def simple_type_def)
  next
    case 2
    show ?thesis
    proof (cases v)
      case VNil
      then show ?thesis using assms(3) by (simp add: texts_of_def plain_form_def)
    next
      case (VPtr w)
      then have "has_type u w" using assms(2) 2 by simp
      moreover then have "text_of w = Some (hd ss)" "ss = [hd ss]" using assms(3) VPtr 2
        by (auto simp: simple_type_def texts_of_def split: go_val.splits if_splits)
      ultimately show ?thesis using plain_simple_text [OF 2(2)] VPtr 2
        by (cases ss) (auto simp: plain_form_def simple_type_def)
    qed (use assms(2) 2 in auto)
  next
    case 3
    show ?thesis
    proof (cases v)
      case VNil
      then show ?thesis using assms(3) by (simp add: texts_of_def plain_form_def)
    next
      case (VPtr w)
      show ?thesis
      proof (cases w)
        case VNil
        then show ?thesis using assms(3) VPtr by (simp add: texts_of_def)
      next
        case (VSlice vs)
        then have "list_all (has_type u) vs" "those (map text_of vs) = Some ss" "vs \<noteq> []"
          using assms(2, 3) VPtr 3 by (auto simp: texts_of_def split: if_splits)
        then have "plain_slice u ss = Inr vs" "ss \<noteq> []" using plain_slice_texts [OF 3(2)] ss by auto
        then show ?thesis using VPtr VSlice 3
          by (cases ss) (simp_all add: plain_form_def del: plain_slice.simps)
      qed (use assms(2) 3 VPtr in auto)
    qed (use assms(2) 3 in auto)
  qed
qed

lemma plain_lib_laws: "mux_laws (route_request (plain_lib reader))" "binding_laws (plain_lib reader)"
  by (simp_all add: plain_lib_def plain_mux_laws binding_laws_def plain_simple_text plain_form_texts)

definition sample_body :: string where
  "sample_body = ''{...}''"

definition sample_lib :: http_lib where
  "sample_lib =
     plain_lib (\<lambda>s. if s = sample_body then Some (encode AdminPublishDeploymentJSONBody_t sample_user_val) else None)"

definition sample_args :: "(param \<times> go_val) list" where
  "sample_args = [((PathParam, ''id'', TInt 64), VInt 7)]"

definition sample_operations :: "bool operations" where
  "sample_operations op tok args body st = (Return (Inr (Some (201, VNil))), args = [(''id'', VInt 7)])"


end
