(* ===== verification/Server.thy ===== *)
theory Server
  imports Http_Api Actor_Admin Deployment_Admin Listings
begin

text \<open>
  The server as \<^verbatim>\<open>app/server/app.go\<close> puts it together: the generated HTTP layer, the bearer middleware and
  \<^verbatim>\<open>APIHandler\<close> of \<^verbatim>\<open>handler/handler.go\<close>. The operations that only need the database are those of the
  component theories, with the arguments they read from parameters and body and the values they build
  their answers from; the others are an argument. Shown here: the database changes only for callers whose
  token was issued with the permission, every answer is a declared one, and a created token works.
\<close>

subsection \<open>Reading arguments and bodies\<close>

text \<open>A missing field of a decoded struct does not occur; pointers are options, nil slices \<open>None\<close>.\<close>

type_synonym fields = "(string \<times> go_val) list"

fun as_text :: "go_val \<Rightarrow> string" where
  "as_text (VString s) = s"
| "as_text _ = ''''"

fun as_int :: "go_val \<Rightarrow> int" where
  "as_int (VInt n) = n"
| "as_int _ = 0"

fun as_bool :: "go_val \<Rightarrow> bool" where
  "as_bool (VBool b) = b"
| "as_bool _ = False"

fun as_list :: "(go_val \<Rightarrow> 'a) \<Rightarrow> go_val \<Rightarrow> 'a list option" where
  "as_list f (VSlice vs) = Some (map f vs)"
| "as_list f _ = None"

fun as_map :: "go_val \<Rightarrow> smap" where
  "as_map (VMap kvs) = map (\<lambda>kv. (fst kv, as_text (snd kv))) kvs"
| "as_map _ = []"

fun as_ptr :: "(go_val \<Rightarrow> 'a) \<Rightarrow> go_val \<Rightarrow> 'a option" where
  "as_ptr f (VPtr v) = Some (f v)"
| "as_ptr f _ = None"

definition get :: "fields \<Rightarrow> string \<Rightarrow> go_val" where
  "get fs n = members fs n VNil"

subsection \<open>Building answers\<close>

fun ptr_val :: "('a \<Rightarrow> go_val) \<Rightarrow> 'a option \<Rightarrow> go_val" where
  "ptr_val f None = VNil"
| "ptr_val f (Some x) = VPtr (f x)"

definition texts_val :: "string list \<Rightarrow> go_val" where
  "texts_val ss = VSlice (map VString ss)"

text \<open>Go maps are kept by falling precedence of their keys, and encoded in the order of the keys.\<close>

definition map_val :: "('a \<Rightarrow> go_val) \<Rightarrow> (string \<times> 'a) list \<Rightarrow> go_val" where
  "map_val f m = VMap (foldr (\<lambda>kv acc. put (fst kv) (f (snd kv)) acc) m [])"

fun any_map_val :: "json \<Rightarrow> go_val" where
  "any_map_val (JObj kvs) = map_val (\<lambda>j. VAny (go_value j)) kvs"
| "any_map_val _ = VNil"

definition actor_val :: "actor \<Rightarrow> nat \<Rightarrow> bool \<Rightarrow> go_val" where
  "actor_val a tokens renameable =
     VStruct
       [(''configurable'', VBool (a_configurable a)), (''created_at'', VInt (a_created_at a)),
        (''deployable'', VBool (a_deployable a)), (''enabled'', VBool (a_enabled a)), (''id'', VInt (a_id a)),
        (''mcp_enabled'', VBool (a_mcp_enabled a)), (''migratable'', VBool (a_migratable a)),
        (''name'', VString (a_name a)), (''permissions'', texts_val (a_permissions a)),
        (''renameable'', VBool renameable), (''role'', VString (role_text (a_role a))),
        (''token_count'', VInt (int tokens))]"

definition token_val :: "api_token \<Rightarrow> go_val" where
  "token_val t =
     VStruct
       [(''actor_id'', VInt (t_actor_id t)), (''created_at'', VInt (t_created_at t)),
        (''created_by'', VString (t_created_by t)), (''expire_at'', VInt (t_expire_at t)), (''id'', VString (t_id t)),
        (''permissions'', texts_val (t_permissions t))]"

definition config_val :: "config \<times> actor \<times> smap \<Rightarrow> go_val" where
  "config_val = (\<lambda>(c, a, content).
     VStruct
       [(''actor_id'', VInt (c_actor_id c)), (''actor_name'', VString (a_name a)),
        (''content'', map_val VString content), (''created_at'', VInt (c_created_at c)),
        (''created_by'', VString (c_created_by c)), (''id'', VInt (c_id c)),
        (''min_actor_version'', ptr_val VString (SerializeActorVersion (from_ptr_or (c_min_actor_version c) []))),
        (''updated_at'', ptr_val VInt (c_updated_at c)), (''updated_by'', ptr_val VString (c_updated_by c))])"

definition setting_val :: "setting_fields \<Rightarrow> go_val" where
  "setting_val s =
     VStruct
       [(''deployment_approve_required'', VBool (from_ptr_or (st_approve_required s) False)),
        (''display_name'', VString (from_ptr_or (st_display_name s) '''')),
        (''enable_secrets_backup'', VBool (from_ptr_or (st_secrets_backup s) False)),
        (''secrets_backup_bucket'', ptr_val VString (st_bucket s)),
        (''secrets_backup_prefix'', ptr_val VString (st_prefix s)),
        (''secrets_backup_public_key'', ptr_val VString (st_public_key s))]"

text \<open>A deployment as the handlers show it; each says which optional fields it fills in.\<close>

definition deployment_val :: "deployment \<Rightarrow> json option \<Rightarrow> int option \<Rightarrow> go_val" where
  "deployment_val x notes suite =
     VStruct
       [(''approved_at'', ptr_val VInt (d_approved_at x)), (''approved_by'', ptr_val VString (d_approved_by x)),
        (''config_suite_id'', ptr_val VInt suite), (''created_at'', VInt (d_created_at x)),
        (''created_by'', VString (d_created_by x)), (''finished_at'', ptr_val VInt (d_finished_at x)),
        (''finished_by'', ptr_val VString (d_finished_by x)), (''id'', VInt (d_id x)), (''name'', VString (d_name x)),
        (''notes'', ptr_val any_map_val notes), (''reviewers'', texts_val (d_reviewers x)),
        (''status'', VString (status_text (d_status x)))]"

definition item_val :: "deployment_item \<Rightarrow> go_val" where
  "item_val x =
     VStruct
       [(''approved_at'', ptr_val VInt (di_approved_at x)), (''approved_by'', ptr_val VString (di_approved_by x)),
        (''config_suite_id'', VNil), (''created_at'', VInt (di_created_at x)),
        (''created_by'', VString (di_created_by x)), (''finished_at'', ptr_val VInt (di_finished_at x)),
        (''finished_by'', ptr_val VString (di_finished_by x)), (''id'', VInt (di_id x)), (''name'', VString (di_name x)),
        (''notes'', ptr_val any_map_val (di_notes x)), (''reviewers'', texts_val (di_reviewers x)),
        (''status'', VString (status_text (di_status x)))]"

definition view_val :: "config_view \<Rightarrow> go_val" where
  "view_val v =
     VStruct
       [(''actor_id'', VInt (cv_actor_id v)), (''actor_name'', VString (cv_actor_name v)),
        (''content'', map_val VString (cv_content v)), (''created_at'', VInt (cv_created_at v)),
        (''created_by'', VString (cv_created_by v)), (''id'', VInt (cv_id v)),
        (''min_actor_version'', ptr_val VString (cv_min_actor_version v)), (''updated_at'', VNil), (''updated_by'', VNil)]"

definition detail_val :: "deployment_detail \<Rightarrow> go_val" where
  "detail_val x =
     VStruct
       [(''approved_at'', ptr_val VInt (dd_approved_at x)), (''approved_by'', ptr_val VString (dd_approved_by x)),
        (''configs'', ptr_val (\<lambda>cs. VSlice (map view_val cs)) (dd_configs x)), (''created_at'', VInt (dd_created_at x)),
        (''created_by'', VString (dd_created_by x)), (''finished_at'', ptr_val VInt (dd_finished_at x)),
        (''finished_by'', ptr_val VString (dd_finished_by x)), (''id'', VInt (dd_id x)), (''name'', VString (dd_name x)),
        (''notes'', ptr_val any_map_val (dd_notes x)), (''reviewers'', texts_val (dd_reviewers x)),
        (''status'', VString (status_text (dd_status x)))]"

definition result_val :: "DeploymentStatus \<times> string option \<times> json \<Rightarrow> go_val" where
  "result_val = (\<lambda>(status, last_error, logs).
     VStruct
       [(''error'', ptr_val VString last_error),
        (''logs'', VPtr (case logs of JObj kvs \<Rightarrow> map_val any_map_val kvs | _ \<Rightarrow> VNil)),
        (''status'', VString (status_text status))])"

definition data_val :: "go_val \<Rightarrow> go_val" where
  "data_val v = VStruct [(''data'', v)]"

definition page_val :: "('a \<Rightarrow> go_val) \<Rightarrow> 'a list \<times> int \<Rightarrow> go_val" where
  "page_val f = (\<lambda>(rows, pages).
     VStruct [(''data'', VSlice (map f rows)), (''meta'', VStruct [(''total_pages'', VInt pages)])])"

definition error_val :: "string \<Rightarrow> go_val" where
  "error_val e = VStruct [(''error'', VString e)]"

text \<open>The response object of a reply; \<open>ok\<close> is the status of the operation's success.\<close>

type_synonym response = "(string + (nat \<times> go_val) option) outcome"

definition respond :: "nat \<Rightarrow> ('a \<Rightarrow> go_val) \<Rightarrow> 'a reply \<Rightarrow> response" where
  "respond ok f r = Return (Inr (Some
     (case r of
        Success x \<Rightarrow> (ok, f x)
      | BadRequest e \<Rightarrow> (400, error_val e)
      | Unauthorized \<Rightarrow> (401, VNil)
      | NotFound \<Rightarrow> (404, VNil)
      | Conflict \<Rightarrow> (409, VNil)
      | ServerError e \<Rightarrow> (500, error_val e))))"

definition respond_outcome :: "nat \<Rightarrow> ('a \<Rightarrow> go_val) \<Rightarrow> 'a reply outcome \<Rightarrow> response" where
  "respond_outcome ok f r = (case r of Panic e \<Rightarrow> Panic e | Return a \<Rightarrow> respond ok f a)"

definition empty_body :: "unit \<Rightarrow> go_val" where
  "empty_body u = VNil"


subsection \<open>The operations over the database\<close>

text \<open>
  What an operation meets beside its request: the second, faults of the database calls, the text
  \<^verbatim>\<open>GenerateAPIToken\<close> would draw, and the database server's collation, matching and JSON parser.
\<close>

record api_env =
  env_now :: int
  env_faults :: faults
  env_drawn :: string
  env_collate :: "string \<Rightarrow> string"
  env_ilike :: "string \<Rightarrow> string \<Rightarrow> bool"
  env_parse :: "string \<Rightarrow> json option"

text \<open>A role the enum does not have fails the statement that uses it, the \<open>k\<close>-th of the handler.\<close>

definition all_roles :: "ActorRole list" where
  "all_roles = [ActorRoleAgent, ActorRoleService, ActorRolePortal, ActorRoleUser, ActorRoleOther]"

definition role_of :: "string \<Rightarrow> ActorRole option" where
  "role_of s = find (\<lambda>r. role_text r = s) all_roles"

definition enum_fault :: "string \<Rightarrow> nat \<Rightarrow> faults \<Rightarrow> faults" where
  "enum_fault role k flt =
     (\<lambda>i. if i = k \<and> flt i = None \<and> role_of role = None
          then Some (''invalid input value for enum actor_role: '' @ role) else flt i)"

definition actor_create_of :: "fields \<Rightarrow> actor_create" where
  "actor_create_of b =
     \<lparr>ac_name = as_text (get b ''name''),
      ac_role = from_ptr_or (role_of (as_text (get b ''role''))) ActorRoleOther,
      ac_enabled = as_ptr as_bool (get b ''enabled''), ac_deployable = as_ptr as_bool (get b ''deployable''),
      ac_configurable = as_ptr as_bool (get b ''configurable''), ac_migratable = as_ptr as_bool (get b ''migratable''),
      ac_mcp_enabled = as_ptr as_bool (get b ''mcp_enabled''), ac_permissions = as_list as_text (get b ''permissions'')\<rparr>"

definition actor_update_of :: "fields \<Rightarrow> actor_update_params" where
  "actor_update_of b =
     \<lparr>au_name = as_ptr as_text (get b ''name''),
      au_role = Option.bind (as_ptr as_text (get b ''role'')) role_of,
      au_enabled = as_ptr as_bool (get b ''enabled''), au_deployable = as_ptr as_bool (get b ''deployable''),
      au_configurable = as_ptr as_bool (get b ''configurable''), au_migratable = as_ptr as_bool (get b ''migratable''),
      au_mcp_enabled = as_ptr as_bool (get b ''mcp_enabled''),
      au_permissions = map_option (\<lambda>ss. from_ptr_or ss []) (as_ptr (as_list as_text) (get b ''permissions''))\<rparr>"

definition actor_method ::
    "api_env \<Rightarrow> operation \<Rightarrow> fields \<Rightarrow> fields \<Rightarrow> db \<Rightarrow> response \<times> db" where
  "actor_method env op args b d =
     (let flt = env_faults env; now = env_now env; aid = as_int (get args ''id'')
      in case op of
           OpAdminListActors \<Rightarrow>
             (respond_outcome 200 (page_val (\<lambda>(a, tokens, renameable). actor_val a tokens renameable))
                (ListActors (env_collate env) flt (as_ptr as_int (get args ''page'')) (as_ptr as_int (get args ''page_size'')) d), d)
         | OpAdminCreateActor \<Rightarrow>
             apfst (respond 201 (\<lambda>a. actor_val a 0 True))
               (CreateActor (enum_fault (as_text (get b ''role'')) 2 flt) now (actor_create_of b) d)
         | OpAdminGetActor \<Rightarrow>
             (respond 200 (\<lambda>(a, tokens, renameable). data_val (actor_val a tokens renameable)) (GetActor flt aid d), d)
         | OpAdminUpdateActor \<Rightarrow>
             apfst (respond 200 (\<lambda>a. data_val (actor_val a 0 False)))
               (UpdateActor
                  (case as_ptr as_text (get b ''role'') of None \<Rightarrow> flt | Some r \<Rightarrow> enum_fault r 0 flt)
                  aid (actor_update_of b) d)
         | OpAdminDeleteActor \<Rightarrow> apfst (respond 200 empty_body) (DeleteActor flt aid d)
         | _ \<Rightarrow>
             (respond 200 (\<lambda>rows. data_val (VSlice (map (\<lambda>(i, n). VStruct [(''id'', VString i), (''name'', VString n)]) rows)))
                (GetMCPServers flt d), d))"

definition setting_of :: "fields \<Rightarrow> setting_fields" where
  "setting_of b =
     \<lparr>st_display_name = as_ptr as_text (get b ''display_name''),
      st_approve_required = as_ptr as_bool (get b ''deployment_approve_required''),
      st_secrets_backup = as_ptr as_bool (get b ''enable_secrets_backup''),
      st_public_key = as_ptr as_text (get b ''secrets_backup_public_key''),
      st_bucket = as_ptr as_text (get b ''secrets_backup_bucket''),
      st_prefix = as_ptr as_text (get b ''secrets_backup_prefix'')\<rparr>"

definition token_method ::
    "api_env \<Rightarrow> operation \<Rightarrow> fields \<Rightarrow> fields \<Rightarrow> db \<Rightarrow> response \<times> db" where
  "token_method env op args b d =
     (let flt = env_faults env; now = env_now env
      in case op of
           OpAdminListApiTokens \<Rightarrow>
             (respond_outcome 200 (page_val (\<lambda>(t, a). token_val t))
                (ListApiTokens (env_collate env) flt (as_ptr as_int (get args ''actor_id''))
                   (as_ptr as_int (get args ''page'')) (as_ptr as_int (get args ''page_size'')) d), d)
         | OpAdminCreateApiToken \<Rightarrow>
             apfst (respond 201 token_val)
               (CreateApiToken flt now (env_drawn env) (as_int (get b ''actor_id'')) (as_text (get b ''created_by''))
                  (as_int (get b ''expire_at'')) (as_list as_text (get b ''permissions'')) d)
         | OpAdminDeleteApiToken \<Rightarrow> apfst (respond 204 empty_body) (DeleteApiToken flt (as_text (get args ''id'')) d)
         | OpAdminUpdateConfig \<Rightarrow>
             apfst (respond_outcome 200 (\<lambda>c. data_val (config_val c)))
               (UpdateConfig flt now (as_int (get args ''id'')) (as_text (get b ''user''))
                  (as_ptr as_map (get b ''content'')) d)
         | OpAdminGetSetting \<Rightarrow> (respond 200 setting_val (GetSetting flt d), d)
         | _ \<Rightarrow> apfst (respond 200 empty_body) (UpdateSetting flt (Some (setting_of b)) d))"

definition list_params_of :: "fields \<Rightarrow> list_params" where
  "list_params_of args =
     \<lparr>lp_reviewer = as_ptr as_text (get args ''reviewer''), lp_status = as_ptr as_text (get args ''status''),
      lp_name = as_ptr as_text (get args ''name''), lp_id = Option.bind (as_ptr (as_list as_int) (get args ''id'')) id,
      lp_sort_by = as_ptr as_text (get args ''sort_by''), lp_sort_order = as_ptr as_text (get args ''sort_order'')\<rparr>"

definition reviewers_of :: "fields \<Rightarrow> string list option" where
  "reviewers_of b = Option.bind (as_ptr (as_list as_text) (get b ''reviewers'')) id"

definition deployment_method ::
    "api_env \<Rightarrow> operation \<Rightarrow> fields \<Rightarrow> fields \<Rightarrow> db \<Rightarrow> response \<times> db" where
  "deployment_method env op args b d =
     (let flt = env_faults env; now = env_now env; did = as_int (get args ''id'')
      in case op of
           OpAdminListDeployments \<Rightarrow>
             (respond 200
                (\<lambda>(xs, total, page, page_size). VStruct [(''data'', VSlice (map item_val xs)),
                   (''meta'', VStruct [(''page'', VInt page), (''page_size'', VInt page_size), (''total'', VInt total)])])
                (ListDeployments (env_collate env) (env_ilike env) flt (list_params_of args)
                   (as_ptr as_int (get args ''page'')) (as_ptr as_int (get args ''page_size'')) d), d)
         | OpAdminGetDeployment \<Rightarrow> (respond_outcome 200 detail_val (GetDeployment flt did d), d)
         | OpAdminGetDeploymentResult \<Rightarrow> (respond 200 result_val (GetDeploymentResult flt did d), d)
         | OpAdminCreateDeployment \<Rightarrow>
             apfst (respond 201 (\<lambda>x. data_val (deployment_val x None (d_config_suite_id x))))
               (CreateDeployment flt now (as_text (get b ''name'')) (as_text (get b ''user'')) (reviewers_of b)
                  (as_ptr as_int (get b ''clone_from'')) d)
         | OpAdminUpdateDeployment \<Rightarrow>
             apfst (respond 200 (\<lambda>x. data_val (deployment_val x (deserializeNotes (d_notes x)) (d_config_suite_id x))))
               (UpdateDeployment flt did (as_ptr as_text (get b ''name'')) (reviewers_of b) d)
         | OpAdminSubmitDeployment \<Rightarrow> apfst (respond 200 empty_body) (SubmitDeployment flt did d)
         | OpAdminRejectDeployment \<Rightarrow>
             apfst (respond_outcome 201 empty_body)
               (RejectDeployment flt (env_parse env) now did (Some (as_text (get b ''user''), as_text (get b ''reason''))) d)
         | _ \<Rightarrow> apfst (respond 200 empty_body) (DeleteDeployment flt did d))"

subsection \<open>APIHandler\<close>

text \<open>The operations that check a permission, with the names the HTTP layer knows them by.\<close>

definition actor_operations :: "(string \<times> operation) list" where
  "actor_operations =
     [(''AdminListActors'', OpAdminListActors), (''AdminCreateActor'', OpAdminCreateActor),
      (''AdminGetActor'', OpAdminGetActor), (''AdminUpdateActor'', OpAdminUpdateActor),
      (''AdminDeleteActor'', OpAdminDeleteActor), (''GetMCPServers'', OpGetMCPServers)]"

definition token_operations :: "(string \<times> operation) list" where
  "token_operations =
     [(''AdminListApiTokens'', OpAdminListApiTokens), (''AdminCreateApiToken'', OpAdminCreateApiToken),
      (''AdminDeleteApiToken'', OpAdminDeleteApiToken), (''AdminUpdateConfig'', OpAdminUpdateConfig),
      (''AdminGetSetting'', OpAdminGetSetting), (''AdminUpdateSetting'', OpAdminUpdateSetting)]"

definition deployment_operations :: "(string \<times> operation) list" where
  "deployment_operations =
     [(''AdminListDeployments'', OpAdminListDeployments), (''AdminGetDeployment'', OpAdminGetDeployment),
      (''AdminGetDeploymentResult'', OpAdminGetDeploymentResult), (''AdminCreateDeployment'', OpAdminCreateDeployment),
      (''AdminUpdateDeployment'', OpAdminUpdateDeployment), (''AdminSubmitDeployment'', OpAdminSubmitDeployment),
      (''AdminRejectDeployment'', OpAdminRejectDeployment), (''AdminDeleteDeployment'', OpAdminDeleteDeployment)]"

definition remote_operations :: "(string \<times> operation) list" where
  "remote_operations =
     [(''CreateInvocationAsync'', OpCreateInvocationAsync), (''CreateInvocationSync'', OpCreateInvocationSync),
      (''GetInvocationById'', OpGetInvocationById), (''GetNextInvocation'', OpGetNextInvocation),
      (''ReturnInvocationResponse'', OpReturnInvocationResponse), (''ReturnInvocationError'', OpReturnInvocationError),
      (''CreateCompletion'', OpCreateCompletion), (''ListCompletionModels'', OpListCompletionModels),
      (''AdminPublishDeployment'', OpAdminPublishDeployment), (''AdminRestartDeployment'', OpAdminRestartDeployment),
      (''AdminListPodMetrics'', OpAdminListPodMetrics),
      (''AdminListReferenceConfigSuites'', OpAdminListReferenceConfigSuites),
      (''AdminSyncReferenceConfigSuites'', OpAdminSyncReferenceConfigSuites), (''AdminListSecrets'', OpAdminListSecrets),
      (''AdminUpdateSecret'', OpAdminUpdateSecret), (''AdminDeleteSecret'', OpAdminDeleteSecret)]"

text \<open>Operations that panic, and those that give an error, for every caller.\<close>

definition panicking_operations :: "string list" where
  "panicking_operations =
     [''ListEmbeddingModels'', ''CreateEmbedding'', ''CreateRerank'', ''ListRerankModels'', ''ListCollection'',
      ''CreateCollection'', ''QueryCollection'', ''UpsertCollection'', ''ListVectoreStores'']"

definition failing_operations :: "string list" where
  "failing_operations = [''InitializeMCPSession'', ''ReadMCPMessage'', ''SendMCPResponse'', ''SendMCPMessage'']"

type_synonym remote = "operation \<Rightarrow> token \<Rightarrow> fields \<Rightarrow> fields \<Rightarrow> db \<Rightarrow> response \<times> db"

definition checked ::
    "(operation \<Rightarrow> token \<Rightarrow> db \<Rightarrow> response \<times> db) \<Rightarrow> operation \<Rightarrow> token option \<Rightarrow> db \<Rightarrow> response \<times> db" where
  "checked run op tok d =
     (case ValidatePermissions tok (checked_id op) of
        None \<Rightarrow> (Return (Inr (Some (401, VNil))), d)
      | Some tk \<Rightarrow> run op tk d)"

definition api_operation ::
    "api_env \<Rightarrow> remote \<Rightarrow> string \<Rightarrow> token option \<Rightarrow> fields \<Rightarrow> go_val option \<Rightarrow> db \<Rightarrow> response \<times> db" where
  "api_operation env remote name tok args body d =
     (let b = (case body of None \<Rightarrow> [] | Some v \<Rightarrow> fields_of v)
      in if name = ''GetHealth'' then (Return (Inr (Some (200, VStruct [(''status'', VString ''healthy'')]))), d)
         else if name = ''GetCallerConfig'' then
           (respond 200 (\<lambda>m. data_val (map_val VString m))
              (GetActorConfig (env_faults env) tok (as_ptr as_text (get args ''X-Actor-Version'')) d), d)
         else if name \<in> set panicking_operations then (Panic ''not implemented'', d)
         else if name \<in> set failing_operations then (Return (Inl ''not implemented''), d)
         else case map_of actor_operations name of
           Some op \<Rightarrow> checked (\<lambda>op tk. actor_method env op args b) op tok d
         | None \<Rightarrow>
             (case map_of token_operations name of
                Some op \<Rightarrow> checked (\<lambda>op tk. token_method env op args b) op tok d
              | None \<Rightarrow>
                  (case map_of deployment_operations name of
                     Some op \<Rightarrow> checked (\<lambda>op tk. deployment_method env op args b) op tok d
                   | None \<Rightarrow>
                       (case map_of remote_operations name of
                          Some op \<Rightarrow> checked (\<lambda>op tk. remote op tk args b) op tok d
                        | None \<Rightarrow> (Return (Inr None), d)))))"

lemma every_route_is_handled:
  "list_all (\<lambda>(m, t, name). name \<in> {''GetHealth'', ''GetCallerConfig''} \<union> set panicking_operations \<union>
     set failing_operations \<union> fst ` set (actor_operations @ token_operations @ deployment_operations @ remote_operations))
   routes"
  by code_simp


subsection \<open>Requests over time\<close>

text \<open>
  The state the server keeps itself is the token cache and the flag of the bootstrap token; the
  database is given to each request as the other instances, background jobs and the request before left it.
\<close>

type_synonym 'c server = "('c \<times> bool) \<times> db"

definition api_auth ::
    "('c \<Rightarrow> int \<Rightarrow> string \<Rightarrow> token option option) \<Rightarrow> ('c \<Rightarrow> int \<Rightarrow> int \<Rightarrow> string \<Rightarrow> token option \<Rightarrow> 'c) \<Rightarrow>
     int \<Rightarrow> string \<Rightarrow> faults \<Rightarrow> int \<Rightarrow> 'c server middleware" where
  "api_auth cget cset ttl boot_tok flt now header = (\<lambda>(cb, d).
     case BearerAuth cget cset ttl flt boot_tok now header d cb of (a, cb') \<Rightarrow> (a, (cb', d)))"

definition api_handler :: "api_env \<Rightarrow> remote \<Rightarrow> 'c server operations" where
  "api_handler env remote name tok args body = (\<lambda>(cb, d).
     case api_operation env remote name tok args body d of (r, d') \<Rightarrow> (r, (cb, d')))"

record arrival =
  ar_env :: api_env
  ar_auth_faults :: faults
  ar_db :: db
  ar_request :: http_request

definition answer_one ::
    "http_lib \<Rightarrow> ('c \<Rightarrow> int \<Rightarrow> string \<Rightarrow> token option option) \<Rightarrow> ('c \<Rightarrow> int \<Rightarrow> int \<Rightarrow> string \<Rightarrow> token option \<Rightarrow> 'c) \<Rightarrow>
     int \<Rightarrow> string \<Rightarrow> remote \<Rightarrow> arrival \<Rightarrow> 'c \<times> bool \<Rightarrow> answer \<times> 'c server" where
  "answer_one lib cget cset ttl boot_tok remote r cb =
     serve lib (api_auth cget cset ttl boot_tok (ar_auth_faults r) (env_now (ar_env r))) (api_handler (ar_env r) remote)
       (ar_request r) (cb, ar_db r)"

fun answer_all ::
    "http_lib \<Rightarrow> ('c \<Rightarrow> int \<Rightarrow> string \<Rightarrow> token option option) \<Rightarrow> ('c \<Rightarrow> int \<Rightarrow> int \<Rightarrow> string \<Rightarrow> token option \<Rightarrow> 'c) \<Rightarrow>
     int \<Rightarrow> string \<Rightarrow> remote \<Rightarrow> arrival list \<Rightarrow> 'c \<times> bool \<Rightarrow> (answer \<times> db) list" where
  "answer_all lib cget cset ttl boot_tok remote [] cb = []"
| "answer_all lib cget cset ttl boot_tok remote (r # rs) cb =
     (case answer_one lib cget cset ttl boot_tok remote r cb of
        (a, (cb', d')) \<Rightarrow> (a, d') # answer_all lib cget cset ttl boot_tok remote rs cb')"

subsection \<open>Changes need a permission\<close>

definition auth_header :: "arrival \<Rightarrow> string" where
  "auth_header r = first_value (h_headers (ar_request r)) ''Authorization''"

definition as_request :: "arrival \<Rightarrow> request" where
  "as_request r = \<lparr>q_now = env_now (ar_env r), q_db = ar_db r, q_faults = ar_auth_faults r, q_auth = auth_header r\<rparr>"

lemma checked_changes:
  assumes "checked run op tok d = (r, d')" and "d' \<noteq> d"
  shows "\<exists>tk. tok = Some tk \<and> needed_permission op \<in> set (k_permissions tk)"
  using assms by (auto simp: checked_def operations_need_permission split: option.splits if_splits)

lemma operation_changes:
  assumes "api_operation env remote name tok args body d = (r, d')" and "d' \<noteq> d"
  shows "\<exists>tk op. tok = Some tk \<and> needed_permission op \<in> set (k_permissions tk) \<and>
    (name, op) \<in> set (actor_operations @ token_operations @ deployment_operations @ remote_operations)"
  using assms
  by (auto simp: api_operation_def Let_def split: if_splits option.splits dest!: checked_changes map_of_SomeD)

text \<open>A request ends before the middleware, in the middleware, or in its operation.\<close>

lemma run_cases:
  assumes "run_operation (api_auth cget cset ttl boot_tok flt now) (api_handler env remote) name args body header (cb, d) =
    (ans, (cb', d'))"
  obtains n e where "BearerAuth cget cset ttl flt boot_tok now header d cb = (Refused n e, cb')" "d' = d" "ans = ErrorAnswer n e"
  | tok resp where
      "BearerAuth cget cset ttl flt boot_tok now header d cb =
        (case tok of None \<Rightarrow> Anonymous | Some tk \<Rightarrow> Accepted tk, cb')"
      "api_operation env remote name tok args body d = (resp, d')" "ans = answer_operation name resp"
proof -
  note out = that
  obtain a cb1 where auth: "BearerAuth cget cset ttl flt boot_tok now header d cb = (a, cb1)"
    by (cases "BearerAuth cget cset ttl flt boot_tok now header d cb")
  have run: thesis
    if tok: "a = (case tok of None \<Rightarrow> Anonymous | Some tk \<Rightarrow> Accepted tk)"
      and ops: "map_prod (answer_operation name) id (api_handler env remote name tok args body (cb1, d)) = (ans, (cb', d'))"
    for tok
  proof -
    obtain resp d1 where op: "api_operation env remote name tok args body d = (resp, d1)"
      by (cases "api_operation env remote name tok args body d")
    then have "cb' = cb1" "d' = d1" "ans = answer_operation name resp" using ops by (simp_all add: api_handler_def)
    then show thesis using auth tok op by (intro out(2)) simp_all
  qed
  note defs = run_operation_def api_auth_def
  show thesis
  proof (cases a)
    case (Refused n e)
    then have "cb' = cb1" "d' = d" "ans = ErrorAnswer n e" using assms auth by (simp_all add: defs)
    then show ?thesis using auth Refused by (intro out(1)) simp_all
  next
    case Anonymous
    then have "map_prod (answer_operation name) id (api_handler env remote name None args body (cb1, d)) = (ans, (cb', d'))"
      using assms auth by (simp add: defs)
    then show ?thesis using Anonymous by (intro run [of None]) simp_all
  next
    case (Accepted tk)
    then have "map_prod (answer_operation name) id (api_handler env remote name (Some tk) args body (cb1, d)) = (ans, (cb', d'))"
      using assms auth by (simp add: defs)
    then show ?thesis using Accepted by (intro run [of "Some tk"]) simp_all
  qed
qed

lemma serve_cases:
  assumes "serve lib auth operate rq st = (ans, st')"
  obtains "st' = st"
  | name args body where
      "run_operation auth operate name args body (first_value (h_headers rq) ''Authorization'') st = (ans, st')"
proof (cases "route_request lib (routes @ routes) (h_method rq) (h_path rq)")
  case (Routed name vars)
  show ?thesis
  proof (cases "bind_params lib vars rq (params_of name)")
    case (Inl e)
    then show ?thesis using assms Routed by (intro that(1)) (simp add: serve_def)
  next
    case (Inr args)
    show ?thesis
    proof (cases "decode_body lib (body_of name) (h_body rq)")
      case (Inl e)
      then show ?thesis using assms Routed Inr by (intro that(1)) (simp add: serve_def)
    next
      case (Inr body)
      then show ?thesis using assms Routed \<open>bind_params lib vars rq (params_of name) = Inr args\<close> 
        by (intro that(2)) (simp add: serve_def)
    qed
  qed
qed (use assms in \<open>simp_all add: serve_def that(1)\<close>)

lemma auth_step:
  assumes "BearerAuth cget cset ttl (ar_auth_faults r) boot_tok (env_now (ar_env r)) (auth_header r) (ar_db r) cb = (a, cb')"
  shows "BearerAuth cget cset ttl (q_faults (as_request r)) boot_tok (q_now (as_request r)) (q_auth (as_request r))
    (q_db (as_request r)) (fst cb, snd cb) = (a, fst cb', snd cb')"
  using assms by (simp add: as_request_def)

text \<open>What one request does: the cache stays honest, and a change has its permission.\<close>

definition permitted :: "string \<Rightarrow> int \<Rightarrow> request set \<Rightarrow> arrival \<Rightarrow> bool" where
  "permitted boot_tok ttl past r \<longleftrightarrow>
     (\<exists>tk. \<exists>(name, op) \<in> set (actor_operations @ token_operations @ deployment_operations @ remote_operations).
        needed_permission op \<in> set (k_permissions tk) \<and> env_now (ar_env r) \<le> k_expire_at tk \<and>
        auth_header r = bearer_prefix @ drop (length bearer_prefix) (auth_header r) \<and>
        (\<exists>q \<in> past. issued boot_tok (q_now q) (drop (length bearer_prefix) (auth_header r)) (q_db q) tk \<and>
           env_now (ar_env r) \<le> q_now q + ttl))"

lemma answer_one_permitted:
  assumes laws: "cache_laws cget cset stored" and ttl: "0 \<le> ttl" and inv: "cache_inv (stored (fst cb)) ttl boot_tok past"
    and one: "answer_one lib cget cset ttl boot_tok remote r cb = (ans, (cb', d'))"
  shows "cache_inv (stored (fst cb')) ttl boot_tok (insert (as_request r) past)"
    and "d' \<noteq> ar_db r \<Longrightarrow> permitted boot_tok ttl (insert (as_request r) past) r"
proof -
  have step: "cache_inv (stored (fst cb')) ttl boot_tok (insert (as_request r) past)"
    if "BearerAuth cget cset ttl (ar_auth_faults r) boot_tok (env_now (ar_env r)) (auth_header r) (ar_db r) cb = (a, cb')" for a
    using BearerAuth_issued(1) [OF laws ttl _ auth_step [OF that]] inv by simp
  have keep: "cache_inv (stored (fst cb)) ttl boot_tok (insert (as_request r) past)"
    using inv by (rule cache_inv_mono) blast
  from one show "cache_inv (stored (fst cb')) ttl boot_tok (insert (as_request r) past)"
    unfolding answer_one_def
  proof (cases rule: serve_cases)
    case 1
    then show ?thesis using keep by simp
  next
    case 2
    then show ?thesis by (cases rule: run_cases) (use step in \<open>auto simp: auth_header_def\<close>)
  qed
  assume change: "d' \<noteq> ar_db r"
  from one show "permitted boot_tok ttl (insert (as_request r) past) r"
    unfolding answer_one_def
  proof (cases rule: serve_cases)
    case 1
    then show ?thesis using change by simp
  next
    case (2 name args body)
    then show ?thesis
    proof (cases rule: run_cases)
      case 1
      then show ?thesis using change by simp
    next
      case (2 tok resp)
      from operation_changes [OF 2(2) change] obtain tk op where tk: "tok = Some tk"
        "needed_permission op \<in> set (k_permissions tk)"
        "(name, op) \<in> set (actor_operations @ token_operations @ deployment_operations @ remote_operations)" by blast
      have "BearerAuth cget cset ttl (ar_auth_faults r) boot_tok (env_now (ar_env r)) (auth_header r) (ar_db r) cb =
          (Accepted tk, cb')" using 2(1) tk(1) by (simp add: auth_header_def)
      from BearerAuth_issued(2) [OF laws ttl _ auth_step [OF this] refl] inv tk(2, 3) show ?thesis
        unfolding permitted_def by (auto simp: as_request_def)
    qed
  qed
qed

lemma answer_all_permitted:
  assumes laws: "cache_laws cget cset stored" and ttl: "0 \<le> ttl"
    and "cache_inv (stored (fst cb)) ttl boot_tok past" and "i < length rs"
    and "snd (answer_all lib cget cset ttl boot_tok remote rs cb ! i) \<noteq> ar_db (rs ! i)"
  shows "permitted boot_tok ttl (past \<union> as_request ` set (take (Suc i) rs)) (rs ! i)"
  using assms(3-)
proof (induction rs arbitrary: cb past i)
  case (Cons r rs)
  obtain a cb' d' where one: "answer_one lib cget cset ttl boot_tok remote r cb = (a, (cb', d'))"
    by (metis prod.collapse)
  note step = answer_one_permitted [OF laws ttl Cons.prems(1) one]
  show ?case
  proof (cases i)
    case 0
    then show ?thesis using step(2) Cons.prems(3) one by (simp add: insert_commute Un_insert_right)
  next
    case (Suc j)
    from Cons.IH [OF step(1), of j] Cons.prems(2, 3) Suc one show ?thesis by simp
  qed
qed simp


subsection \<open>Answers are declared\<close>

text \<open>A status the operation declares, with a body exactly if it declares one.\<close>

definition declared :: "string \<Rightarrow> response \<Rightarrow> bool" where
  "declared name r \<longleftrightarrow>
     (case r of
        Return (Inr (Some (status, v))) \<Rightarrow>
          (case map_of (responses_of name) status of None \<Rightarrow> False | Some bt \<Rightarrow> bt = None \<longleftrightarrow> v = VNil)
      | _ \<Rightarrow> True)"

fun reply_status :: "nat \<Rightarrow> 'a reply \<Rightarrow> nat" where
  "reply_status ok (Success _) = ok"
| "reply_status ok (BadRequest _) = 400"
| "reply_status ok Unauthorized = 401"
| "reply_status ok NotFound = 404"
| "reply_status ok Conflict = 409"
| "reply_status ok (ServerError _) = 500"

text \<open>The operation declares these statuses of a reply; \<open>bare\<close> says that its success has no body.\<close>

definition fits :: "string \<Rightarrow> nat \<Rightarrow> bool \<Rightarrow> nat list \<Rightarrow> bool" where
  "fits name ok bare ss \<longleftrightarrow>
     list_all (\<lambda>s. case map_of (responses_of name) s of
       None \<Rightarrow> False
     | Some bt \<Rightarrow> (bt = None) = (if s = ok then bare else s \<in> set [401, 404, 409])) ss"

lemma declared_respond:
  assumes "reply_status ok r \<in> set ss" and "fits name ok bare ss" and "ok \<notin> {400, 401, 404, 409, 500}"
    and "\<And>x. f x = VNil \<longleftrightarrow> bare"
  shows "declared name (respond ok f r)"
  using assms
  by (cases r) (auto simp: declared_def respond_def error_val_def fits_def list_all_iff split: option.splits dest!: bspec)

lemma not_nil [simp]:
  "actor_val a n r \<noteq> VNil" "token_val t \<noteq> VNil" "config_val c \<noteq> VNil" "setting_val s \<noteq> VNil" "data_val v \<noteq> VNil"
  "detail_val x \<noteq> VNil" "result_val y \<noteq> VNil" "page_val f p \<noteq> VNil" "empty_body u = VNil"
  by (simp_all add: actor_val_def token_val_def config_val_def setting_val_def data_val_def detail_val_def
      result_val_def page_val_def empty_body_def split_beta)

lemma status_simps:
  "reply_status 201 (fst (CreateActor flt now req d)) \<in> set [201, 400, 500]"
  "reply_status 200 (GetActor flt aid d) \<in> set [200, 404, 500]"
  "reply_status 200 (fst (UpdateActor flt aid p d)) \<in> set [200, 400, 404, 500]"
  "reply_status 200 (fst (DeleteActor flt aid d)) \<in> set [200, 404, 409, 500]"
  "reply_status 200 (GetMCPServers flt d) \<in> set [200, 500]"
  "reply_status 201 (fst (CreateApiToken flt now tok aid creator expire perms d)) \<in> set [201, 400, 500]"
  "reply_status 204 (fst (DeleteApiToken flt tid d)) \<in> set [204, 500]"
  "reply_status 200 (GetSetting flt d) \<in> set [200, 500]"
  "reply_status 200 (fst (UpdateSetting flt s d)) \<in> set [200, 400, 500]"
  by (auto simp: CreateActor_def GetActor_def UpdateActor_def DeleteActor_def GetMCPServers_def CreateApiToken_def
      DeleteApiToken_def GetSetting_def UpdateSetting_def split: option.splits sum.splits prod.splits pgerr.splits delete_result.splits)


lemma status_simps_more:
  "ListActors collate flt page sz d = Return r1 \<Longrightarrow> reply_status 200 r1 \<in> set [200, 500]"
  "ListApiTokens collate flt aid page sz d = Return r2 \<Longrightarrow> reply_status 200 r2 \<in> set [200, 500]"
  "reply_status 200 (ListDeployments collate ilike flt lp page sz d) \<in> set [200, 500]"
  "GetDeployment flt did d = Return r3 \<Longrightarrow> reply_status 200 r3 \<in> set [200, 404, 500]"
  "reply_status 200 (GetDeploymentResult flt did d) \<in> set [200, 404]"
  "reply_status 201 (fst (CreateDeployment flt now nm user revs src d)) \<in> set [201, 400, 500]"
  "reply_status 200 (fst (UpdateDeployment flt did nm' revs d)) \<in> set [200, 404, 500]"
  "reply_status 200 (fst (SubmitDeployment flt did d)) \<in> set [200, 400, 404, 500]"
  "fst (RejectDeployment flt parse now did body d) = Return r4 \<Longrightarrow> reply_status 201 r4 \<in> set [201, 400, 404, 500]"
  "reply_status 200 (fst (DeleteDeployment flt did d)) \<in> set [200, 404, 500]"
  "fst (UpdateConfig flt now cid user content d) = Return r5 \<Longrightarrow> reply_status 200 r5 \<in> set [200, 400, 404, 500]"
  "reply_status 200 (GetActorConfig flt tok ver d) \<in> set [200, 400, 401, 404, 500]"
  subgoal by (auto simp: ListActors_def Let_def split: sum.splits list.splits prod.splits outcome.splits)
  subgoal by (auto simp: ListApiTokens_def Let_def split: sum.splits outcome.splits)
  subgoal by (auto simp: ListDeployments_def Let_def split: sum.splits list.splits prod.splits)
  subgoal by (auto simp: GetDeployment_def split: sum.splits option.splits outcome.splits pgerr.splits)
  subgoal by (auto simp: GetDeploymentResult_def split: sum.splits)
  subgoal by (auto simp: CreateDeployment_def split: sum.splits option.splits prod.splits pgerr.splits)
  subgoal by (auto simp: UpdateDeployment_def split: sum.splits prod.splits pgerr.splits)
  subgoal by (auto simp: SubmitDeployment_def split: sum.splits prod.splits pgerr.splits)
  subgoal by (auto simp: RejectDeployment_def nil_panic_def split: option.splits sum.splits prod.splits pgerr.splits if_splits)
  subgoal by (auto simp: DeleteDeployment_def split: sum.splits prod.splits pgerr.splits)
  subgoal by (auto simp: UpdateConfig_def Let_def nil_panic_def split: option.splits sum.splits prod.splits pgerr.splits if_splits bool.splits)
  subgoal by (auto simp: GetActorConfig_def parseConfigsAndReturn_def Let_def split: option.splits sum.splits prod.splits pgerr.splits bool.splits)
  done


text \<open>The declared statuses alone, with whether they have no body.\<close>

lemma declared_statuses:
  "map (\<lambda>(name, rs). (name, map (\<lambda>(status, bt). (status, bt = None)) rs)) operation_responses =
     [(''GetHealth'', [(200, False)]), (''AdminListActors'', [(200, False), (401, True), (500, False)]),
      (''AdminCreateActor'', [(201, False), (400, False), (401, True), (500, False)]),
      (''AdminDeleteActor'', [(200, True), (401, True), (404, True), (409, True), (500, False)]),
      (''AdminGetActor'', [(200, False), (401, True), (404, True), (500, False)]),
      (''AdminUpdateActor'', [(200, False), (400, False), (401, True), (404, True), (500, False)]),
      (''AdminListApiTokens'', [(200, False), (401, True), (500, False)]),
      (''AdminCreateApiToken'', [(201, False), (400, False), (401, True), (500, False)]),
      (''AdminDeleteApiToken'', [(204, True), (401, True), (500, False)]),
      (''AdminUpdateConfig'', [(200, False), (400, False), (401, True), (404, True), (500, False)]),
      (''AdminListDeployments'', [(200, False), (401, True), (500, False)]),
      (''AdminCreateDeployment'', [(201, False), (400, False), (401, True), (500, False)]),
      (''AdminDeleteDeployment'', [(200, True), (401, True), (404, True), (500, False)]),
      (''AdminGetDeployment'', [(200, False), (401, True), (404, True), (500, False)]),
      (''AdminUpdateDeployment'', [(200, False), (401, True), (404, True), (500, False)]),
      (''AdminPublishDeployment'', [(201, True), (400, False), (401, True), (404, True), (500, False)]),
      (''AdminRejectDeployment'', [(201, True), (400, False), (401, True), (404, True), (500, False)]),
      (''AdminRestartDeployment'', [(201, True), (401, True), (404, True), (500, False)]),
      (''AdminGetDeploymentResult'', [(200, False), (400, False), (401, True), (404, True), (500, False)]),
      (''AdminSubmitDeployment'', [(200, True), (400, False), (401, True), (404, True), (500, False)]),
      (''AdminListPodMetrics'', [(200, False), (401, True), (500, False)]),
      (''AdminListReferenceConfigSuites'', [(200, False), (401, True), (500, False)]),
      (''AdminSyncReferenceConfigSuites'', [(201, True), (401, True), (500, False)]),
      (''AdminListSecrets'', [(200, False), (401, True), (500, False)]),
      (''AdminDeleteSecret'', [(200, True), (401, True), (500, False)]),
      (''AdminUpdateSecret'', [(200, True), (401, True), (500, False)]),
      (''AdminGetSetting'', [(200, False), (401, True), (500, False)]),
      (''AdminUpdateSetting'', [(200, True), (400, False), (401, True), (404, True), (500, False)]),
      (''CreateCompletion'', [(200, False), (400, False), (401, True), (500, False)]),
      (''ListCompletionModels'', [(200, False), (401, True)]),
      (''GetCallerConfig'', [(200, False), (400, False), (401, True), (404, True), (500, False)]),
      (''CreateEmbedding'', [(200, False), (401, True)]),
      (''ListEmbeddingModels'', [(200, False), (401, True)]),
      (''CreateInvocationAsync'', [(201, False), (400, False), (401, True), (500, False)]),
      (''GetNextInvocation'', [(200, False), (400, False), (401, True), (404, True), (500, False)]),
      (''CreateInvocationSync'', [(201, False), (400, False), (401, True), (408, True), (500, False)]),
      (''GetInvocationById'', [(200, False), (202, False), (400, False), (401, True), (404, True), (500, False)]),
      (''ReturnInvocationError'', [(200, True), (400, False), (401, True), (404, True), (500, False)]),
      (''ReturnInvocationResponse'', [(200, True), (400, False), (401, True), (404, True), (500, False)]),
      (''GetMCPServers'', [(200, False), (401, True), (500, False)]),
      (''InitializeMCPSession'', [(200, True), (401, True)]),
      (''ReadMCPMessage'', [(200, False), (401, True), (404, True), (500, True)]),
      (''SendMCPResponse'', [(200, True), (401, True)]), (''SendMCPMessage'', [(200, False), (401, True)]),
      (''CreateRerank'', [(201, False), (401, True)]), (''ListRerankModels'', [(200, False), (401, True)]),
      (''ListCollection'', [(200, False), (401, True)]), (''CreateCollection'', [(200, False), (401, True)]),
      (''QueryCollection'', [(200, False), (401, True)]), (''UpsertCollection'', [(200, False), (401, True)]),
      (''ListVectoreStores'', [(200, False), (401, True)])]"
  by (simp add: table_defs)

lemma map_of_image: "map_of (map (\<lambda>(k, v). (k, g v)) kvs) k = map_option g (map_of kvs k)"
  by (induction kvs) auto

lemma declared_lookup:
  "map_option (\<lambda>bt. bt = None) (map_of (responses_of name) status) =
     map_of (members (map (\<lambda>(name, rs). (name, map (\<lambda>(status, bt). (status, bt = None)) rs)) operation_responses) name [])
       status"
  by (simp add: members_def responses_of_def map_of_image split: option.split)

definition fits_in :: "(nat \<times> bool) list \<Rightarrow> nat \<Rightarrow> bool \<Rightarrow> nat list \<Rightarrow> bool" where
  "fits_in rs ok bare ss \<longleftrightarrow>
     list_all (\<lambda>s. map_of rs s = Some (if s = ok then bare else s \<in> set [401, 404, 409])) ss"

lemma fits_lookup:
  "fits name ok bare ss = fits_in (members (map (\<lambda>(name, rs). (name, map (\<lambda>(status, bt). (status, bt = None)) rs))
     operation_responses) name []) ok bare ss"
proof -
  have "(case map_of (responses_of name) s of None \<Rightarrow> False | Some bt \<Rightarrow> (bt = None) = X) \<longleftrightarrow>
      map_option (\<lambda>bt. bt = None) (map_of (responses_of name) s) = Some X" for s X
    by (cases "map_of (responses_of name) s") auto
  then show ?thesis by (simp only: fits_def fits_in_def declared_lookup [symmetric])
qed

text \<open>The statuses that occur, after that of a refused caller.\<close>

lemma fits_refused:
  "fits ''AdminListActors'' 200 False [401, 200, 500]" "fits ''AdminCreateActor'' 201 False [401, 201, 400, 500]"
  "fits ''AdminGetActor'' 200 False [401, 200, 404, 500]" "fits ''AdminUpdateActor'' 200 False [401, 200, 400, 404, 500]"
  "fits ''AdminDeleteActor'' 200 True [401, 200, 404, 409, 500]" "fits ''GetMCPServers'' 200 False [401, 200, 500]"
  "fits ''AdminListApiTokens'' 200 False [401, 200, 500]" "fits ''AdminCreateApiToken'' 201 False [401, 201, 400, 500]"
  "fits ''AdminDeleteApiToken'' 204 True [401, 204, 500]" "fits ''AdminUpdateConfig'' 200 False [401, 200, 400, 404, 500]"
  "fits ''AdminGetSetting'' 200 False [401, 200, 500]" "fits ''AdminUpdateSetting'' 200 True [401, 200, 400, 500]"
  "fits ''AdminListDeployments'' 200 False [401, 200, 500]" "fits ''AdminGetDeployment'' 200 False [401, 200, 404, 500]"
  "fits ''AdminGetDeploymentResult'' 200 False [401, 200, 404]" "fits ''AdminCreateDeployment'' 201 False [401, 201, 400, 500]"
  "fits ''AdminUpdateDeployment'' 200 False [401, 200, 404, 500]" "fits ''AdminSubmitDeployment'' 200 True [401, 200, 400, 404, 500]"
  "fits ''AdminRejectDeployment'' 201 True [401, 201, 400, 404, 500]" "fits ''AdminDeleteDeployment'' 200 True [401, 200, 404, 500]"
  "fits ''GetCallerConfig'' 200 False [401, 200, 400, 401, 404, 500]"
  unfolding fits_lookup declared_statuses by (simp_all add: fits_in_def members_def)

lemma fits_tail: "fits name ok bare (s # ss) \<Longrightarrow> fits name ok bare ss"
  by (simp add: fits_def)

lemma fits_first: "fits name ok bare (401 # ss) \<Longrightarrow> ok \<noteq> 401 \<Longrightarrow> map_of (responses_of name) 401 = Some None"
  by (auto simp: fits_def split: option.splits)

lemmas fits_all = fits_refused [THEN fits_tail]

lemmas refused_all = fits_refused [THEN fits_first, simplified]

lemma declared_outcome:
  assumes "\<And>x. r = Return x \<Longrightarrow> reply_status ok x \<in> set ss" and "fits name ok bare ss"
    and "ok \<notin> {400, 401, 404, 409, 500}" and "\<And>x. f x = VNil \<longleftrightarrow> bare"
  shows "declared name (respond_outcome ok f r)"
proof (cases r)
  case (Return x)
  show ?thesis using declared_respond [OF assms(1) [OF Return] assms(2-)] unfolding Return respond_outcome_def by simp
qed (simp add: respond_outcome_def declared_def)

lemma fst_apfst: "fst (apfst f p) = f (fst p)"
  by (cases p) simp

lemma actor_declared_cases:
  "declared ''AdminListActors'' (fst (actor_method env OpAdminListActors args b d))"
  "declared ''AdminCreateActor'' (fst (actor_method env OpAdminCreateActor args b d))"
  "declared ''AdminGetActor'' (fst (actor_method env OpAdminGetActor args b d))"
  "declared ''AdminUpdateActor'' (fst (actor_method env OpAdminUpdateActor args b d))"
  "declared ''AdminDeleteActor'' (fst (actor_method env OpAdminDeleteActor args b d))"
  "declared ''GetMCPServers'' (fst (actor_method env OpGetMCPServers args b d))"
  unfolding actor_method_def Let_def operation.case fst_apfst fst_conv
  subgoal by (rule declared_outcome [OF status_simps_more(1) fits_all(1)]) (simp_all add: split_beta)
  subgoal by (rule declared_respond [OF status_simps(1) fits_all(2)]) (simp_all add: split_beta)
  subgoal by (rule declared_respond [OF status_simps(2) fits_all(3)]) (simp_all add: split_beta)
  subgoal by (rule declared_respond [OF status_simps(3) fits_all(4)]) (simp_all add: split_beta)
  subgoal by (rule declared_respond [OF status_simps(4) fits_all(5)]) (simp_all add: split_beta)
  subgoal by (rule declared_respond [OF status_simps(5) fits_all(6)]) (simp_all add: split_beta)
  done

lemma actor_declared: "(name, op) \<in> set actor_operations \<Longrightarrow> declared name (fst (actor_method env op args b d))"
  by (auto simp: actor_operations_def actor_declared_cases)

lemma token_declared_cases:
  "declared ''AdminListApiTokens'' (fst (token_method env OpAdminListApiTokens args b d))"
  "declared ''AdminCreateApiToken'' (fst (token_method env OpAdminCreateApiToken args b d))"
  "declared ''AdminDeleteApiToken'' (fst (token_method env OpAdminDeleteApiToken args b d))"
  "declared ''AdminUpdateConfig'' (fst (token_method env OpAdminUpdateConfig args b d))"
  "declared ''AdminGetSetting'' (fst (token_method env OpAdminGetSetting args b d))"
  "declared ''AdminUpdateSetting'' (fst (token_method env OpAdminUpdateSetting args b d))"
  unfolding token_method_def Let_def operation.case fst_apfst fst_conv
  subgoal by (rule declared_outcome [OF status_simps_more(2) fits_all(7)]) (simp_all add: split_beta)
  subgoal by (rule declared_respond [OF status_simps(6) fits_all(8)]) (simp_all add: split_beta)
  subgoal by (rule declared_respond [OF status_simps(7) fits_all(9)]) (simp_all add: split_beta)
  subgoal by (rule declared_outcome [OF status_simps_more(11) fits_all(10)]) (simp_all add: split_beta)
  subgoal by (rule declared_respond [OF status_simps(8) fits_all(11)]) (simp_all add: split_beta)
  subgoal by (rule declared_respond [OF status_simps(9) fits_all(12)]) (simp_all add: split_beta)
  done

lemma token_declared: "(name, op) \<in> set token_operations \<Longrightarrow> declared name (fst (token_method env op args b d))"
  by (auto simp: token_operations_def token_declared_cases)

lemma deployment_declared_cases:
  "declared ''AdminListDeployments'' (fst (deployment_method env OpAdminListDeployments args b d))"
  "declared ''AdminGetDeployment'' (fst (deployment_method env OpAdminGetDeployment args b d))"
  "declared ''AdminGetDeploymentResult'' (fst (deployment_method env OpAdminGetDeploymentResult args b d))"
  "declared ''AdminCreateDeployment'' (fst (deployment_method env OpAdminCreateDeployment args b d))"
  "declared ''AdminUpdateDeployment'' (fst (deployment_method env OpAdminUpdateDeployment args b d))"
  "declared ''AdminSubmitDeployment'' (fst (deployment_method env OpAdminSubmitDeployment args b d))"
  "declared ''AdminRejectDeployment'' (fst (deployment_method env OpAdminRejectDeployment args b d))"
  "declared ''AdminDeleteDeployment'' (fst (deployment_method env OpAdminDeleteDeployment args b d))"
  unfolding deployment_method_def Let_def operation.case fst_apfst fst_conv
  subgoal by (rule declared_respond [OF status_simps_more(3) fits_all(13)]) (simp_all add: split_beta)
  subgoal by (rule declared_outcome [OF status_simps_more(4) fits_all(14)]) (simp_all add: split_beta)
  subgoal by (rule declared_respond [OF status_simps_more(5) fits_all(15)]) (simp_all add: split_beta)
  subgoal by (rule declared_respond [OF status_simps_more(6) fits_all(16)]) (simp_all add: split_beta)
  subgoal by (rule declared_respond [OF status_simps_more(7) fits_all(17)]) (simp_all add: split_beta)
  subgoal by (rule declared_respond [OF status_simps_more(8) fits_all(18)]) (simp_all add: split_beta)
  subgoal by (rule declared_outcome [OF status_simps_more(9) fits_all(19)]) (simp_all add: split_beta)
  subgoal by (rule declared_respond [OF status_simps_more(10) fits_all(20)]) (simp_all add: split_beta)
  done

lemma deployment_declared: "(name, op) \<in> set deployment_operations \<Longrightarrow> declared name (fst (deployment_method env op args b d))"
  by (auto simp: deployment_operations_def deployment_declared_cases)

lemma refused_declared:
  assumes "(name, op) \<in> set (actor_operations @ token_operations @ deployment_operations)"
  shows "map_of (responses_of name) 401 = Some None"
  using assms refused_all
  by (auto simp: actor_operations_def token_operations_def deployment_operations_def)

lemma checked_declared:
  assumes "(name, op) \<in> set (actor_operations @ token_operations @ deployment_operations)"
    and "\<And>tk. declared name (fst (run op tk d))"
  shows "declared name (fst (checked run op tok d))"
  using refused_declared [OF assms(1)] assms(2)
  by (cases "ValidatePermissions tok (checked_id op)") (simp_all add: checked_def declared_def)

lemma health_declared: "declared ''GetHealth'' (Return (Inr (Some (200, VStruct [(''status'', VString ''healthy'')]))))"
proof -
  have "map_option (\<lambda>bt. bt = None) (map_of (responses_of ''GetHealth'') 200) = Some False"
    unfolding declared_lookup declared_statuses by code_simp
  then show ?thesis by (auto simp: declared_def)
qed

text \<open>C18. Whatever the request, an operation of the server over its database answers with a status the API declares
  for it, and with a body exactly if the API declares one there; only panics and Go errors, answered by
  a closed connection and with 500, come beside.\<close>

theorem answers_are_declared:
  assumes "map_of remote_operations name = None"
  shows "declared name (fst (api_operation env remote name tok args body d))"
proof -
  have "declared ''GetCallerConfig'' (respond 200 (\<lambda>m. data_val (map_val VString m)) (GetActorConfig flt tok ver d))" for flt ver
    by (rule declared_respond [OF status_simps_more(12) fits_all(21)]) simp_all
  moreover have
    "map_of actor_operations name = Some op \<Longrightarrow> declared name (fst (checked (\<lambda>op tk. actor_method env op args b) op tok d))"
    "map_of token_operations name = Some op \<Longrightarrow> declared name (fst (checked (\<lambda>op tk. token_method env op args b) op tok d))"
    "map_of deployment_operations name = Some op \<Longrightarrow>
       declared name (fst (checked (\<lambda>op tk. deployment_method env op args b) op tok d))" for op b
    by (auto intro!: checked_declared actor_declared token_declared deployment_declared dest: map_of_SomeD)
  moreover have "declared name (Panic e)" "declared name (Return (Inl e))" "declared name (Return (Inr None))" for e
    by (simp_all add: declared_def)
  ultimately show ?thesis using assms health_declared
    by (simp add: api_operation_def Let_def split: option.split)
qed


subsection \<open>Properties\<close>


text \<open>What a client sends to create a token.\<close>

definition token_request :: "int \<Rightarrow> string \<Rightarrow> int \<Rightarrow> string list \<Rightarrow> go_val" where
  "token_request aid by expire perms =
     VStruct [(''actor_id'', VInt aid), (''created_by'', VString by), (''expire_at'', VInt expire),
       (''permissions'', texts_val perms)]"

lemma create_token_operation:
  "api_operation env remote ''AdminCreateApiToken'' tok args (Some (token_request aid by expire perms)) d =
     checked (\<lambda>op tk d. apfst (respond 201 token_val)
       (CreateApiToken (env_faults env) (env_now env) (env_drawn env) aid by expire (Some perms) d)) OpAdminCreateApiToken tok d"
  by (simp add: api_operation_def Let_def token_request_def panicking_operations_def failing_operations_def
      actor_operations_def token_operations_def token_method_def checked_def get_def members_def texts_val_def comp_def
      split: option.split)

lemma create_token_response: "map_of (responses_of ''AdminCreateApiToken'') 201 = Some (Some ApiToken_t)"
  by (simp add: responses_of_def members_def table_defs)

lemma create_token_route: "typed_call ''POST'' ''/v1/admin/api_tokens'' ''AdminCreateApiToken'' []"
  by (simp add: typed_call_def routes_def params_of_def members_def table_defs)

lemma create_token_body: "body_of ''AdminCreateApiToken'' = Some ApiTokenCreate_t"
  by (simp add: body_of_def members_def table_defs)

lemma created_token:
  assumes "CreateApiToken flt now key aid by expire (Some perms) d = (Success t, d')"
  shows "t = \<lparr>t_id = key, t_actor_id = aid, t_expire_at = expire, t_created_by = by, t_created_at = now, t_permissions = perms\<rparr>"
    and "filter (\<lambda>x. t_id x = key) (api_tokens d') = [t]" and "\<exists>a. actor_of d' aid = Some a"
  using assms
  by (auto simp: CreateApiToken_def ApiTokenInsert_def add_token_def actor_of_def run_query_def list_ex_iff filter_empty_conv
      split: if_splits option.splits)

lemma find_created:
  assumes "filter (\<lambda>x. t_id x = key) (api_tokens d) = [t]" and "actor_of d (t_actor_id t) = Some a"
  shows "fst (ApiTokenFindByID key d) = Inr (t, a)" and "api_tokens d \<noteq> []"
  using assms by (auto simp: ApiTokenFindByID_def one_row_def List.map_filter_def)

lemma fetch_created:
  assumes "filter (\<lambda>x. t_id x = key) (api_tokens d) = [t]" and "actor_of d (t_actor_id t) = Some a"
    and "flt 0 = None" and "flt 1 = None"
  shows "\<exists>boot'. fetch_token flt boot_tok now key boot d = (Inr (Some (token_of (t, a))), boot')"
  using find_created [OF assms(1, 2)] assms(3, 4) by (auto simp: fetch_token_def Let_def ApiTokenCount_def)


lemma token_val_typed:
  assumes "in_width 64 (t_actor_id t)" and "in_width 64 (t_created_at t)" and "in_width 64 (t_expire_at t)"
  shows "decode ApiToken_t (encode ApiToken_t (token_val t)) = Some (token_val t)"
proof -
  have "wf_type ApiToken_t" using body_types_wf by (simp add: body_types_def)
  moreover have "has_type ApiToken_t (token_val t)" "solid ApiToken_t (token_val t)"
    using assms by (simp_all add: ApiToken_t_def token_val_def members_def texts_val_def list_all_iff)
  ultimately show ?thesis using decode_encode unfolding decode_def by blast
qed

text \<open>A request for a token that is answered with 201.\<close>

lemma create_token_answered:
  assumes "run_operation (api_auth cget cset ttl boot_tok flt now) (api_handler env remote) ''AdminCreateApiToken'' []
      (Some (token_request aid by expire perms)) header (cb, d) = (JsonAnswer 201 j, (cb', d'))"
  obtains t where "CreateApiToken (env_faults env) (env_now env) (env_drawn env) aid by expire (Some perms) d = (Success t, d')"
    "j = encode ApiToken_t (token_val t)"
proof (cases rule: run_cases [OF assms])
  case (2 tok resp)
  show ?thesis
  proof (cases "ValidatePermissions tok (checked_id OpAdminCreateApiToken)")
    case None
    then show ?thesis using 2(2, 3)
      by (auto simp: create_token_operation checked_def answer_operation_def visit_response_def split: option.splits)
  next
    case (Some tk)
    obtain r where made: "CreateApiToken (env_faults env) (env_now env) (env_drawn env) aid by expire (Some perms) d = (r, d')"
      "resp = respond 201 token_val r"
      using 2(2) Some unfolding create_token_operation checked_def by (auto simp: apfst_def map_prod_def split: prod.splits)
    show ?thesis
    proof (cases r)
      case (Success t)
      then have "j = encode ApiToken_t (token_val t)"
        using 2(3) made(2) by (simp add: respond_def answer_operation_def visit_response_def create_token_response)
      then show ?thesis using made(1) Success by (intro that) simp_all
    qed (use 2(3) made(2) in \<open>auto simp: respond_def answer_operation_def visit_response_def split: option.splits\<close>)
  qed
qed simp


subsection \<open>A sample server\<close>

text \<open>A database without tokens, a client with the bootstrap token, and a library that reads one body.\<close>

definition bootstrap_db :: db where
  "bootstrap_db = sample_db\<lparr>api_tokens := []\<rparr>"

definition token_lib :: http_lib where
  "token_lib =
     plain_lib (\<lambda>s. if s = sample_body
       then Some (encode ApiTokenCreate_t (token_request 1 ''ops'' 1000 [''read:invocation''])) else None)"

definition sample_env :: api_env where
  "sample_env =
     \<lparr>env_now = 100, env_faults = no_faults, env_drawn = ''ma-new'', env_collate = (\<lambda>s. s), env_ilike = (\<lambda>p s. p = s),
      env_parse = (\<lambda>_. None)\<rparr>"

definition sample_arrival :: arrival where
  "sample_arrival =
     \<lparr>ar_env = sample_env, ar_auth_faults = no_faults, ar_db = bootstrap_db,
      ar_request = call_request ''POST'' ''/v1/admin/api_tokens'' [] ''Bearer boot'' sample_body\<rparr>"

definition no_remote :: remote where
  "no_remote op tk args b d = (Return (Inr None), d)"

lemma sample_answer:
  "\<exists>j cb d. answer_one token_lib alist_get alist_set 10 ''boot'' no_remote sample_arrival ([], True) = (JsonAnswer 201 j, (cb, d)) \<and>
     d \<noteq> bootstrap_db \<and> j = encode ApiToken_t (token_val \<lparr>t_id = ''ma-new'', t_actor_id = 1, t_expire_at = 1000,
       t_created_by = ''ops'', t_created_at = 100, t_permissions = [''read:invocation'']\<rparr>)"
proof -
  let ?t = "\<lparr>t_id = ''ma-new'', t_actor_id = 1, t_expire_at = 1000, t_created_by = ''ops'', t_created_at = 100,
     t_permissions = [''read:invocation'']\<rparr>"
  let ?auth = "api_auth alist_get alist_set 10 ''boot'' no_faults 100"
  let ?operate = "api_handler sample_env no_remote"
  have body: "body_carries token_lib (body_of ''AdminCreateApiToken'') sample_body (Some (token_request 1 ''ops'' 1000 [''read:invocation'']))"
    unfolding create_token_body
    by (simp add: body_carries_def token_lib_def plain_lib_def ApiTokenCreate_t_def token_request_def texts_val_def members_def in_width_def)
  have "answer_one token_lib alist_get alist_set 10 ''boot'' no_remote sample_arrival ([], True) =
      run_operation ?auth ?operate ''AdminCreateApiToken'' [] (Some (token_request 1 ''ops'' 1000 [''read:invocation'']))
        ''Bearer boot'' (([], True), bootstrap_db)"
    using call_reaches [OF _ _ create_token_route _ body, of ?auth ?operate "''Bearer boot''" "(([], True), bootstrap_db)"]
      plain_lib_laws by (simp add: answer_one_def sample_arrival_def sample_env_def token_lib_def)
  also have "\<dots> = (JsonAnswer 201 (encode ApiToken_t (token_val ?t)),
      (([(''boot'', Some (bootstrap_token 100), 110)], True), bootstrap_db\<lparr>api_tokens := [?t]\<rparr>))"
  proof -
    have "BearerAuth alist_get alist_set 10 no_faults ''boot'' 100 ''Bearer boot'' bootstrap_db ([], True) =
        (Accepted (bootstrap_token 100), [(''boot'', Some (bootstrap_token 100), 110)], True)"
      by (simp add: BearerAuth_def HasPrefix_def bearer_prefix_def GetToken_def alist_get_def alist_set_def fetch_token_def
          Let_def ApiTokenCount_def bootstrap_db_def bootstrap_token_def)
    moreover have "CreateApiToken no_faults 100 ''ma-new'' 1 ''ops'' 1000 (Some [''read:invocation'']) bootstrap_db =
        (Success ?t, bootstrap_db\<lparr>api_tokens := [?t]\<rparr>)"
      by (simp add: CreateApiToken_def ApiTokenInsert_def add_token_def bootstrap_db_def sample_db_def actor_of_def sample_actor_def)
    moreover have "ValidatePermissions (Some (bootstrap_token 100)) (checked_id OpAdminCreateApiToken) = Some (bootstrap_token 100)"
      by (simp add: operations_need_permission bootstrap_token_def del: checked_id.simps)
    ultimately show ?thesis
      by (simp add: run_operation_def api_auth_def api_handler_def create_token_operation checked_def sample_env_def
          respond_def answer_operation_def visit_response_def create_token_response del: checked_id.simps)
  qed
  finally have "answer_one token_lib alist_get alist_set 10 ''boot'' no_remote sample_arrival ([], True) =
      (JsonAnswer 201 (encode ApiToken_t (token_val ?t)),
       (([(''boot'', Some (bootstrap_token 100), 110)], True), bootstrap_db\<lparr>api_tokens := [?t]\<rparr>))" .
  moreover have "bootstrap_db\<lparr>api_tokens := [?t]\<rparr> \<noteq> bootstrap_db"
  proof -
    have "api_tokens (bootstrap_db\<lparr>api_tokens := [?t]\<rparr>) \<noteq> api_tokens bootstrap_db" by (simp add: bootstrap_db_def)
    then show ?thesis by metis
  qed
  ultimately show ?thesis by blast
qed



theorem answers_are_declared_witness:
  "declared ''AdminGetActor'' (fst (api_operation sample_env no_remote ''AdminGetActor'' None [] None bootstrap_db))"
  by (rule answers_are_declared) (simp add: remote_operations_def)

end
