(* ===== verification/Invocation_Server.thy ===== *)
theory Invocation_Server
  imports Server Invocation_Manager
begin

text \<open>
  The operations on invocations behind the HTTP layer: the arguments \<^verbatim>\<open>handler/handler.go\<close> and
  \<^verbatim>\<open>invocation/manager.go\<close> take from parameters and bodies, and the responses they build. Shown here: four
  requests take an invocation from its caller to a worker and its result back.
\<close>

subsection \<open>Arguments\<close>

fun as_json :: "go_val \<Rightarrow> json" where
  "as_json (VAny j) = j"
| "as_json _ = JNull"

fun json_fields :: "go_val \<Rightarrow> (string \<times> json) list" where
  "json_fields (VMap m) = map (\<lambda>kv. (fst kv, as_json (snd kv))) m"
| "json_fields _ = []"

fun json_map :: "go_val \<Rightarrow> json" where
  "json_map (VMap m) = JObj (json_fields (VMap m))"
| "json_map _ = JNull"

fun json_map_ptr :: "go_val \<Rightarrow> json" where
  "json_map_ptr (VPtr v) = json_map v"
| "json_map_ptr _ = JNull"

definition create_request_of :: "fields \<Rightarrow> create_request" where
  "create_request_of b =
     \<lparr>r_actor = as_text (get b ''actor''), r_meta = json_fields (get b ''meta''), r_payload = json_map (get b ''payload'')\<rparr>"

subsection \<open>Responses\<close>

fun invocation_state_text :: "InvocationState \<Rightarrow> string" where
  "invocation_state_text InvocationStateAvailable = ''available''"
| "invocation_state_text InvocationStateCancelled = ''cancelled''"
| "invocation_state_text InvocationStateCompleted = ''completed''"
| "invocation_state_text InvocationStateDiscarded = ''discarded''"
| "invocation_state_text InvocationStateRunning = ''running''"

definition invocation_view_val :: "invocation_view \<Rightarrow> go_val" where
  "invocation_view_val v =
     VStruct
       [(''attempted_at'', ptr_val VInt (v_attempted_at v)), (''errors'', ptr_val any_map_val (v_errors v)),
        (''finalized_at'', ptr_val VInt (v_finalized_at v)), (''id'', VString (v_id v)), (''meta'', any_map_val (v_meta v)),
        (''result'', ptr_val any_map_val (v_result v)), (''state'', VString (invocation_state_text (v_state v)))]"

fun create_async_answer :: "create_async_response outcome \<Rightarrow> response" where
  "create_async_answer (Panic e) = Panic e"
| "create_async_answer (Return (Async201 ident)) = Return (Inr (Some (201, VStruct [(''id'', VString ident)])))"
| "create_async_answer (Return (Async400 e)) = Return (Inr (Some (400, error_val e)))"
| "create_async_answer (Return (Async500 e)) = Return (Inr (Some (500, error_val e)))"
| "create_async_answer (Return (AsyncError e)) = Return (Inl (error_text e))"

fun get_by_id_answer :: "get_by_id_response outcome \<Rightarrow> response" where
  "get_by_id_answer (Panic e) = Panic e"
| "get_by_id_answer (Return (Get200 v)) = Return (Inr (Some (200, invocation_view_val v)))"
| "get_by_id_answer (Return (Get202 v)) = Return (Inr (Some (202, invocation_view_val v)))"
| "get_by_id_answer (Return Get404) = Return (Inr (Some (404, VNil)))"
| "get_by_id_answer (Return (Get500 e)) = Return (Inr (Some (500, error_val e)))"

fun create_sync_answer :: "create_sync_response outcome \<Rightarrow> response" where
  "create_sync_answer (Panic e) = Panic e"
| "create_sync_answer (Return (Sync201 v)) = Return (Inr (Some (201, invocation_view_val v)))"
| "create_sync_answer (Return (Sync400 e)) = Return (Inr (Some (400, error_val e)))"
| "create_sync_answer (Return (Sync500 e)) = Return (Inr (Some (500, error_val e)))"
| "create_sync_answer (Return (SyncError e)) = Return (Inl (error_text e))"

fun finalize_answer :: "finalize_response \<Rightarrow> response" where
  "finalize_answer Finalize200 = Return (Inr (Some (200, VNil)))"
| "finalize_answer Finalize404 = Return (Inr (Some (404, VNil)))"
| "finalize_answer (Finalize500 e) = Return (Inr (Some (500, error_val e)))"

fun get_next_answer :: "get_next_response \<Rightarrow> response" where
  "get_next_answer (Next200 ident meta payload) =
     Return (Inr (Some (200, VStruct [(''id'', VString ident), (''meta'', any_map_val meta), (''payload'', any_map_val payload)])))"
| "get_next_answer Next404 = Return (Inr (Some (404, VNil)))"
| "get_next_answer (Next500 e) = Return (Inr (Some (500, error_val e)))"

subsection \<open>The operations\<close>

text \<open>
  What an operation meets beside its request. A handler that has not returned after the listed events
  or rounds has sent nothing; the client sees of it what it sees of a panic, a connection without an
  answer. The dispatcher a request leaves behind is part of what the next ones are given.
\<close>

record manager_env =
  me_faults :: faults
  me_random :: "nat list option"
  me_schema :: string
  me_listen_ok :: bool
  me_later :: "db \<Rightarrow> wait_event list"
  me_now :: int
  me_start :: int
  me_rounds :: "poll_round list"
  me_signals :: signals

definition sent_so_far :: "('a \<Rightarrow> response) \<Rightarrow> 'a option \<Rightarrow> response" where
  "sent_so_far f r = (case r of None \<Rightarrow> Panic ''still waiting'' | Some x \<Rightarrow> f x)"

definition invocation_method :: "manager_env \<Rightarrow> operation \<Rightarrow> token \<Rightarrow> fields \<Rightarrow> fields \<Rightarrow> db \<Rightarrow> response \<times> db" where
  "invocation_method me op tk args b d =
     (let flt = me_faults me; schema = me_schema me; wait = as_ptr as_int (get args ''wait'')
      in case op of
           OpCreateInvocationAsync \<Rightarrow>
             apfst create_async_answer (InsertInvocation flt (me_random me) schema (create_request_of b) d)
         | OpCreateInvocationSync \<Rightarrow>
             apfst (sent_so_far create_sync_answer)
               (ExecuteInvocationSync flt (me_random me) schema (me_listen_ok me) (create_request_of b) (me_later me) d)
         | OpGetInvocationById \<Rightarrow>
             (sent_so_far get_by_id_answer
                (GetInvocationById flt (me_listen_ok me) (as_text (get args ''id'')) wait (me_later me d) d), d)
         | OpGetNextInvocation \<Rightarrow>
             (case GetNextInvocation (me_start me) (k_actor_id tk) (k_queue_id tk) wait (me_rounds me) (d, me_signals me) of
                (r, d', q') \<Rightarrow> (sent_so_far get_next_answer r, d'))
         | OpReturnInvocationResponse \<Rightarrow>
             apfst finalize_answer
               (ReturnInvocationResponse flt (me_now me) schema (k_actor_id tk) (as_text (get args ''invoke_id''))
                  (json_map_ptr (get b ''result'')) d)
         | _ \<Rightarrow>
             apfst finalize_answer
               (ReturnInvocationError flt (me_now me) schema (k_actor_id tk) (as_text (get args ''invoke_id''))
                  (json_map_ptr (get b ''errors'')) d))"

definition manager_operations :: "operation list" where
  "manager_operations =
     [OpCreateInvocationAsync, OpCreateInvocationSync, OpGetInvocationById, OpGetNextInvocation,
      OpReturnInvocationResponse, OpReturnInvocationError]"

definition with_invocations :: "manager_env \<Rightarrow> remote \<Rightarrow> remote" where
  "with_invocations me others op =
     (if op \<in> set manager_operations then invocation_method me op else others op)"

subsection \<open>The path of an invocation\<close>

text \<open>The tables the authentication reads stay as they are.\<close>

definition same_keys :: "db \<Rightarrow> db \<Rightarrow> bool" where
  "same_keys d d' \<longleftrightarrow> api_tokens d' = api_tokens d \<and> actors d' = actors d"

lemma insert_answers:
  assumes "find (\<lambda>a. a_name a = r_actor req) (actors d) = Some a"
    and "r_meta req \<noteq> []" and "ensure_trace_id random (r_meta req) = Return meta"
    and "encodable (JObj meta)" and "encodable (r_payload req)"
  shows "\<exists>d1. InsertInvocation no_faults random schema req d = (Return (Async201 (FormatInt (next_invocation d))), d1) \<and>
    invocations d1 = invocations d @
      [new_invocation (insert_params (r_actor req) (JObj meta) (r_payload req)) (next_invocation d) (a_queue_id a)] \<and>
    inv_step\<^sup>*\<^sup>* d d1 \<and> same_keys d d1"
proof -
  obtain r d1 where ins: "InsertInvocation no_faults random schema req d = (r, d1)" by fastforce
  then have "inv_step\<^sup>*\<^sup>* d d1" using InsertInvocation_steps [of d no_faults random schema req] by simp
  with ins assms show ?thesis
    by (simp del: encodable.simps
        add: InsertInvocation_def marshal_def Let_def InvocationInsert_params PgNotifyOne_def same_keys_def) fastforce
qed

text \<open>The row of a fetched invocation, and what its worker's answer makes of it.\<close>

lemma fetched_and_completed:
  assumes inv: "invocations_inv d" and empty: "available_in {} (i_queue_id row) d = []"
    and row: "i_state row = InvocationStateAvailable" "i_metadata row = JObj meta" "i_payload row = JObj p"
      "i_errors row = None" "i_id row = iid"
    and d1: "invocations d1 = invocations d @ [row]" "inv_step\<^sup>*\<^sup>* d d1"
    and round: "ro_others ro = id" "ro_fault ro = None" "ro_locked ro = {}"
    and range: "- (2 ^ 63) \<le> iid" "iid < 2 ^ 63" and res: "encodable (JObj res)"
  shows "\<exists>d2 d3.
    (\<forall>q. \<exists>q'. GetNextInvocation start worker (i_queue_id row) w (ro # ros) (d1, q) =
      (Some (Next200 (FormatInt iid) (JObj meta) (JObj p)), d2, q')) \<and>
    ReturnInvocationResponse no_faults now schema worker (FormatInt iid) (JObj res) d2 = (Finalize200, d3) \<and>
    get_invocation no_faults (FormatInt iid) iid d3 =
      Get200 \<lparr>v_id = FormatInt iid, v_attempted_at = Some (ro_now ro), v_finalized_at = Some now, v_meta = JObj meta,
        v_state = InvocationStateCompleted, v_result = Some (JObj res), v_errors = None\<rparr> \<and>
    same_keys d1 d2 \<and> same_keys d2 d3"
proof -
  let ?claimed = "claim_row (ro_now ro) worker row"
  let ?done = "complete_row now (JObj res) ?claimed"
  have "invocations_inv d1" using d1(2) inv by (rule inv_steps_inv)
  from claim_one [OF this one_available [OF empty row(1) d1(1)]] obtain d2 where d2:
    "InvocationGetAvailable {} (ro_now ro) worker (i_queue_id row) 1 d1 = (Inr [?claimed], d2)"
    "invocations_inv d2" "?claimed \<in> set (invocations d2)" by blast
  have claimed: "i_id ?claimed = iid" "finalizable iid worker ?claimed"
    using row by (simp_all add: claim_row_def finalizable_def)
  from complete_one [OF d2(2, 3)] claimed obtain d3 where d3:
    "InvocationSetCompleteIfRunning iid now worker (JObj res) d2 = (Inr (iid, InvocationStateCompleted, Some now), d3)"
    "invocations_inv d3" "?done \<in> set (invocations d3)" by metis
  define d4 where "d4 = snd (PgNotifyOne schema responseTopic (FormatInt iid) d3)"
  have "GetNextInvocation start worker (i_queue_id row) w (ro # ros) (d1, q) =
      (Some (Next200 (FormatInt iid) (JObj meta) (JObj p)), d2, snd (Listen (FormatInt (i_queue_id row)) q))" for q
    using d2(1) claimed row round by (simp add: GetNextInvocation_def createGetNextResponse_def claim_row_def)
  moreover have "ReturnInvocationResponse no_faults now schema worker (FormatInt iid) (JObj res) d2 = (Finalize200, d4)"
    using d3(1) range res ParseInt_FormatInt [of 64 iid]
    by (simp add: ReturnInvocationResponse_def marshal_def d4_def del: encodable.simps)
  moreover have "InvocationFindById iid d3 = (Inr ?done, d3)"
    using find_by_id [OF d3(2, 3)] claimed(1) by (simp add: complete_row_def)
  then have "fst (InvocationFindById iid d4) = Inr ?done"
    by (simp add: InvocationFindById_def d4_def PgNotifyOne_def)
  moreover have "view_of ident ?done = \<lparr>v_id = ident, v_attempted_at = Some (ro_now ro), v_finalized_at = Some now,
      v_meta = JObj meta, v_state = InvocationStateCompleted, v_result = Some (JObj res), v_errors = None\<rparr>"
    "i_result ?done = Some (JObj res)" "i_errors ?done = None" "i_metadata ?done = JObj meta"
    "i_state ?done = InvocationStateCompleted" for ident
    using row by (simp_all add: view_of_def complete_row_def claim_row_def)
  moreover have "same_keys d1 d2" using d2(1) by (auto simp: InvocationGetAvailable_def Let_def same_keys_def)
  moreover have "same_keys d2 d4"
    using d3(1) by (auto simp: InvocationSetCompleteIfRunning_def Let_def same_keys_def d4_def PgNotifyOne_def)
  ultimately show ?thesis
    by (intro exI [of _ d2] exI [of _ d4]) (simp add: get_invocation_def finalizedStatuses_def)
qed

subsection \<open>Keys the database knows\<close>

definition key_of :: "db \<Rightarrow> string \<Rightarrow> token \<Rightarrow> bool" where
  "key_of d key tk \<longleftrightarrow>
     (\<exists>t a. filter (\<lambda>t. t_id t = key) (api_tokens d) = [t] \<and> actor_of d (t_actor_id t) = Some a \<and> tk = token_of (t, a))"

definition agrees :: "(string \<times> token option \<times> int) set \<Rightarrow> db \<Rightarrow> bool" where
  "agrees entries d \<longleftrightarrow> (\<forall>key v e tk. (key, v, e) \<in> entries \<and> key_of d key tk \<longrightarrow> v = Some tk)"

lemma same_keys: "same_keys d d' \<Longrightarrow> key_of d' = key_of d" "same_keys d d' \<Longrightarrow> agrees entries d' = agrees entries d"
proof -
  show "key_of d' = key_of d" if "same_keys d d'" for d'
    using that by (simp add: key_of_def [abs_def] actor_of_def same_keys_def fun_eq_iff)
  then show "agrees entries d' = agrees entries d" if "same_keys d d'"
    using that by (simp add: agrees_def)
qed

lemma key_of_unique: "key_of d key tk \<Longrightarrow> key_of d key tk' \<Longrightarrow> tk' = tk"
  by (auto simp: key_of_def)

lemma known_key_accepted:
  assumes laws: "cache_laws cget cset stored" and key: "key_of d key tk" and cache: "agrees (stored c) d"
    and "now \<le> k_expire_at tk" and "flt 0 = None" and "flt 1 = None"
  shows "\<exists>c' boot'. BearerAuth cget cset ttl flt boot_tok now (bearer_prefix @ key) d (c, boot) = (Accepted tk, c', boot') \<and>
    agrees (stored c') d"
proof -
  have prefixed: "HasPrefix (bearer_prefix @ key) bearer_prefix" "bearer_prefix @ key \<noteq> ''''"
    by (simp_all add: HasPrefix_def bearer_prefix_def)
  show ?thesis
  proof (cases "cget c now key")
    case (Some v)
    then obtain e where "(key, v, e) \<in> stored c" using laws unfolding cache_laws_def by blast
    then have "v = Some tk" using cache key unfolding agrees_def by blast
    then show ?thesis using Some assms(4) cache prefixed by (simp add: BearerAuth_def GetToken_def)
  next
    case None
    obtain t a where t: "filter (\<lambda>t. t_id t = key) (api_tokens d) = [t]" "actor_of d (t_actor_id t) = Some a" "tk = token_of (t, a)"
      using key unfolding key_of_def by blast
    obtain boot' where "fetch_token flt boot_tok now key boot d = (Inr (Some tk), boot')"
      using fetch_created [OF t(1, 2) assms(5, 6), of boot_tok now boot] t(3) by blast
    moreover have "stored (cset c now ttl key (Some tk)) \<subseteq> insert (key, Some tk, now + ttl) (stored c)"
      using laws unfolding cache_laws_def by blast
    then have "agrees (stored (cset c now ttl key (Some tk))) d"
      using cache key_of_unique [OF key] unfolding agrees_def by blast
    ultimately show ?thesis using None assms(4) prefixed by (simp add: BearerAuth_def GetToken_def)
  qed
qed

subsection \<open>Calls of the server\<close>

text \<open>The libraries and settings the server is started with, and a client's call with an API key.\<close>

record 'c service_parts =
  sp_lib :: http_lib
  sp_get :: "'c \<Rightarrow> int \<Rightarrow> string \<Rightarrow> token option option"
  sp_set :: "'c \<Rightarrow> int \<Rightarrow> int \<Rightarrow> string \<Rightarrow> token option \<Rightarrow> 'c"
  sp_ttl :: int
  sp_boot_token :: string
  sp_others :: remote

definition ask ::
    "'c service_parts \<Rightarrow> api_env \<Rightarrow> manager_env \<Rightarrow> string \<Rightarrow> string \<Rightarrow> string \<Rightarrow> string \<Rightarrow> (param \<times> go_val) list \<Rightarrow> string \<Rightarrow>
     'c server \<Rightarrow> (nat \<times> go_val) option \<times> 'c server" where
  "ask p env me key m template name args body = (\<lambda>(cb, d).
     apfst (read_answer name)
       (answer_one (sp_lib p) (sp_get p) (sp_set p) (sp_ttl p) (sp_boot_token p) (with_invocations me (sp_others p))
          \<lparr>ar_env = env, ar_auth_faults = no_faults, ar_db = d,
           ar_request = call_request m template args (bearer_prefix @ key) body\<rparr> cb))"

definition manager_names :: "(string \<times> operation) list" where
  "manager_names =
     [(''CreateInvocationAsync'', OpCreateInvocationAsync), (''CreateInvocationSync'', OpCreateInvocationSync),
      (''GetInvocationById'', OpGetInvocationById), (''GetNextInvocation'', OpGetNextInvocation),
      (''ReturnInvocationResponse'', OpReturnInvocationResponse), (''ReturnInvocationError'', OpReturnInvocationError)]"

lemma manager_names_dispatch:
  "list_all (\<lambda>(name, op). name \<noteq> ''GetHealth'' \<and> name \<noteq> ''GetCallerConfig'' \<and> name \<notin> set panicking_operations \<and>
     name \<notin> set failing_operations \<and> map_of actor_operations name = None \<and> map_of token_operations name = None \<and>
     map_of deployment_operations name = None \<and> map_of remote_operations name = Some op \<and> op \<in> set manager_operations)
   manager_names"
  by code_simp

lemma invocation_dispatch:
  assumes "(name, op) \<in> set manager_names"
  shows "api_operation env (with_invocations me others) name tok args body d =
    checked (\<lambda>op tk. invocation_method me op tk args (case body of None \<Rightarrow> [] | Some v \<Rightarrow> fields_of v)) op tok d"
proof -
  note facts = bspec [OF manager_names_dispatch [unfolded list_all_iff] assms, simplified]
  then have "with_invocations me others op = invocation_method me op" by (simp add: with_invocations_def)
  with facts show ?thesis by (simp add: api_operation_def Let_def checked_def split: option.split)
qed

lemma ask_manager:
  assumes laws: "mux_laws (route_request (sp_lib p))" "binding_laws (sp_lib p)" "cache_laws (sp_get p) (sp_set p) stored"
    and call: "typed_call m template name args" "name = ''GetInvocationById'' \<Longrightarrow> path_texts args \<noteq> [''next'']"
      "body_carries (sp_lib p) (body_of name) body v"
    and op: "(name, op) \<in> set manager_names"
    and key: "key_of d key tk" "agrees (stored (fst cb)) d" "env_now env \<le> k_expire_at tk" "needed_permission op \<in> set (k_permissions tk)"
    and run: "invocation_method me op tk (map (\<lambda>a. (arg_name a, snd a)) args) (case v of None \<Rightarrow> [] | Some v \<Rightarrow> fields_of v) d =
      (Return (Inr (Some (status, w))), d')"
    and status: "map_of (responses_of name) status = Some bt" "case bt of None \<Rightarrow> w = VNil | Some t \<Rightarrow> has_type t w \<and> solid t w"
    and keeps: "same_keys d d'"
  shows "\<exists>cb'. ask p env me key m template name args body (cb, d) = (Some (status, w), (cb', d')) \<and> agrees (stored (fst cb')) d'"
proof -
  obtain c boot where cb: "cb = (c, boot)" by (cases cb)
  obtain c' boot' where auth: "BearerAuth (sp_get p) (sp_set p) (sp_ttl p) no_faults (sp_boot_token p) (env_now env)
      (bearer_prefix @ key) d (c, boot) = (Accepted tk, c', boot')" and cache: "agrees (stored c') d"
    using known_key_accepted [OF laws(3) key(1) _ key(3), where c = c and flt = no_faults and ttl = "sp_ttl p" and
      boot_tok = "sp_boot_token p" and boot = boot] key(2) cb by auto
  let ?auth = "api_auth (sp_get p) (sp_set p) (sp_ttl p) (sp_boot_token p) no_faults (env_now env)"
  let ?handler = "api_handler env (with_invocations me (sp_others p))"
  have "serve (sp_lib p) ?auth ?handler (call_request m template args (bearer_prefix @ key) body) (cb, d) =
      run_operation ?auth ?handler name (map (\<lambda>a. (arg_name a, snd a)) args) v (bearer_prefix @ key) (cb, d)"
    by (rule call_reaches [OF laws(1, 2) call(1) _ call(3)]) (rule call(2))
  also have "\<dots> = (answer_operation name (Return (Inr (Some (status, w)))), ((c', boot'), d'))"
    using auth run key(4)
    by (simp add: run_operation_def api_auth_def api_handler_def cb invocation_dispatch [OF op] checked_def
        operations_need_permission del: checked_id.simps)
  finally have "ask p env me key m template name args body (cb, d) = (Some (status, w), ((c', boot'), d'))"
    using read_visited [OF status] by (simp add: ask_def answer_one_def answer_operation_def)
  then show ?thesis using same_keys(2) [OF keeps] cache by auto
qed

subsection \<open>Maps of arbitrary values\<close>

lemma put_first: "\<forall>x \<in> set m. k < fst x \<Longrightarrow> put k v m = (k, v) # m"
  by (cases m) (auto simp: order_less_imp_not_eq)

lemma map_val_typed: "(\<And>x. has_type t (f x)) \<Longrightarrow> has_type (TMap t) (map_val f kvs)"
proof -
  assume f: "\<And>x. has_type t (f x)"
  have "sorted_wrt (<) (map fst (foldr (\<lambda>kv acc. put (fst kv) (f (snd kv)) acc) kvs [])) \<and>
      list_all (\<lambda>kv. has_type t (snd kv)) (foldr (\<lambda>kv acc. put (fst kv) (f (snd kv)) acc) kvs [])"
  proof (induction kvs)
    case (Cons kv kvs)
    then show ?case using put_ordered put_set f by (fastforce simp: list_all_iff)
  qed simp
  then show ?thesis by (simp add: map_val_def)
qed

lemma any_map_typed: "has_type (TMap TAny) (any_map_val (JObj kvs))"
  by (simp only: any_map_val.simps) (rule map_val_typed, simp)

lemma any_map_solid: "solid (TMap TAny) v"
  by (cases v) (simp_all add: list_all_iff)

lemma any_map_back:
  assumes "has_type (TMap TAny) (VMap m)"
  shows "any_map_val (json_map (VMap m)) = VMap m"
proof -
  have "sorted_wrt (<) (map fst m) \<Longrightarrow> list_all (\<lambda>kv. has_type TAny (snd kv)) m \<Longrightarrow>
      foldr (\<lambda>kv acc. put (fst kv) (VAny (go_value (snd kv))) acc) (json_fields (VMap m)) [] = m"
  proof (induction m)
    case (Cons x m)
    moreover obtain j where "snd x = VAny j" "go_value j = j" using Cons.prems by (cases "snd x") auto
    ultimately show ?case using put_first [of m "fst x" "snd x"] by (cases x) auto
  qed simp
  then show ?thesis using assms by (simp add: map_val_def)
qed

lemma any_map_encoded: "encode (TMap TAny) (any_map_val (JObj kvs)) \<noteq> JNull"
  by (simp add: map_val_def)

subsection \<open>Four requests\<close>

definition submission :: "string \<Rightarrow> (string \<times> go_val) list \<Rightarrow> (string \<times> go_val) list \<Rightarrow> go_val" where
  "submission name meta payload =
     VStruct [(''actor'', VString name), (''meta'', VMap meta), (''payload'', VMap payload)]"

definition job_result :: "(string \<times> go_val) list \<Rightarrow> go_val" where
  "job_result res = VStruct [(''result'', VPtr (VMap res))]"

definition no_wait :: "param \<times> go_val" where
  "no_wait = ((QueryParam False, ''wait'', TPtr (TInt 64)), VNil)"

definition in_path_as :: "string \<Rightarrow> string \<Rightarrow> param \<times> go_val" where
  "in_path_as name v = ((PathParam, name, TString), VString v)"

lemma invocation_calls:
  "typed_call ''POST'' ''/v1/invocations/async'' ''CreateInvocationAsync'' []"
  "typed_call ''GET'' ''/v1/invocations/next'' ''GetNextInvocation'' [no_wait]"
  "path_value v \<Longrightarrow> typed_call ''POST'' ''/v1/invocations/{invoke_id}/response'' ''ReturnInvocationResponse''
     [in_path_as ''invoke_id'' v]"
  "path_value v \<Longrightarrow> typed_call ''GET'' ''/v1/invocations/{id}'' ''GetInvocationById'' [in_path_as ''id'' v, no_wait]"
  by (simp_all add: typed_call_def routes_def params_of_def members_def table_defs no_wait_def in_path_as_def texts_of_def
      path_value_def)

lemma invocation_bodies:
  "body_of ''CreateInvocationAsync'' = Some CreateInvocationAsyncJSONBody_t" "body_of ''GetNextInvocation'' = None"
  "body_of ''ReturnInvocationResponse'' = Some ReturnInvocationResponseJSONBody_t" "body_of ''GetInvocationById'' = None"
  by (simp_all add: body_of_def members_def table_defs)

lemma invocation_statuses:
  "map_of (responses_of ''CreateInvocationAsync'') 201 = Some (Some (TStruct [(''id'', False, TString)]))"
  "map_of (responses_of ''GetNextInvocation'') 200 = Some (Some InvocationJob_t)"
  "map_of (responses_of ''ReturnInvocationResponse'') 200 = Some None"
  "map_of (responses_of ''GetInvocationById'') 200 = Some (Some InvocationResult_t)"
  by (simp_all add: responses_of_def members_def table_defs)

lemma number_in_path: "path_value (FormatInt n)" "FormatInt n \<noteq> ''next''"
proof -
  have "CHR ''/'' \<notin> set (FormatInt n)" "CHR ''.'' \<notin> set (FormatInt n)" "CHR ''n'' \<notin> set (FormatInt n)"
    by (auto dest!: FormatInt_chars simp: digit_val_def)
  then show "path_value (FormatInt n)" "FormatInt n \<noteq> ''next''" by (auto simp: path_value_def)
qed

definition job_val :: "string \<Rightarrow> (string \<times> json) list \<Rightarrow> (string \<times> go_val) list \<Rightarrow> go_val" where
  "job_val ident meta payload =
     VStruct [(''id'', VString ident), (''meta'', any_map_val (JObj meta)), (''payload'', VMap payload)]"

definition completed_val ::
    "string \<Rightarrow> int \<Rightarrow> int \<Rightarrow> (string \<times> json) list \<Rightarrow> (string \<times> go_val) list \<Rightarrow> go_val" where
  "completed_val ident attempted finalized meta res =
     VStruct
       [(''attempted_at'', VPtr (VInt attempted)), (''errors'', VNil), (''finalized_at'', VPtr (VInt finalized)),
        (''id'', VString ident), (''meta'', any_map_val (JObj meta)), (''result'', VPtr (VMap res)),
        (''state'', VString ''completed'')]"

lemma job_typed:
  assumes "has_type (TMap TAny) (VMap payload)"
  shows "has_type InvocationJob_t (job_val ident meta payload)" "solid InvocationJob_t (job_val ident meta payload)"
  using assms any_map_typed any_map_solid
  by (simp_all add: InvocationJob_t_def job_val_def members_def del: has_type.simps(9) solid.simps(9) any_map_val.simps)

lemma completed_typed:
  assumes "has_type (TMap TAny) (VMap res)" and "in_width 64 attempted" and "in_width 64 finalized"
  shows "has_type InvocationResult_t (completed_val ident attempted finalized meta res)"
    "solid InvocationResult_t (completed_val ident attempted finalized meta res)"
  using assms any_map_typed any_map_solid
  by (simp_all add: InvocationResult_t_def completed_val_def members_def del: has_type.simps(9) solid.simps(9) any_map_val.simps)

definition granted :: "db \<Rightarrow> api_env \<Rightarrow> string \<Rightarrow> token \<Rightarrow> string \<Rightarrow> bool" where
  "granted d env key tk perm \<longleftrightarrow>
     key_of d key tk \<and> env_now env \<le> k_expire_at tk \<and> perm \<in> set (k_permissions tk)"

lemma granted_kept: "same_keys d d' \<Longrightarrow> granted d' env key tk perm = granted d env key tk perm"
  by (simp add: granted_def same_keys(1))

lemma submits:
  assumes laws: "mux_laws (route_request (sp_lib p))" "binding_laws (sp_lib p)" "cache_laws (sp_get p) (sp_set p) stored"
    and key: "granted d env key tk ''create:invocation''" "agrees (stored (fst cb)) d"
    and body: "body_carries (sp_lib p) (Some CreateInvocationAsyncJSONBody_t) text (Some (submission name mv pv))"
    and insert: "InsertInvocation (me_faults me) (me_random me) (me_schema me)
        \<lparr>r_actor = name, r_meta = json_fields (VMap mv), r_payload = json_map (VMap pv)\<rparr> d = (Return (Async201 ident), d1)"
    and keeps: "same_keys d d1"
  shows "\<exists>cb'. ask p env me key ''POST'' ''/v1/invocations/async'' ''CreateInvocationAsync'' [] text (cb, d) =
      (Some (201, VStruct [(''id'', VString ident)]), (cb', d1)) \<and> agrees (stored (fst cb')) d1"
proof (rule ask_manager [OF laws invocation_calls(1) _ body [folded invocation_bodies(1)] _ _ key(2) _ _ _
    invocation_statuses(1) _ keeps, where op = OpCreateInvocationAsync and tk = tk])
  have "create_request_of (fields_of (submission name mv pv)) =
      \<lparr>r_actor = name, r_meta = json_fields (VMap mv), r_payload = json_map (VMap pv)\<rparr>"
    by (simp add: create_request_of_def submission_def get_def members_def)
  then show "invocation_method me OpCreateInvocationAsync tk (map (\<lambda>a. (arg_name a, snd a)) [])
      (case Some (submission name mv pv) of None \<Rightarrow> [] | Some v \<Rightarrow> fields_of v) d =
      (Return (Inr (Some (201, VStruct [(''id'', VString ident)]))), d1)"
    using insert by (simp add: invocation_method_def Let_def)
qed (use key(1) in \<open>simp_all add: granted_def manager_names_def members_def\<close>)

lemma fetches:
  assumes laws: "mux_laws (route_request (sp_lib p))" "binding_laws (sp_lib p)" "cache_laws (sp_get p) (sp_set p) stored"
    and key: "granted d env key tk ''read:invocation''" "agrees (stored (fst cb)) d"
    and got: "GetNextInvocation (me_start me) (k_actor_id tk) (k_queue_id tk) None (me_rounds me) (d, me_signals me) =
        (Some (Next200 ident (JObj meta) (json_map (VMap pv))), d1, q)"
    and pv: "has_type (TMap TAny) (VMap pv)" and keeps: "same_keys d d1"
  shows "\<exists>cb'. ask p env me key ''GET'' ''/v1/invocations/next'' ''GetNextInvocation'' [no_wait] text (cb, d) =
      (Some (200, job_val ident meta pv), (cb', d1)) \<and> agrees (stored (fst cb')) d1"
proof (rule ask_manager [OF laws invocation_calls(2) _ _ _ _ key(2) _ _ _ invocation_statuses(2) _ keeps,
    where op = OpGetNextInvocation and tk = tk and v = None])
  show "invocation_method me OpGetNextInvocation tk (map (\<lambda>a. (arg_name a, snd a)) [no_wait])
      (case None of None \<Rightarrow> [] | Some v \<Rightarrow> fields_of v) d = (Return (Inr (Some (200, job_val ident meta pv))), d1)"
    using got any_map_back [OF pv]
    by (simp add: invocation_method_def Let_def no_wait_def arg_name_def get_def members_def sent_so_far_def job_val_def
        del: any_map_val.simps json_map.simps)
qed (use key(1) job_typed [OF pv] in \<open>simp_all add: granted_def manager_names_def body_carries_def invocation_bodies\<close>)

lemma returns:
  assumes laws: "mux_laws (route_request (sp_lib p))" "binding_laws (sp_lib p)" "cache_laws (sp_get p) (sp_set p) stored"
    and key: "granted d env key tk ''read:invocation''" "agrees (stored (fst cb)) d"
    and body: "body_carries (sp_lib p) (Some ReturnInvocationResponseJSONBody_t) text (Some (job_result rv))"
    and ident: "path_value ident"
    and returned: "ReturnInvocationResponse (me_faults me) (me_now me) (me_schema me) (k_actor_id tk) ident (json_map (VMap rv)) d =
        (Finalize200, d1)"
    and keeps: "same_keys d d1"
  shows "\<exists>cb'. ask p env me key ''POST'' ''/v1/invocations/{invoke_id}/response'' ''ReturnInvocationResponse''
      [in_path_as ''invoke_id'' ident] text (cb, d) = (Some (200, VNil), (cb', d1)) \<and> agrees (stored (fst cb')) d1"
proof (rule ask_manager [OF laws invocation_calls(3) [OF ident] _ body [folded invocation_bodies(3)] _ _ key(2) _ _ _
    invocation_statuses(3) _ keeps, where op = OpReturnInvocationResponse and tk = tk])
  show "invocation_method me OpReturnInvocationResponse tk (map (\<lambda>a. (arg_name a, snd a)) [in_path_as ''invoke_id'' ident])
      (case Some (job_result rv) of None \<Rightarrow> [] | Some v \<Rightarrow> fields_of v) d = (Return (Inr (Some (200, VNil))), d1)"
    using returned
    by (simp add: invocation_method_def Let_def in_path_as_def arg_name_def get_def members_def job_result_def
        del: json_map.simps)
qed (use key(1) in \<open>simp_all add: granted_def manager_names_def\<close>)

lemma reads_result:
  assumes laws: "mux_laws (route_request (sp_lib p))" "binding_laws (sp_lib p)" "cache_laws (sp_get p) (sp_set p) stored"
    and key: "granted d env key tk ''create:invocation''" "agrees (stored (fst cb)) d"
    and ident: "path_value ident" "ident \<noteq> ''next''" "ParseInt 64 ident = Some iid"
    and got: "get_invocation (me_faults me) ident iid d =
        Get200 \<lparr>v_id = ident, v_attempted_at = Some attempted, v_finalized_at = Some finalized, v_meta = JObj meta,
          v_state = InvocationStateCompleted, v_result = Some (json_map (VMap rv)), v_errors = None\<rparr>"
    and rv: "has_type (TMap TAny) (VMap rv)" "in_width 64 attempted" "in_width 64 finalized"
  shows "\<exists>cb'. ask p env me key ''GET'' ''/v1/invocations/{id}'' ''GetInvocationById'' [in_path_as ''id'' ident, no_wait] text
      (cb, d) = (Some (200, completed_val ident attempted finalized meta rv), (cb', d)) \<and> agrees (stored (fst cb')) d"
proof (rule ask_manager [OF laws invocation_calls(4) [OF ident(1)] _ _ _ _ key(2) _ _ _ invocation_statuses(4),
    where op = OpGetInvocationById and tk = tk and v = None])
  show "invocation_method me OpGetInvocationById tk (map (\<lambda>a. (arg_name a, snd a)) [in_path_as ''id'' ident, no_wait])
      (case None of None \<Rightarrow> [] | Some v \<Rightarrow> fields_of v) d =
      (Return (Inr (Some (200, completed_val ident attempted finalized meta rv))), d)"
    using got ident(3) any_map_back [OF rv(1)]
    by (simp add: invocation_method_def Let_def in_path_as_def no_wait_def arg_name_def get_def members_def sent_so_far_def
        GetInvocationById_def invocation_view_val_def completed_val_def del: any_map_val.simps json_map.simps)
qed (use key(1) ident(2) completed_typed [OF rv] in
  \<open>simp_all add: granted_def manager_names_def body_carries_def invocation_bodies same_keys_def in_path_as_def no_wait_def
     path_texts_def text_or_empty_def\<close>)

lemma body_maps:
  assumes "body_carries lib (Some CreateInvocationAsyncJSONBody_t) text1 (Some (submission name mv pv))"
    and "body_carries lib (Some ReturnInvocationResponseJSONBody_t) text2 (Some (job_result rv))"
  shows "has_type (TMap TAny) (VMap pv)" "has_type (TMap TAny) (VMap rv)"
  using assms
  by (simp_all add: body_carries_def CreateInvocationAsyncJSONBody_t_def ReturnInvocationResponseJSONBody_t_def
      submission_def job_result_def members_def)

text \<open>C1. An invocation over HTTP. Four requests with API keys the database knows, one after the other: a
  caller submits metadata and payload for an actor and is answered with an id; the worker that asks for
  work of this actor's queue gets the job with this id, the metadata and exactly the payload submitted;
  its result is accepted for the id; and the caller who asks for the id reads that the invocation is
  completed, with the times of both, and exactly the result the worker sent.\<close>

theorem invocation_over_http:
  assumes laws: "mux_laws (route_request (sp_lib p))" "binding_laws (sp_lib p)" "cache_laws (sp_get p) (sp_set p) stored"
    and db: "invocations_inv d" "find (\<lambda>a. a_name a = name) (actors d) = Some a" "available_in {} (a_queue_id a) d = []"
      "in_width 64 (next_invocation d)"
    and keys: "agrees (stored (fst cb)) d" "granted d e1 ck ctk ''create:invocation''" "granted d e4 ck ctk ''create:invocation''"
      "granted d e2 wk wtk ''read:invocation''" "granted d e3 wk wtk ''read:invocation''" "k_queue_id wtk = a_queue_id a"
    and submitted: "body_carries (sp_lib p) (Some CreateInvocationAsyncJSONBody_t) text1 (Some (submission name mv pv))"
      "mv \<noteq> []" "ensure_trace_id (me_random m1) (json_fields (VMap mv)) = Return meta" "encodable (JObj meta)"
      "encodable (json_map (VMap pv))"
    and answered: "body_carries (sp_lib p) (Some ReturnInvocationResponseJSONBody_t) text2 (Some (job_result rv))"
      "encodable (json_map (VMap rv))"
    and calls: "me_faults m1 = no_faults" "me_faults m3 = no_faults" "me_faults m4 = no_faults"
      "me_rounds m2 = ro # ros" "ro_others ro = id" "ro_fault ro = None" "ro_locked ro = {}"
      "in_width 64 (ro_now ro)" "in_width 64 (me_now m3)"
  shows "\<exists>ident s1 s2 s3 s4.
    ask p e1 m1 ck ''POST'' ''/v1/invocations/async'' ''CreateInvocationAsync'' [] text1 (cb, d) =
      (Some (201, VStruct [(''id'', VString ident)]), s1) \<and>
    ask p e2 m2 wk ''GET'' ''/v1/invocations/next'' ''GetNextInvocation'' [no_wait] '''' s1 =
      (Some (200, job_val ident meta pv), s2) \<and>
    ask p e3 m3 wk ''POST'' ''/v1/invocations/{invoke_id}/response'' ''ReturnInvocationResponse''
      [in_path_as ''invoke_id'' ident] text2 s2 = (Some (200, VNil), s3) \<and>
    ask p e4 m4 ck ''GET'' ''/v1/invocations/{id}'' ''GetInvocationById'' [in_path_as ''id'' ident, no_wait] '''' s3 =
      (Some (200, completed_val ident (ro_now ro) (me_now m3) meta rv), s4)"
proof -
  note typed = body_maps [OF submitted(1) answered(1)]
  define iid where "iid = next_invocation d"
  let ?req = "\<lparr>r_actor = name, r_meta = json_fields (VMap mv), r_payload = json_map (VMap pv)\<rparr>"
  let ?row = "new_invocation (insert_params name (JObj meta) (json_map (VMap pv))) iid (a_queue_id a)"
  obtain d1 where d1: "InsertInvocation no_faults (me_random m1) (me_schema m1) ?req d = (Return (Async201 (FormatInt iid)), d1)"
      "invocations d1 = invocations d @ [?row]" "inv_step\<^sup>*\<^sup>* d d1" "same_keys d d1"
    using insert_answers [where req = ?req and d = d and a = a and random = "me_random m1" and meta = meta and
      schema = "me_schema m1"] db(2) submitted(2-5) by (auto simp: iid_def)
  have range: "- (2 ^ 63) \<le> iid" "iid < 2 ^ 63" using db(4) by (simp_all add: in_width_def iid_def)
  then have parsed: "ParseInt 64 (FormatInt iid) = Some iid" using ParseInt_FormatInt [of 64 iid] by simp
  have row: "i_queue_id ?row = a_queue_id a" "i_state ?row = InvocationStateAvailable" "i_metadata ?row = JObj meta"
      "i_payload ?row = JObj (json_fields (VMap pv))" "i_errors ?row = None" "i_id ?row = iid"
    by (simp_all add: new_invocation_def insert_params_def)
  obtain d2 d3 where
      got: "\<And>q. \<exists>q'. GetNextInvocation (me_start m2) (k_actor_id wtk) (a_queue_id a) None (ro # ros) (d1, q) =
        (Some (Next200 (FormatInt iid) (JObj meta) (json_map (VMap pv))), d2, q')"
      and ret: "ReturnInvocationResponse no_faults (me_now m3) (me_schema m3) (k_actor_id wtk) (FormatInt iid)
        (json_map (VMap rv)) d2 = (Finalize200, d3)"
      and view: "get_invocation no_faults (FormatInt iid) iid d3 =
        Get200 \<lparr>v_id = FormatInt iid, v_attempted_at = Some (ro_now ro), v_finalized_at = Some (me_now m3), v_meta = JObj meta,
          v_state = InvocationStateCompleted, v_result = Some (json_map (VMap rv)), v_errors = None\<rparr>"
      and same: "same_keys d1 d2" "same_keys d2 d3"
    using fetched_and_completed [OF db(1) _ row(2-6) d1(2, 3) calls(5-7) range] db(3) answered(2) row(1)
    by (metis json_map.simps(1))
  note kept = granted_kept [OF d1(4)] granted_kept [OF same(1)] granted_kept [OF same(2)]
  obtain cb1 where s1: "ask p e1 m1 ck ''POST'' ''/v1/invocations/async'' ''CreateInvocationAsync'' [] text1 (cb, d) =
      (Some (201, VStruct [(''id'', VString (FormatInt iid))]), (cb1, d1))" "agrees (stored (fst cb1)) d1"
    using submits [OF laws keys(2, 1) submitted(1) _ d1(4)] d1(1) calls(1) by metis
  obtain cb2 where s2: "ask p e2 m2 wk ''GET'' ''/v1/invocations/next'' ''GetNextInvocation'' [no_wait] '''' (cb1, d1) =
      (Some (200, job_val (FormatInt iid) meta pv), (cb2, d2))" "agrees (stored (fst cb2)) d2"
    using fetches [OF laws _ s1(2) _ typed(1) same(1)] keys(4) kept got [of "me_signals m2"] calls(4) keys(6) by metis
  obtain cb3 where s3: "ask p e3 m3 wk ''POST'' ''/v1/invocations/{invoke_id}/response'' ''ReturnInvocationResponse''
      [in_path_as ''invoke_id'' (FormatInt iid)] text2 (cb2, d2) = (Some (200, VNil), (cb3, d3))" "agrees (stored (fst cb3)) d3"
    using returns [OF laws _ s2(2) answered(1) number_in_path(1) _ same(2)] keys(5) kept ret calls(2) by metis
  obtain cb4 where "ask p e4 m4 ck ''GET'' ''/v1/invocations/{id}'' ''GetInvocationById''
      [in_path_as ''id'' (FormatInt iid), no_wait] '''' (cb3, d3) =
      (Some (200, completed_val (FormatInt iid) (ro_now ro) (me_now m3) meta rv), (cb4, d3))"
    using reads_result [OF laws _ s3(2) number_in_path parsed _ typed(2) calls(8, 9), where me = m4] keys(3) kept view
      calls(3) by (metis (no_types))
  with s1(1) s2(1) s3(1) show ?thesis by blast
qed

subsection \<open>A sample service\<close>

text \<open>One actor that both submits and works; its key was issued with both permissions.\<close>

definition service_db :: db where
  "service_db = sample_db\<lparr>api_tokens :=
     [\<lparr>t_id = ''tok'', t_actor_id = 1, t_expire_at = 1000, t_created_by = ''ops'', t_created_at = 10,
       t_permissions = [''create:invocation'', ''read:invocation'']\<rparr>]\<rparr>"

definition service_token :: token where
  "service_token = \<lparr>k_id = ''tok'', k_actor_id = 1, k_queue_id = 3, k_expire_at = 1000,
     k_permissions = [''create:invocation'', ''read:invocation'']\<rparr>"

definition sample_submission :: go_val where
  "sample_submission = submission ''bot'' [(''trace_id'', VAny (JStr ''t''))] [(''n'', VAny (JNum 1))]"

definition sample_result :: go_val where
  "sample_result = job_result [(''ok'', VAny (JBool True))]"

definition sample_parts :: "alist_cache service_parts" where
  "sample_parts =
     \<lparr>sp_lib = plain_lib (\<lambda>s. if s = ''submission'' then Some (encode CreateInvocationAsyncJSONBody_t sample_submission)
        else if s = ''result'' then Some (encode ReturnInvocationResponseJSONBody_t sample_result) else None),
      sp_get = alist_get, sp_set = alist_set, sp_ttl = 10, sp_boot_token = ''boot'', sp_others = no_remote\<rparr>"

definition sample_manager_env :: manager_env where
  "sample_manager_env =
     \<lparr>me_faults = no_faults, me_random = None, me_schema = ''public'', me_listen_ok = True, me_later = (\<lambda>_. []),
      me_now = 110, me_start = 100, me_rounds = [sample_round], me_signals = NewDispatcher\<rparr>"

lemma service_granted:
  "granted service_db sample_env ''tok'' service_token ''create:invocation''"
  "granted service_db sample_env ''tok'' service_token ''read:invocation''"
  by (simp_all add: granted_def key_of_def service_db_def service_token_def sample_env_def token_of_def actor_of_def
      sample_db_def sample_actor_def)

lemma service_bodies:
  "body_carries (sp_lib sample_parts) (Some CreateInvocationAsyncJSONBody_t) ''submission'' (Some sample_submission)"
  "body_carries (sp_lib sample_parts) (Some ReturnInvocationResponseJSONBody_t) ''result'' (Some sample_result)"
  by (simp_all add: body_carries_def sample_parts_def plain_lib_def sample_submission_def sample_result_def submission_def
      job_result_def CreateInvocationAsyncJSONBody_t_def ReturnInvocationResponseJSONBody_t_def members_def)

theorem invocation_over_http_witness:
  "\<exists>ident s1 s2 s3 s4.
    ask sample_parts sample_env sample_manager_env ''tok'' ''POST'' ''/v1/invocations/async'' ''CreateInvocationAsync'' []
      ''submission'' (([], False), service_db) = (Some (201, VStruct [(''id'', VString ident)]), s1) \<and>
    ask sample_parts sample_env sample_manager_env ''tok'' ''GET'' ''/v1/invocations/next'' ''GetNextInvocation'' [no_wait] '''' s1 =
      (Some (200, job_val ident [(''trace_id'', JStr ''t'')] [(''n'', VAny (JNum 1))]), s2) \<and>
    ask sample_parts sample_env sample_manager_env ''tok'' ''POST'' ''/v1/invocations/{invoke_id}/response''
      ''ReturnInvocationResponse'' [in_path_as ''invoke_id'' ident] ''result'' s2 = (Some (200, VNil), s3) \<and>
    ask sample_parts sample_env sample_manager_env ''tok'' ''GET'' ''/v1/invocations/{id}'' ''GetInvocationById''
      [in_path_as ''id'' ident, no_wait] '''' s3 =
      (Some (200, completed_val ident (ro_now sample_round) (me_now sample_manager_env) [(''trace_id'', JStr ''t'')]
        [(''ok'', VAny (JBool True))]), s4)"
proof (rule invocation_over_http [OF _ _ _ _ _ _ _ _ service_granted(1, 1) service_granted(2, 2) _
    service_bodies(1) [unfolded sample_submission_def] _ _ _ _ service_bodies(2) [unfolded sample_result_def],
    where stored = set and a = sample_actor and ros = "[]"])
  show "invocations_inv service_db" using sample_db_inv by (simp add: service_db_def invocations_inv_def)
qed (simp_all add: sample_parts_def plain_lib_laws alist_cache_laws service_db_def sample_db_empty available_in_def
    agrees_def service_token_def ensure_trace_id_def sample_manager_env_def sample_round_def in_width_def)

end
