(* ===== verification/Spec2Isabelle.thy ===== *)
theory Spec2Isabelle
  imports
    Util_Lib Invocation_Manager Notifier Start_Stop Base_Service
    Deployment_Admin Access Actor_Admin Migrator Published_Cluster
    Completion Suite_Store Cluster_Admin Listings Invocation_Server
begin

text \<open>
  maos-core is a server through which AI actors call each other. Over HTTP a caller submits an
  invocation for a named actor; workers of that actor fetch invocations from its queue in Postgres,
  and return a response or an error, which wakes the caller if it waits. An administration manages
  actors, API tokens, configs and deployments: publishing a deployment runs migration jobs in
  Kubernetes, makes its config suite the active one, hands every actor a fresh API key and updates
  the cluster. This library models the Go code of the server and proves what makes each part right.

  Programs and state. A Go operation is a HOL function that takes the state explicitly and returns
  the answer with the next state. The database (\<^verbatim>\<open>migrate/migration/*.sql\<close>, \<^verbatim>\<open>dbsqlc/models.go\<close>) is
  one record of tables in \<^verbatim>\<open>Db_Model\<close>, a table the list of its rows; a statement of \<^verbatim>\<open>dbsqlc/*.sql.go\<close>
  is a function \<open>db \<Rightarrow> (pgerr + 'a) \<times> db\<close> with the constraints and unique indexes it can break. A handler
  takes \<open>faults\<close>, which says for the k-th database call whether it reaches the server, so that every
  error branch and every rollback is a case of its theorems; \<open>others\<close> is what other requests do to the
  database while a handler waits outside a transaction. Clocks (\<open>now\<close>, \<open>wall\<close>), random bytes and services
  are arguments. Answers are \<open>reply\<close> values by HTTP class, panics are \<open>Panic\<close>, concurrency is an
  inductive step relation in which any goroutine may move next.

  Theories, in the order they build on each other.

  \<^item> \<^verbatim>\<open>Maos_Prelude\<close>: results, outcomes, replies, row operations and JSON, with their rules.
  \<^item> \<^verbatim>\<open>Go_Text\<close>, \<^verbatim>\<open>Go_Regexp\<close>: what is used of \<^verbatim>\<open>strconv\<close>, \<^verbatim>\<open>strings\<close>, \<^verbatim>\<open>base64\<close> and \<^verbatim>\<open>regexp\<close>; matching is by
    derivatives and proved equal to the language of the expression. \<^verbatim>\<open>Go_Base64\<close> and \<^verbatim>\<open>Go_Json\<close>: the standard
    base64, and the decoding of JSON objects into fields of structs.
  \<^item> \<^verbatim>\<open>Util_Lib\<close>: \<^verbatim>\<open>util/\<close>. Version strings and the command tokenizer invert their printing.
  \<^item> \<^verbatim>\<open>Db_Model\<close>, \<^verbatim>\<open>Invocation_Store\<close>: the table of invocations. The life cycle of a row is an invariant of
    \<open>inv_step\<close>, claims are exclusive; the locale \<open>work_queue\<close> derives this from what a claim promises and
    is interpreted on the statements.
  \<^item> \<^verbatim>\<open>Dispatcher\<close>: \<^verbatim>\<open>invocation/dispatcher.go\<close>, channels by id over a heap, with the locale \<open>wakeups\<close>.
  \<^item> \<^verbatim>\<open>Invocation_Manager\<close>: \<^verbatim>\<open>invocation/manager.go\<close>, the requests on invocations, from submission to answer.
  \<^item> \<^verbatim>\<open>Start_Stop\<close>, \<^verbatim>\<open>Base_Service\<close>, \<^verbatim>\<open>Notifier\<close>: \<^verbatim>\<open>internal/\<close>. The helper that starts and stops a service, its
    back-off, and the session that listens for notifications of the database.
  \<^item> \<^verbatim>\<open>Config_Store\<close>, \<^verbatim>\<open>Deployment_Store\<close>, \<^verbatim>\<open>Actor_Store\<close>: the statements on configs, suites, deployments,
    actors, tokens, queues and settings. \<open>deploy_step\<close> is any of the statements on deployments;
    \<open>deployments_inv\<close> is kept by all of them.
  \<^item> \<^verbatim>\<open>Kube_Config\<close>: \<^verbatim>\<open>admin/kube_config.go\<close>, defaults and validation of the Kubernetes settings.
  \<^item> \<^verbatim>\<open>K8s_Controller\<close>: \<^verbatim>\<open>k8s/controller.go\<close> over an API server that is a parameter with laws. The abstract
    cluster maps kinds and names to objects; \<open>matches_set\<close> is what a set of deployments asks of it.
  \<^item> \<^verbatim>\<open>Deployment_Admin\<close>: \<^verbatim>\<open>admin/deployment_manage.go\<close>, all handlers and the background run.
  \<^item> \<^verbatim>\<open>Published_Cluster\<close>: the run and the controller together.
  \<^item> \<^verbatim>\<open>Access\<close>: \<^verbatim>\<open>middleware/\<close> and the guards of \<^verbatim>\<open>handler/\<close>. The cached authentication refines the uncached.
  \<^item> \<^verbatim>\<open>Actor_Admin\<close>: \<^verbatim>\<open>admin/actor_manage.go\<close>, \<^verbatim>\<open>token_manage.go\<close>, \<^verbatim>\<open>config_manage.go\<close>, \<^verbatim>\<open>setting_manage.go\<close>,
    \<^verbatim>\<open>handler/get_config.go\<close>, \<^verbatim>\<open>mcp/mcp_agent_list.go\<close> and \<^verbatim>\<open>dbaccess/helper.go\<close>.
  \<^item> \<^verbatim>\<open>Listings\<close>: the paginated statements and the handlers over them. The locale \<open>paged\<close> says what a page is
    of all rows, and is interpreted on the three statements.
  \<^item> \<^verbatim>\<open>Suite_Store\<close>: \<^verbatim>\<open>internal/suitestore\<close> and \<^verbatim>\<open>admin/reference_config_suite.go\<close>, the exchange of published
    configs between servers through S3. A synchronisation refines copying the changed objects.
  \<^item> \<^verbatim>\<open>Cluster_Admin\<close>: \<^verbatim>\<open>admin/secret_manage.go\<close> and the pod metrics, over the controller.
  \<^item> \<^verbatim>\<open>Llm_Types\<close>, \<^verbatim>\<open>Anthropic_Adapter\<close>, \<^verbatim>\<open>Azure_Adapter\<close>: \<^verbatim>\<open>llm/\<close>, the models and what the adapters make of
    requests and answers. \<^verbatim>\<open>Completion\<close>: the handlers over them, and the union of message contents from
    \<^verbatim>\<open>api/server.gen.go\<close>. Conversations survive the round trip through the API.
  \<^item> \<^verbatim>\<open>Api_Types\<close>: the structs of \<^verbatim>\<open>api/server.gen.go\<close> that travel as JSON, as data over which one decoder and
    one encoder are defined. \<^verbatim>\<open>Http_Routes\<close>: the routing table and how the variables of a path are matched.
    \<^verbatim>\<open>Http_Tables\<close>: for every operation the parameters its wrapper binds, the body its strict handler
    decodes and the answers it can give.
  \<^item> \<^verbatim>\<open>Http_Api\<close>: the wrappers, strict handlers and \<open>Visit\<close> methods over these tables, composed with the
    bearer authentication as \<^verbatim>\<open>app/server/app.go\<close> does, and the client that the specification implies;
    \<open>serve\<close> is one request.
  \<^item> \<^verbatim>\<open>Server\<close>: \<^verbatim>\<open>handler/handler.go\<close> behind that layer. The handlers of \<^verbatim>\<open>Actor_Admin\<close>, \<^verbatim>\<open>Deployment_Admin\<close> and
    \<^verbatim>\<open>Listings\<close> get their arguments from bound parameters and decoded bodies, and their replies become
    statuses and bodies. Over all sequences of requests changes need a permission.
  \<^item> \<^verbatim>\<open>Invocation_Server\<close>: the operations of \<^verbatim>\<open>invocation/manager.go\<close> behind the HTTP layer; an invocation's
    way from its caller to a worker and back over four authenticated requests.
  \<^item> \<^verbatim>\<open>Migrator\<close>: \<^verbatim>\<open>migrate/maos_migrate.go\<close>, refined to a plan on version numbers.

  Bounds. Waiting is a list: a long poll takes one element per round, and is proved to answer
  once the rounds reach its deadline; the watch over migration jobs takes the number
  of ticks before its context ends, and \<open>None\<close> is the expired context. All other recursion is on data.
  Times are unbounded integers; \<open>int32\<close> and \<open>int64\<close> ranges are written out where text is parsed.

  Laws of code outside the repository. \<open>cache_laws\<close> for the token cache, \<open>kube_laws\<close> and \<open>deletes_work\<close> for
  the Kubernetes API, \<open>script_laws\<close> for the effect of migration scripts on the table of versions,
  \<open>s3_put_law\<close> for objects stored in S3, of \<open>text_lib\<close>, the reading and writing of JSON text, that it
  reads back what it writes, \<open>mux_laws\<close> for the router and \<open>binding_laws\<close> for the binding of single
  parameters. Each is met by a concrete instance in the witnesses, the last two by \<open>plain_lib\<close>.

  Not modelled: in \<^verbatim>\<open>api/server.gen.go\<close> the accessors of unions other than message contents, which the
  server does not call; in \<^verbatim>\<open>app/\<close> environment, logging, signals and flags. In \<^verbatim>\<open>Server\<close> the operations that
  need more than the database are behind the parameter \<open>remote\<close>: those on invocations are filled in by
  \<^verbatim>\<open>Invocation_Server\<close>, those on completions, publishing, the cluster and suites are modelled in their own
  theories. The HTTP exchanges with
  models, the S3 client and the set-up of the Kubernetes client are parameters; the encryption of
  secrets is left to its libraries. Isolation is that of one statement or transaction at a time: two
  transactions that would conflict in Postgres are not interleaved.
\<close>

end
